(* ===== verification/Prelude.thy ===== *)
theory Prelude
  imports Main "HOL-Library.Word"
begin

text \<open>
  Shared material of the development: the outcome type of a Go call, the combinators that
  thread a state through calls that may return an error or panic, generic lemmas about
  tables (lists of rows), and the simplification collections the component theories fill.
\<close>

section \<open>Collections\<close>

named_theorems stmt_simps \<open>unfolding rules of the SQL statements of the repositories\<close>
named_theorems call_defs \<open>definitions of calls that are unfolded when a service is run\<close>
named_theorems keeps_intros \<open>frame and invariant rules for calls\<close>

section \<open>Outcomes of calls\<close>

text \<open>
  A Go call returns normally, returns a non-nil error, or panics. The callers test
  \<^verbatim>\<open>err != nil\<close>, which distinguishes the first two; a panic passes through every caller.
\<close>

datatype ('e, 'a) res = Ok 'a | Err 'e | Panic string

fun is_Ok :: "('e, 'a) res \<Rightarrow> bool" where
  "is_Ok (Ok _) = True"
| "is_Ok (Err _) = False"
| "is_Ok (Panic _) = False"

lemma is_Ok_iff: "is_Ok r \<longleftrightarrow> (\<exists>a. r = Ok a)"
  by (cases r) auto

type_synonym ('w, 'e, 'a) call = "'w \<Rightarrow> ('e, 'a) res \<times> 'w"

definition ret :: "'a \<Rightarrow> ('w, 'e, 'a) call" where
  "ret a w = (Ok a, w)"

definition throw :: "'e \<Rightarrow> ('w, 'e, 'a) call" where
  "throw e w = (Err e, w)"

definition panic :: "string \<Rightarrow> ('w, 'e, 'a) call" where
  "panic s w = (Panic s, w)"

text \<open>\<open>attempt m h k\<close>: run \<open>m\<close>; on an error run the handler \<open>h\<close>, on a value run \<open>k\<close>.\<close>

definition attempt ::
  "('w, 'e, 'a) call \<Rightarrow> ('e \<Rightarrow> ('w, 'f, 'b) call) \<Rightarrow> ('a \<Rightarrow> ('w, 'f, 'b) call) \<Rightarrow> ('w, 'f, 'b) call"
where
  "attempt m h k w =
     (case m w of
        (Ok a, w') \<Rightarrow> k a w'
      | (Err e, w') \<Rightarrow> h e w'
      | (Panic s, w') \<Rightarrow> (Panic s, w'))"

text \<open>\<open>bindM m k\<close>: the idiom \<^verbatim>\<open>if err != nil { return err }\<close>.\<close>

definition bindM ::
  "('w, 'e, 'a) call \<Rightarrow> ('a \<Rightarrow> ('w, 'e, 'b) call) \<Rightarrow> ('w, 'e, 'b) call"
where
  "bindM m k = attempt m throw k"

text \<open>\<open>mapErr f m\<close>: return another error in place of the one received.\<close>

definition mapErr :: "('e \<Rightarrow> 'f) \<Rightarrow> ('w, 'e, 'a) call \<Rightarrow> ('w, 'f, 'a) call" where
  "mapErr f m = attempt m (\<lambda>e. throw (f e)) ret"

definition gets :: "('w \<Rightarrow> 'a) \<Rightarrow> ('w, 'e, 'a) call" where
  "gets f w = (Ok (f w), w)"

definition modify :: "('w \<Rightarrow> 'w) \<Rightarrow> ('w, 'e, unit) call" where
  "modify f w = (Ok (), f w)"

text \<open>\<open>finally m f\<close>: \<^verbatim>\<open>defer\<close>, run \<open>f\<close> on the state however \<open>m\<close> ends.\<close>

definition deferM :: "('w \<Rightarrow> 'w) \<Rightarrow> ('w, 'e, 'a) call \<Rightarrow> ('w, 'e, 'a) call" where
  "deferM f m w = (case m w of (r, w') \<Rightarrow> (r, f w'))"

text \<open>\<open>ret_sum s\<close>: return what a function without effects computed, or its error.\<close>

definition ret_sum :: "'e + 'a \<Rightarrow> ('w, 'e, 'a) call" where
  "ret_sum s = (case s of Inl e \<Rightarrow> throw e | Inr a \<Rightarrow> ret a)"

lemmas run_defs = ret_def throw_def panic_def gets_def modify_def

lemma ret_eq [simp]: "ret a w = (Ok a, w)" by (simp add: ret_def)
lemma throw_eq [simp]: "throw e w = (Err e, w)" by (simp add: throw_def)
lemma panic_eq [simp]: "panic s w = (Panic s, w)" by (simp add: panic_def)
lemma gets_eq [simp]: "gets f w = (Ok (f w), w)" by (simp add: gets_def)
lemma modify_eq [simp]: "modify f w = (Ok (), f w)" by (simp add: modify_def)

lemma attempt_Ok [simp]: "m w = (Ok a, w') \<Longrightarrow> attempt m h k w = k a w'"
  by (simp add: attempt_def)

lemma attempt_Err [simp]: "m w = (Err e, w') \<Longrightarrow> attempt m h k w = h e w'"
  by (simp add: attempt_def)

lemma attempt_Panic [simp]: "m w = (Panic s, w') \<Longrightarrow> attempt m h k w = (Panic s, w')"
  by (simp add: attempt_def)

lemma bindM_Ok [simp]: "m w = (Ok a, w') \<Longrightarrow> bindM m k w = k a w'"
  by (simp add: bindM_def)

lemma bindM_Err [simp]: "m w = (Err e, w') \<Longrightarrow> bindM m k w = (Err e, w')"
  by (simp add: bindM_def)

lemma bindM_Panic [simp]: "m w = (Panic s, w') \<Longrightarrow> bindM m k w = (Panic s, w')"
  by (simp add: bindM_def)

lemma deferM_eq [simp]: "m w = (r, w') \<Longrightarrow> deferM f m w = (r, f w')"
  by (simp add: deferM_def)

lemma ret_sum_eq [simp]: "ret_sum (Inl e) w = (Err e, w)" "ret_sum (Inr a) w = (Ok a, w)"
  by (simp_all add: ret_sum_def)

lemma ret_sum_Ok_iff: "ret_sum s w = (Ok a, w') \<longleftrightarrow> s = Inr a \<and> w' = w"
  by (cases s) auto

subsection \<open>Inversion\<close>

lemma attempt_cases:
  assumes "attempt m h k w = (r, w'')"
  obtains (Ok) a w' where "m w = (Ok a, w')" "k a w' = (r, w'')"
    | (Err) e w' where "m w = (Err e, w')" "h e w' = (r, w'')"
    | (Panic) s where "m w = (Panic s, w'')" "r = Panic s"
  using assms by (auto simp: attempt_def split: prod.splits res.splits)

lemma bindM_Ok_iff:
  "bindM m k w = (Ok b, w'') \<longleftrightarrow> (\<exists>a w'. m w = (Ok a, w') \<and> k a w' = (Ok b, w''))"
  by (auto simp: bindM_def attempt_def split: prod.splits res.splits)

lemma bindM_Err_iff:
  "bindM m k w = (Err e, w'') \<longleftrightarrow>
     m w = (Err e, w'') \<or> (\<exists>a w'. m w = (Ok a, w') \<and> k a w' = (Err e, w''))"
  by (auto simp: bindM_def attempt_def split: prod.splits res.splits)

lemma mapErr_Ok_iff: "mapErr f m w = (Ok a, w') \<longleftrightarrow> m w = (Ok a, w')"
  by (auto simp: mapErr_def attempt_def split: prod.splits res.splits)

lemma attempt_Ok_iff:
  "attempt m h k w = (Ok b, w'') \<longleftrightarrow>
     (\<exists>a w'. m w = (Ok a, w') \<and> k a w' = (Ok b, w'')) \<or>
     (\<exists>e w'. m w = (Err e, w') \<and> h e w' = (Ok b, w''))"
  by (auto simp: attempt_def split: prod.splits res.splits)

lemma deferM_iff: "deferM f m w = (r, w'') \<longleftrightarrow> (\<exists>w'. m w = (r, w') \<and> w'' = f w')"
  by (auto simp: deferM_def split: prod.splits)

subsection \<open>Invariants and frames of calls\<close>

text \<open>
  \<open>keeps I m\<close>: however \<open>m\<close> ends, it ends in a state with \<open>I\<close> if it started in one.
\<close>

definition keeps :: "('w \<Rightarrow> bool) \<Rightarrow> ('w, 'e, 'a) call \<Rightarrow> bool" where
  "keeps I m \<longleftrightarrow> (\<forall>w. I w \<longrightarrow> I (snd (m w)))"

lemma keepsI: "(\<And>w. I w \<Longrightarrow> I (snd (m w))) \<Longrightarrow> keeps I m"
  by (simp add: keeps_def)

lemma keepsD: "keeps I m \<Longrightarrow> m w = (r, w') \<Longrightarrow> I w \<Longrightarrow> I w'"
  by (metis keeps_def snd_conv)

lemma keeps_ret [keeps_intros]: "keeps I (ret a)"
  by (simp add: keeps_def)

lemma keeps_throw [keeps_intros]: "keeps I (throw e)"
  by (simp add: keeps_def)

lemma keeps_panic [keeps_intros]: "keeps I (panic s)"
  by (simp add: keeps_def)

lemma keeps_gets [keeps_intros]: "keeps I (gets f)"
  by (simp add: keeps_def)

lemma keeps_ret_sum [keeps_intros]: "keeps I (ret_sum s)"
  by (cases s) (auto simp: keeps_def)

lemma keeps_modify: "(\<And>w. I w \<Longrightarrow> I (f w)) \<Longrightarrow> keeps I (modify f)"
  by (simp add: keeps_def)

lemma keeps_attempt [keeps_intros]:
  assumes "keeps I m" "\<And>e. keeps I (h e)" "\<And>a. keeps I (k a)"
  shows "keeps I (attempt m h k)"
  using assms by (auto simp: keeps_def attempt_def split: prod.splits res.splits)

lemma keeps_bindM [keeps_intros]:
  "keeps I m \<Longrightarrow> (\<And>a. keeps I (k a)) \<Longrightarrow> keeps I (bindM m k)"
  unfolding bindM_def by (intro keeps_attempt keeps_throw)

lemma keeps_mapErr [keeps_intros]: "keeps I m \<Longrightarrow> keeps I (mapErr f m)"
  unfolding mapErr_def by (intro keeps_attempt keeps_throw keeps_ret)

lemma keeps_deferM: "keeps I m \<Longrightarrow> (\<And>w. I w \<Longrightarrow> I (f w)) \<Longrightarrow> keeps I (deferM f m)"
  by (auto simp: keeps_def deferM_def split: prod.splits)

lemma keeps_if [keeps_intros]: "keeps I m \<Longrightarrow> keeps I n \<Longrightarrow> keeps I (if b then m else n)"
  by simp

lemma keeps_case_option [keeps_intros]:
  "keeps I m \<Longrightarrow> (\<And>x. keeps I (k x)) \<Longrightarrow> keeps I (case z of None \<Rightarrow> m | Some x \<Rightarrow> k x)"
  by (cases z) auto

lemma keeps_case_prod [keeps_intros]:
  "(\<And>a b. keeps I (k a b)) \<Longrightarrow> keeps I (case z of (a, b) \<Rightarrow> k a b)"
  by (cases z) auto

lemma keeps_Let [keeps_intros]: "(\<And>a. keeps I (k a)) \<Longrightarrow> keeps I (let x = z in k x)"
  by simp

lemma keeps_conj: "keeps I m \<Longrightarrow> keeps J m \<Longrightarrow> keeps (\<lambda>w. I w \<and> J w) m"
  by (auto simp: keeps_def)

section \<open>Tables\<close>

text \<open>
  A table is a list of rows. \<open>update_where p f\<close> is \<^verbatim>\<open>UPDATE .. SET f WHERE p\<close>.
\<close>

definition update_where :: "('r \<Rightarrow> bool) \<Rightarrow> ('r \<Rightarrow> 'r) \<Rightarrow> 'r list \<Rightarrow> 'r list" where
  "update_where p f rs = map (\<lambda>r. if p r then f r else r) rs"

lemma update_where_Nil [simp]: "update_where p f [] = []"
  by (simp add: update_where_def)

lemma update_where_Cons [simp]:
  "update_where p f (r # rs) = (if p r then f r else r) # update_where p f rs"
  by (simp add: update_where_def)

lemma update_where_append [simp]:
  "update_where p f (xs @ ys) = update_where p f xs @ update_where p f ys"
  by (simp add: update_where_def)

lemma length_update_where [simp]: "length (update_where p f rs) = length rs"
  by (simp add: update_where_def)

lemma set_update_where:
  "set (update_where p f rs) = {r \<in> set rs. \<not> p r} \<union> f ` {r \<in> set rs. p r}"
  by (auto simp: update_where_def)

lemma map_update_where:
  "(\<And>r. p r \<Longrightarrow> g (f r) = g r) \<Longrightarrow> map g (update_where p f rs) = map g rs"
  by (induction rs) auto

lemma update_where_id: "(\<And>r. r \<in> set rs \<Longrightarrow> \<not> p r) \<Longrightarrow> update_where p f rs = rs"
  by (induction rs) auto

lemma in_update_where_iff:
  "x \<in> set (update_where p f rs) \<longleftrightarrow> (\<exists>r \<in> set rs. x = (if p r then f r else r))"
  by (auto simp: update_where_def)

lemma update_whereE:
  assumes "x \<in> set (update_where p f rs)"
  obtains y where "y \<in> set rs" "x = (if p y then f y else y)"
  using assms unfolding in_update_where_iff by blast

text \<open>A row that the statement's condition still picks out was rewritten by it.\<close>

lemma update_where_hit:
  assumes "x \<in> set (update_where p f rs)" "p x"
  obtains r where "r \<in> set rs" "p r" "x = f r"
  using assms by (force simp: in_update_where_iff split: if_splits)

lemma update_where_cong:
  "(\<And>r. r \<in> set rs \<Longrightarrow> p r = q r) \<Longrightarrow> (\<And>r. r \<in> set rs \<Longrightarrow> q r \<Longrightarrow> f r = g r) \<Longrightarrow>
     update_where p f rs = update_where q g rs"
  by (induction rs) auto

lemma filter_update_where:
  "(\<And>r. p r \<Longrightarrow> q (f r) = q r) \<Longrightarrow> filter q (update_where p f rs) = update_where p f (filter q rs)"
  by (induction rs) auto

lemma find_Some_in: "List.find p rs = Some r \<Longrightarrow> r \<in> set rs \<and> p r"
  by (auto simp: find_Some_iff)

lemma find_None_iff2: "List.find p rs = None \<longleftrightarrow> (\<forall>r \<in> set rs. \<not> p r)"
  by (auto simp: find_None_iff)

lemma find_update_where:
  "(\<And>r. p r \<Longrightarrow> q (f r) = q r) \<Longrightarrow>
     List.find q (update_where p f rs) =
       map_option (\<lambda>r. if p r then f r else r) (List.find q rs)"
  by (induction rs) auto

lemma find_append:
  "List.find p (xs @ ys) = (case List.find p xs of None \<Rightarrow> List.find p ys | Some x \<Rightarrow> Some x)"
  by (induction xs) auto

text \<open>A key column identifies rows.\<close>

lemma distinct_key_inj:
  "distinct (map key rs) \<Longrightarrow> r \<in> set rs \<Longrightarrow> s \<in> set rs \<Longrightarrow> key r = key s \<Longrightarrow> r = s"
  by (induction rs) (auto simp: rev_image_eqI)

lemma find_key_unique:
  assumes "distinct (map key rs)" "r \<in> set rs" "key r = k"
  shows "List.find (\<lambda>r. key r = k) rs = Some r"
  using assms by (induction rs) (auto simp: rev_image_eqI)

lemma count_le_one_filter_key:
  "distinct (map key rs) \<Longrightarrow> length (filter (\<lambda>r. key r = k) rs) \<le> 1"
  by (induction rs) (auto simp: filter_empty_conv rev_image_eqI image_iff)

section \<open>Strings\<close>

text \<open>Go strings are byte sequences; \<^typ>\<open>string\<close> is a list of 8-bit characters.\<close>

type_synonym byte = "8 word"

definition bytes_of :: "string \<Rightarrow> byte list" where
  "bytes_of s = map (\<lambda>c. word_of_nat (of_char c)) s"

lemma length_bytes_of [simp]: "length (bytes_of s) = length s"
  by (simp add: bytes_of_def)

end
