(* ===== verification/Go_Std.thy ===== *)
theory Go_Std
  imports Prelude
begin

text \<open>
  The parts of Go's standard library the program computes with: \<^verbatim>\<open>strings\<close>
  (on ASCII text), \<^verbatim>\<open>strconv.Atoi\<close>, durations of \<^verbatim>\<open>time\<close>,
  \<^verbatim>\<open>encoding/hex\<close>, \<^verbatim>\<open>encoding/base64\<close> (\<^verbatim>\<open>RawURLEncoding\<close>),
  \<^verbatim>\<open>crypto/sha256\<close> and \<^verbatim>\<open>crypto/hmac\<close>.
  SHA-256 works on \<^typ>\<open>32 word\<close>, so its additions wrap around as the standard demands.
\<close>

unbundle bit_operations_syntax

section \<open>strings\<close>

definition is_space :: "char \<Rightarrow> bool" where
  "is_space c \<longleftrightarrow> (of_char c :: nat) \<in> {9, 10, 11, 12, 13, 32}"

definition TrimLeft :: "(char \<Rightarrow> bool) \<Rightarrow> string \<Rightarrow> string" where
  "TrimLeft p s = dropWhile p s"

definition TrimBoth :: "(char \<Rightarrow> bool) \<Rightarrow> string \<Rightarrow> string" where
  "TrimBoth p s = rev (dropWhile p (rev (dropWhile p s)))"

definition TrimSpace :: "string \<Rightarrow> string" where
  "TrimSpace s = TrimBoth is_space s"

definition HasPrefix :: "string \<Rightarrow> string \<Rightarrow> bool" where
  "HasPrefix s p \<longleftrightarrow> take (length p) s = p"

definition TrimPrefix :: "string \<Rightarrow> string \<Rightarrow> string" where
  "TrimPrefix s p = (if HasPrefix s p then drop (length p) s else s)"

fun Contains :: "string \<Rightarrow> string \<Rightarrow> bool" where
  "Contains [] p = (p = [])"
| "Contains (c # s) p = (HasPrefix (c # s) p \<or> Contains s p)"

definition lower_char :: "char \<Rightarrow> char" where
  "lower_char c =
     (let n = (of_char c :: nat) in if 65 \<le> n \<and> n \<le> 90 then char_of (n + 32) else c)"

definition ToLower :: "string \<Rightarrow> string" where
  "ToLower s = map lower_char s"

text \<open>\<^verbatim>\<open>strings.Split(s, sep)\<close> for a separator of one character: never empty.\<close>

fun SplitChar :: "char \<Rightarrow> string \<Rightarrow> string list" where
  "SplitChar sep [] = [[]]"
| "SplitChar sep (c # s) =
     (if c = sep then [] # SplitChar sep s
      else (case SplitChar sep s of [] \<Rightarrow> [[c]] | p # ps \<Rightarrow> (c # p) # ps))"

text \<open>\<^verbatim>\<open>strings.Cut(s, sep)\<close> for a separator of one character.\<close>

definition CutChar :: "char \<Rightarrow> string \<Rightarrow> string \<times> string \<times> bool" where
  "CutChar sep s =
     (if sep \<in> set s
      then (takeWhile (\<lambda>c. c \<noteq> sep) s, drop 1 (dropWhile (\<lambda>c. c \<noteq> sep) s), True)
      else (s, [], False))"

lemma CutChar_append:
  "sep \<notin> set s \<Longrightarrow> CutChar sep (s @ sep # t) = (s, t, True)"
  by (induction s) (auto simp: CutChar_def)

lemma HasPrefix_append [simp]: "HasPrefix (p @ s) p"
  by (simp add: HasPrefix_def)

lemma TrimPrefix_append [simp]: "TrimPrefix (p @ s) p = s"
  by (simp add: TrimPrefix_def)

lemma dropWhile_id_if: "s = [] \<or> \<not> p (hd s) \<Longrightarrow> dropWhile p s = s"
  by (cases s) auto

lemma TrimBoth_cases: "TrimBoth p s = [] \<or> (\<not> p (hd (TrimBoth p s)) \<and> \<not> p (last (TrimBoth p s)))"
proof (cases "TrimBoth p s = []")
  case False
  let ?d = "dropWhile p s" and ?r = "dropWhile p (rev (dropWhile p s))"
  from False have r: "?r \<noteq> []" by (simp add: TrimBoth_def)
  then have "\<not> p (hd ?r)" by (rule hd_dropWhile)
  then have last: "\<not> p (last (TrimBoth p s))"
    using r by (simp add: TrimBoth_def last_rev)
  have d: "?d \<noteq> []" using r by (metis dropWhile.simps(1) rev.simps(1))
  obtain t where "rev ?d = t @ ?r"
    by (metis takeWhile_dropWhile_id)
  then have "?d = rev ?r @ rev t" by (metis rev_append rev_rev_ident)
  then have "hd ?d = hd (rev ?r)" using r by (metis hd_append2 rev_is_Nil_conv)
  with hd_dropWhile[OF d] have "\<not> p (hd (TrimBoth p s))"
    by (simp add: TrimBoth_def)
  with last show ?thesis by simp
qed simp

lemma TrimBoth_idem [simp]: "TrimBoth p (TrimBoth p s) = TrimBoth p s"
proof -
  let ?t = "TrimBoth p s"
  have c: "?t = [] \<or> (\<not> p (hd ?t) \<and> \<not> p (last ?t))" by (rule TrimBoth_cases)
  then have "dropWhile p ?t = ?t" by (intro dropWhile_id_if) auto
  moreover have "dropWhile p (rev ?t) = rev ?t"
    using c by (intro dropWhile_id_if) (auto simp: hd_rev)
  ultimately show ?thesis by (subst TrimBoth_def) simp
qed

lemma TrimSpace_idem [simp]: "TrimSpace (TrimSpace s) = TrimSpace s"
  by (simp add: TrimSpace_def)

section \<open>strconv\<close>

definition digit_val :: "char \<Rightarrow> int option" where
  "digit_val c = (let n = (of_char c :: int) in if 48 \<le> n \<and> n \<le> 57 then Some (n - 48) else None)"

fun digits_val :: "int \<Rightarrow> string \<Rightarrow> int option" where
  "digits_val acc [] = Some acc"
| "digits_val acc (c # s) =
     (case digit_val c of None \<Rightarrow> None | Some d \<Rightarrow> digits_val (10 * acc + d) s)"

definition int64_range :: "int \<Rightarrow> bool" where
  "int64_range n \<longleftrightarrow> - (2 ^ 63) \<le> n \<and> n < 2 ^ 63"

text \<open>
  \<^verbatim>\<open>strconv.Atoi\<close>: an optional sign, at least one decimal digit, in the range of a
  64-bit \<^verbatim>\<open>int\<close>; otherwise an error, here \<^const>\<open>None\<close>.
\<close>

definition Atoi :: "string \<Rightarrow> int option" where
  "Atoi s =
     (let (neg, ds) =
        (case s of
           c # t \<Rightarrow> if c = CHR ''-'' then (True, t) else if c = CHR ''+'' then (False, t) else (False, s)
         | [] \<Rightarrow> (False, []))
      in if ds = [] then None
         else case digits_val 0 ds of
                None \<Rightarrow> None
              | Some n \<Rightarrow> (let v = (if neg then - n else n) in if int64_range v then Some v else None))"

lemma Atoi_range: "Atoi s = Some n \<Longrightarrow> int64_range n"
  by (auto simp: Atoi_def Let_def split: list.splits if_splits option.splits)

lemma Atoi_empty [simp]: "Atoi [] = None"
  by (simp add: Atoi_def)

section \<open>time\<close>

text \<open>
  \<^verbatim>\<open>time.Duration\<close> counts nanoseconds; \<^verbatim>\<open>time.Time\<close> is modelled as the
  number of nanoseconds since the Unix epoch.
\<close>

type_synonym duration = int
type_synonym time = int

definition Second :: duration where "Second = 1000000000"
definition Minute :: duration where "Minute = 60 * Second"
definition Hour :: duration where "Hour = 60 * Minute"

lemmas duration_defs = Second_def Minute_def Hour_def

lemma durations_pos [simp]: "0 < Second" "0 < Minute" "0 < Hour"
  by (simp_all add: duration_defs)

text \<open>\<^verbatim>\<open>t.Unix()\<close>: whole seconds.\<close>

definition Unix :: "time \<Rightarrow> int" where
  "Unix t = t div Second"

lemma Unix_le: "Unix t * Second \<le> t"
  by (simp add: Unix_def duration_defs)

lemma Unix_mono: "s \<le> t \<Longrightarrow> Unix s \<le> Unix t"
  by (simp add: Unix_def duration_defs zdiv_mono1)

section \<open>encoding/hex and encoding/base64\<close>

definition hex_digit :: "nat \<Rightarrow> char" where
  "hex_digit n = (if n < 10 then char_of (48 + n) else char_of (87 + n))"

definition hex_byte :: "byte \<Rightarrow> string" where
  "hex_byte b = [hex_digit (unat b div 16), hex_digit (unat b mod 16)]"

definition hex_EncodeToString :: "byte list \<Rightarrow> string" where
  "hex_EncodeToString bs = concat (map hex_byte bs)"

lemma length_hex [simp]: "length (hex_EncodeToString bs) = 2 * length bs"
  by (induction bs) (simp_all add: hex_EncodeToString_def hex_byte_def)

lemma hex_digit_inj: "m < 16 \<Longrightarrow> n < 16 \<Longrightarrow> hex_digit m = hex_digit n \<Longrightarrow> m = n"
  by (auto simp: hex_digit_def split: if_splits
      dest!: arg_cong[where f = "of_char :: char \<Rightarrow> nat"])

lemma unat_byte_lt: "unat (b :: byte) < 256"
  using unsigned_less[of b] by simp

lemma hex_byte_inj: "hex_byte a = hex_byte b \<Longrightarrow> a = b"
proof -
  assume h: "hex_byte a = hex_byte b"
  have "unat a div 16 = unat b div 16"
    using h unat_byte_lt[of a] unat_byte_lt[of b]
    by (intro hex_digit_inj) (auto simp: hex_byte_def)
  moreover have "unat a mod 16 = unat b mod 16"
    using h by (intro hex_digit_inj) (auto simp: hex_byte_def)
  ultimately have "unat a = unat b" by (metis div_mult_mod_eq)
  then show "a = b" by (simp add: word_unat_eq_iff)
qed

lemma hex_inj: "hex_EncodeToString xs = hex_EncodeToString ys \<Longrightarrow> xs = ys"
proof (induction xs arbitrary: ys)
  case Nil
  then show ?case by (cases ys) (auto simp: hex_EncodeToString_def hex_byte_def)
next
  case (Cons x xs)
  then obtain y ys' where ys: "ys = y # ys'"
    by (cases ys) (auto simp: hex_EncodeToString_def hex_byte_def)
  with Cons.prems have "hex_byte x = hex_byte y" "hex_EncodeToString xs = hex_EncodeToString ys'"
    by (auto simp: hex_EncodeToString_def hex_byte_def)
  with Cons.IH ys show ?case by (auto dest: hex_byte_inj)
qed

text \<open>The alphabet of \<^verbatim>\<open>base64.RawURLEncoding\<close>; no padding is written.\<close>

definition b64_char :: "nat \<Rightarrow> char" where
  "b64_char n =
     (if n < 26 then char_of (65 + n)
      else if n < 52 then char_of (71 + n)
      else if n < 62 then char_of (n - 4)
      else if n = 62 then CHR ''-'' else CHR ''_'')"

fun base64_RawURL :: "byte list \<Rightarrow> string" where
  "base64_RawURL (a # b # c # rest) =
     (let n = unat a * 65536 + unat b * 256 + unat c
      in [b64_char (n div 262144 mod 64), b64_char (n div 4096 mod 64),
          b64_char (n div 64 mod 64), b64_char (n mod 64)] @ base64_RawURL rest)"
| "base64_RawURL [a, b] =
     (let n = unat a * 65536 + unat b * 256
      in [b64_char (n div 262144 mod 64), b64_char (n div 4096 mod 64), b64_char (n div 64 mod 64)])"
| "base64_RawURL [a] =
     (let n = unat a * 65536 in [b64_char (n div 262144 mod 64), b64_char (n div 4096 mod 64)])"
| "base64_RawURL [] = []"

lemma length_base64_RawURL:
  "length (base64_RawURL bs) = (4 * length bs + 2) div 3"
  by (induction bs rule: base64_RawURL.induct) (simp_all add: Let_def)

lemma b64_char_inj: "m < 64 \<Longrightarrow> n < 64 \<Longrightarrow> b64_char m = b64_char n \<Longrightarrow> m = n"
  by (auto simp: b64_char_def split: if_splits
      dest!: arg_cong[where f = "of_char :: char \<Rightarrow> nat"])

lemma b64_digits:
  fixes m n :: nat
  assumes "b64_char (m mod 64) = b64_char (n mod 64)" "m div 64 = n div 64"
  shows "m = n"
  using b64_char_inj[of "m mod 64" "n mod 64"] assms by (metis div_mult_mod_eq mod_less_divisor zero_less_numeral)

lemma split_byte:
  fixes x y c c' :: nat
  assumes "x * 256 + c = y * 256 + c'" "c < 256" "c' < 256"
  shows "x = y \<and> c = c'"
proof -
  have "(x * 256 + c) div 256 = x" "(x * 256 + c) mod 256 = c"
    "(y * 256 + c') div 256 = y" "(y * 256 + c') mod 256 = c'"
    using assms(2,3) by simp_all
  with assms(1) show ?thesis by metis
qed

lemma three_bytes:
  fixes a b c a' b' c' :: nat
  assumes "a * 65536 + b * 256 + c = a' * 65536 + b' * 256 + c'"
    and "b < 256" "c < 256" "b' < 256" "c' < 256"
  shows "a = a' \<and> b = b' \<and> c = c'"
  using split_byte[of "a * 256 + b" c "a' * 256 + b'" c'] split_byte[of a b a' b'] assms by simp

lemma b64_group:
  fixes m n :: nat
  assumes "m < 16777216" "n < 16777216"
    and "b64_char (m div 262144 mod 64) = b64_char (n div 262144 mod 64)"
    and "b64_char (m div 4096 mod 64) = b64_char (n div 4096 mod 64)"
    and "b64_char (m div 64 mod 64) = b64_char (n div 64 mod 64)"
    and "b64_char (m mod 64) = b64_char (n mod 64)"
  shows "m = n"
proof -
  have "m div 262144 = n div 262144"
    using b64_char_inj[of "m div 262144 mod 64" "n div 262144 mod 64"] assms(1-3) by simp
  then have "m div 4096 = n div 4096"
    using b64_digits[of "m div 4096" "n div 4096"] assms(4) by (simp add: div_mult2_eq[symmetric])
  then have "m div 64 = n div 64"
    using b64_digits[of "m div 64" "n div 64"] assms(5) by (simp add: div_mult2_eq[symmetric])
  then show ?thesis using b64_digits[of m n] assms(6) by simp
qed

text \<open>The encoding is injective: different random bytes give different tokens.\<close>

lemma base64_RawURL_inj:
  "length xs = length ys \<Longrightarrow> base64_RawURL xs = base64_RawURL ys \<Longrightarrow> xs = ys"
proof (induction xs arbitrary: ys rule: base64_RawURL.induct)
  case (1 a b c rest)
  then obtain a' b' c' rest' where ys: "ys = a' # b' # c' # rest'"
    by (auto simp: length_Suc_conv Suc_length_conv)
  let ?n = "\<lambda>a b c :: byte. unat a * 65536 + unat b * 256 + unat c"
  have bound: "?n a b c < 16777216" for a b c :: byte
    using unat_byte_lt[of a] unat_byte_lt[of b] unat_byte_lt[of c] by linarith
  from 1(3) ys have "?n a b c = ?n a' b' c'" and rest: "base64_RawURL rest = base64_RawURL rest'"
    by (auto simp: Let_def intro: b64_group[OF bound bound])
  then have "a = a' \<and> b = b' \<and> c = c'"
    using three_bytes[of "unat a" "unat b" "unat c" "unat a'" "unat b'" "unat c'"]
    by (simp add: unat_byte_lt word_unat_eq_iff)
  with 1(1)[OF refl, of rest'] 1(2) rest ys show ?case by simp
next
  case (2 a b)
  then obtain a' b' where ys: "ys = [a', b']" by (auto simp: length_Suc_conv Suc_length_conv)
  let ?n = "\<lambda>a b :: byte. unat a * 65536 + unat b * 256"
  have bound: "?n a b < 16777216" for a b :: byte
    using unat_byte_lt[of a] unat_byte_lt[of b] by linarith
  have eq: "?n a b = 64 * (unat a * 1024 + unat b * 4)" for a b :: byte by simp
  have low: "?n a b mod 64 = 0" for a b :: byte by (simp only: eq mod_mult_self1_is_0)
  from 2 ys have "?n a b = ?n a' b'"
    by (intro b64_group[OF bound bound]) (auto simp: Let_def low)
  then show ?case
    using three_bytes[of "unat a" "unat b" 0 "unat a'" "unat b'" 0] ys
    by (simp add: unat_byte_lt word_unat_eq_iff)
next
  case (3 a)
  then obtain a' where ys: "ys = [a']" by (auto simp: length_Suc_conv Suc_length_conv)
  have bound: "unat a * 65536 < 16777216" for a :: byte
    using unat_byte_lt[of a] by linarith
  have eq: "unat a * 65536 = 64 * (64 * (unat a * 16))" for a :: byte by simp
  have low: "unat a * 65536 mod 64 = 0" "unat a * 65536 div 64 mod 64 = 0" for a :: byte
    by (simp_all only: eq mod_mult_self1_is_0 nonzero_mult_div_cancel_left)
  from 3 ys have "unat a * 65536 = unat a' * 65536"
    by (intro b64_group[OF bound bound]) (auto simp: Let_def low)
  with ys show ?case by (simp add: word_unat_eq_iff)
next
  case 4
  then show ?case by simp
qed

section \<open>crypto/sha256 and crypto/hmac\<close>

type_synonym u32 = "32 word"

text \<open>
  The round constants and the initial state: the first 32 bits of the fractional parts of the
  cube roots of the first 64 primes, and of the square roots of the first 8.
\<close>

definition sha256_K :: "u32 list" where
  "sha256_K =
    [1116352408, 1899447441, 3049323471, 3921009573, 961987163, 1508970993, 2453635748, 2870763221,
     3624381080, 310598401, 607225278, 1426881987, 1925078388, 2162078206, 2614888103, 3248222580,
     3835390401, 4022224774, 264347078, 604807628, 770255983, 1249150122, 1555081692, 1996064986,
     2554220882, 2821834349, 2952996808, 3210313671, 3336571891, 3584528711, 113926993, 338241895,
     666307205, 773529912, 1294757372, 1396182291, 1695183700, 1986661051, 2177026350, 2456956037,
     2730485921, 2820302411, 3259730800, 3345764771, 3516065817, 3600352804, 4094571909, 275423344,
     430227734, 506948616, 659060556, 883997877, 958139571, 1322822218, 1537002063, 1747873779,
     1955562222, 2024104815, 2227730452, 2361852424, 2428436474, 2756734187, 3204031479, 3329325298]"

definition sha256_H0 :: "u32 list" where
  "sha256_H0 =
    [1779033703, 3144134277, 1013904242, 2773480762, 1359893119, 2600822924, 528734635, 1541459225]"

definition bsig0 :: "u32 \<Rightarrow> u32" where
  "bsig0 x = word_rotr 2 x XOR word_rotr 13 x XOR word_rotr 22 x"
definition bsig1 :: "u32 \<Rightarrow> u32" where
  "bsig1 x = word_rotr 6 x XOR word_rotr 11 x XOR word_rotr 25 x"
definition ssig0 :: "u32 \<Rightarrow> u32" where
  "ssig0 x = word_rotr 7 x XOR word_rotr 18 x XOR drop_bit 3 x"
definition ssig1 :: "u32 \<Rightarrow> u32" where
  "ssig1 x = word_rotr 17 x XOR word_rotr 19 x XOR drop_bit 10 x"
definition ch32 :: "u32 \<Rightarrow> u32 \<Rightarrow> u32 \<Rightarrow> u32" where
  "ch32 x y z = (x AND y) XOR (NOT x AND z)"
definition maj32 :: "u32 \<Rightarrow> u32 \<Rightarrow> u32 \<Rightarrow> u32" where
  "maj32 x y z = (x AND y) XOR (x AND z) XOR (y AND z)"

text \<open>The message schedule: 16 words of a block extended to 64.\<close>

primrec sha256_extend :: "nat \<Rightarrow> u32 list \<Rightarrow> u32 list" where
  "sha256_extend 0 ws = ws"
| "sha256_extend (Suc k) ws =
     (let t = length ws
      in sha256_extend k
           (ws @ [ssig1 (ws ! (t - 2)) + ws ! (t - 7) + ssig0 (ws ! (t - 15)) + ws ! (t - 16)]))"

fun sha256_round :: "u32 list \<Rightarrow> u32 \<times> u32 \<Rightarrow> u32 list" where
  "sha256_round [a, b, c, d, e, f, g, h] (k, w) =
     (let t1 = h + bsig1 e + ch32 e f g + k + w; t2 = bsig0 a + maj32 a b c
      in [t1 + t2, a, b, c, d + t1, e, f, g])"
| "sha256_round st _ = st"

definition word_of_be :: "byte list \<Rightarrow> u32" where
  "word_of_be bs = foldl (\<lambda>acc b. acc * 256 + ucast b) 0 bs"

definition be_of_word :: "u32 \<Rightarrow> byte list" where
  "be_of_word w = [ucast (drop_bit 24 w), ucast (drop_bit 16 w), ucast (drop_bit 8 w), ucast w]"

function chunks :: "nat \<Rightarrow> 'a list \<Rightarrow> 'a list list" where
  "chunks n xs = (if xs = [] \<or> n = 0 then [] else take n xs # chunks n (drop n xs))"
  by pat_completeness auto
termination
  by (relation "measure (\<lambda>(n, xs). length xs)") auto

declare chunks.simps [simp del]

definition sha256_block :: "u32 list \<Rightarrow> byte list \<Rightarrow> u32 list" where
  "sha256_block H blk =
     map2 (+) H (foldl sha256_round H (zip sha256_K (sha256_extend 48 (map word_of_be (chunks 4 blk)))))"

definition sha256_pad :: "byte list \<Rightarrow> byte list" where
  "sha256_pad m =
     m @ 128 # replicate ((119 - length m mod 64) mod 64) 0
       @ map (\<lambda>i. word_of_nat (8 * length m div 256 ^ (7 - i))) [0..<8]"

definition sha256 :: "byte list \<Rightarrow> byte list" where
  "sha256 m = concat (map be_of_word (foldl sha256_block sha256_H0 (chunks 64 (sha256_pad m))))"

text \<open>
  \<^verbatim>\<open>hmac.New(sha256.New, key)\<close>: keys longer than a block are hashed first.
\<close>

definition hmac_sha256 :: "byte list \<Rightarrow> byte list \<Rightarrow> byte list" where
  "hmac_sha256 key m =
     (let k0 = (if length key > 64 then sha256 key else key);
          k = k0 @ replicate (64 - length k0) 0
      in sha256 (map (\<lambda>b. b XOR 0x5c) k @ sha256 (map (\<lambda>b. b XOR 0x36) k @ m)))"

lemma length_sha256_round [simp]: "length (sha256_round st kw) = length st"
  by (induction st kw rule: sha256_round.induct) (auto simp: Let_def)

lemma length_foldl_sha256_round [simp]: "length (foldl sha256_round st kws) = length st"
  by (induction kws arbitrary: st) auto

lemma length_sha256_block [simp]: "length (sha256_block H blk) = length H"
  by (simp add: sha256_block_def)

lemma length_foldl_sha256_block [simp]: "length (foldl sha256_block H blks) = length H"
  by (induction blks arbitrary: H) auto

lemma length_concat_be [simp]: "length (concat (map be_of_word ws)) = 4 * length ws"
  by (induction ws) (auto simp: be_of_word_def)

lemma length_sha256 [simp]: "length (sha256 m) = 32"
  by (simp add: sha256_def sha256_H0_def)

lemma length_hmac_sha256 [simp]: "length (hmac_sha256 k m) = 32"
  by (simp add: hmac_sha256_def Let_def)

section \<open>encoding/json values\<close>

text \<open>
  The text-level reader of \<^verbatim>\<open>encoding/json\<close> produces values of this shape; the
  program's own logic starts from them.
\<close>

datatype json =
    JNull | JBool bool | JNum string | JStr string | JArr "json list" | JObj "(string \<times> json) list"

end
