(* ===== verification/Errors.thy ===== *)
theory Errors
  imports Go_Std
begin

text \<open>
  The error values of the program: the sentinels of \<^verbatim>\<open>internal/auth/errors.go\<close>,
  the limiter's own \<^verbatim>\<open>ErrRateLimited\<close>, \<^verbatim>\<open>sql.ErrNoRows\<close>, and every other
  error by its message. \<open>mapAuthError\<close> is what the HTTP layer shows of them.
\<close>

datatype err =
    ErrUserLockedout | ErrInvalidCredentials | ErrInvalidToken | ErrMissingToken
  | ErrEmptyUsername | ErrInvalidEmail | ErrEmailNotVerified | ErrRefreshReuse
  | ErrEmailAlreadyExists | ErrInvalidVerificationToken | ErrShortPassword
  | ErrUnchangedPassword | ErrPasswordsNotMatch
  | ErrTenantHeaderMissing | ErrTenantNotFound | ErrTenantInactive | ErrRateLimited
  | LimiterRateLimited
  | ErrNoRows
  | ErrOther string

fun err_Error :: "err \<Rightarrow> string" where
  "err_Error ErrUserLockedout = ''user locked out, reset password''"
| "err_Error ErrInvalidCredentials = ''invalid credentials''"
| "err_Error ErrInvalidToken = ''invalid token''"
| "err_Error ErrMissingToken = ''missing token''"
| "err_Error ErrEmptyUsername = ''username is required''"
| "err_Error ErrInvalidEmail = ''email format is invalid''"
| "err_Error ErrEmailNotVerified = ''email not verified''"
| "err_Error ErrRefreshReuse = ''attempted to reuse token''"
| "err_Error ErrEmailAlreadyExists = ''email already exists''"
| "err_Error ErrInvalidVerificationToken = ''invalid or expired verification token''"
| "err_Error ErrShortPassword = ''password must be greater than 9 characters''"
| "err_Error ErrUnchangedPassword = ''new password must be different''"
| "err_Error ErrPasswordsNotMatch = ''passwords do not coincide''"
| "err_Error ErrTenantHeaderMissing = ''missing tenant header''"
| "err_Error ErrTenantNotFound = ''tenant not found''"
| "err_Error ErrTenantInactive = ''tenant is not active''"
| "err_Error ErrRateLimited = ''too many requests''"
| "err_Error LimiterRateLimited = ''too many requests''"
| "err_Error ErrNoRows = ''sql: no rows in result set''"
| "err_Error (ErrOther s) = s"

text \<open>HTTP status codes used by the program.\<close>

definition StatusOK :: nat where "StatusOK = 200"
definition StatusCreated :: nat where "StatusCreated = 201"
definition StatusNoContent :: nat where "StatusNoContent = 204"
definition StatusBadRequest :: nat where "StatusBadRequest = 400"
definition StatusUnauthorized :: nat where "StatusUnauthorized = 401"
definition StatusForbidden :: nat where "StatusForbidden = 403"
definition StatusTooManyRequests :: nat where "StatusTooManyRequests = 429"
definition StatusInternalServerError :: nat where "StatusInternalServerError = 500"
definition StatusServiceUnavailable :: nat where "StatusServiceUnavailable = 503"

lemmas status_defs =
  StatusOK_def StatusCreated_def StatusNoContent_def StatusBadRequest_def StatusUnauthorized_def
  StatusForbidden_def StatusTooManyRequests_def StatusInternalServerError_def
  StatusServiceUnavailable_def

fun mapAuthError :: "err \<Rightarrow> nat \<times> string" where
  "mapAuthError ErrEmailAlreadyExists = (StatusUnauthorized, ''invalid credentials'')"
| "mapAuthError ErrInvalidCredentials = (StatusUnauthorized, ''invalid credentials'')"
| "mapAuthError ErrInvalidToken = (StatusUnauthorized, ''invalid token'')"
| "mapAuthError ErrEmailNotVerified = (StatusForbidden, ''email not verified'')"
| "mapAuthError ErrRefreshReuse = (StatusUnauthorized, ''refresh token reuse detected'')"
| "mapAuthError ErrInvalidVerificationToken =
     (StatusBadRequest, ''invalid or expired verification token'')"
| "mapAuthError _ = (StatusInternalServerError, ''internal server error'')"

text \<open>\<^verbatim>\<open>isUniqueConstraintError\<close> and \<^verbatim>\<open>wrapUserCreateError\<close> look at the message.\<close>

definition isUniqueConstraintError :: "err \<Rightarrow> bool" where
  "isUniqueConstraintError e =
     (let msg = ToLower (err_Error e) in Contains msg ''unique'' \<or> Contains msg ''duplicate'')"

definition wrapUserCreateError :: "err \<Rightarrow> err" where
  "wrapUserCreateError e = (if isUniqueConstraintError e then ErrEmailAlreadyExists else e)"

lemma Contains_append_left: "Contains t p \<Longrightarrow> Contains (s @ t) p"
  by (induction s) auto

lemma HasPrefix_append_right: "HasPrefix s p \<Longrightarrow> HasPrefix (s @ t) p"
proof -
  assume h: "HasPrefix s p"
  then have "length (take (length p) s) = length p" by (simp add: HasPrefix_def)
  then have "length p \<le> length s" by simp
  with h show ?thesis by (simp add: HasPrefix_def)
qed

lemma Contains_append_right: "Contains s p \<Longrightarrow> Contains (s @ t) p"
proof (induction s)
  case Nil
  then have "p = []" by simp
  then show ?case by (cases t) (auto simp: HasPrefix_def)
next
  case (Cons c s)
  then show ?case using HasPrefix_append_right[of "c # s" p t] by auto
qed

end
