(* ===== verification/Json.thy ===== *)
theory Json
  imports Errors
begin

text \<open>
  \<^verbatim>\<open>encoding/json\<close> as the handlers use it: reading a text into a value (with the escapes,
  the replacement of malformed UTF-8 and the nesting limit of the package), and storing an object
  into a struct of string fields. \<^verbatim>\<open>Decoder.Decode\<close> reads the first value and ignores what
  follows it; \<^verbatim>\<open>Unmarshal\<close> wants the whole text to be one value. The recursion of the reader is on
  shorter texts; where that is not syntactically visible the length is compared before the call.
\<close>

section \<open>Lexical level\<close>

definition code :: "char \<Rightarrow> nat" where
  "code c = of_char c"

definition json_space :: "char \<Rightarrow> bool" where
  "json_space c \<longleftrightarrow> code c \<in> {9, 10, 13, 32}"

definition skip_ws :: "string \<Rightarrow> string" where
  "skip_ws s = dropWhile json_space s"

definition is_digit :: "char \<Rightarrow> bool" where
  "is_digit c \<longleftrightarrow> 48 \<le> code c \<and> code c \<le> 57"

definition hex_val :: "char \<Rightarrow> nat option" where
  "hex_val c =
     (let n = code c in
      if 48 \<le> n \<and> n \<le> 57 then Some (n - 48)
      else if 97 \<le> n \<and> n \<le> 102 then Some (n - 87)
      else if 65 \<le> n \<and> n \<le> 70 then Some (n - 55) else None)"

text \<open>The raw text of a string up to its closing quote, and what follows.\<close>

fun scan_string :: "string \<Rightarrow> (string \<times> string) option" where
  "scan_string [] = None"
| "scan_string (c # s) =
     (if code c = 34 then Some ([], s)
      else if code c < 32 then None
      else if code c = 92 then
        (case s of
           [] \<Rightarrow> None
         | e # t \<Rightarrow>
             if code e \<in> {34, 92, 47, 98, 102, 110, 114, 116}
             then map_option (\<lambda>(r, u). (c # e # r, u)) (scan_string t)
             else if code e = 117 \<and> length (take 4 t) = 4 \<and> list_all (\<lambda>h. hex_val h \<noteq> None) (take 4 t)
             then map_option (\<lambda>(r, u). (c # e # r, u)) (scan_string t)
             else None)
      else map_option (\<lambda>(r, u). (c # r, u)) (scan_string s))"

text \<open>\<^verbatim>\<open>utf8.EncodeRune\<close> and the length of the well-formed sequence at the head of a text (0 if none).\<close>

definition utf8_encode :: "nat \<Rightarrow> string" where
  "utf8_encode r =
     map char_of
       (if r < 128 then [r]
        else if r < 2048 then [192 + r div 64, 128 + r mod 64]
        else if r < 65536 then [224 + r div 4096, 128 + r div 64 mod 64, 128 + r mod 64]
        else [240 + r div 262144, 128 + r div 4096 mod 64, 128 + r div 64 mod 64, 128 + r mod 64])"

definition cont :: "nat \<Rightarrow> nat \<Rightarrow> char \<Rightarrow> bool" where
  "cont lo hi c \<longleftrightarrow> lo \<le> code c \<and> code c \<le> hi"

definition utf8_len :: "string \<Rightarrow> nat" where
  "utf8_len s =
     (case s of
        [] \<Rightarrow> 0
      | c # t \<Rightarrow>
          (let b = code c in
           if b < 128 then 1
           else if 194 \<le> b \<and> b \<le> 223 then
             (case t of d # _ \<Rightarrow> if cont 128 191 d then 2 else 0 | [] \<Rightarrow> 0)
           else if 224 \<le> b \<and> b \<le> 239 then
             (case t of d # e # _ \<Rightarrow>
                if cont (if b = 224 then 160 else 128) (if b = 237 then 159 else 191) d \<and> cont 128 191 e then 3 else 0
              | _ \<Rightarrow> 0)
           else if 240 \<le> b \<and> b \<le> 244 then
             (case t of d # e # f # _ \<Rightarrow>
                if cont (if b = 240 then 144 else 128) (if b = 244 then 143 else 191) d \<and> cont 128 191 e \<and> cont 128 191 f
                then 4 else 0
              | _ \<Rightarrow> 0)
           else 0))"

definition replacement :: string where "replacement = utf8_encode 65533"

definition getu4 :: "string \<Rightarrow> nat option" where
  "getu4 s =
     (case s of
        b # u # h1 # h2 # h3 # h4 # _ \<Rightarrow>
          (if code b = 92 \<and> code u = 117 then
             (case (hex_val h1, hex_val h2, hex_val h3, hex_val h4) of
                (Some a, Some b', Some c, Some d) \<Rightarrow> Some (4096 * a + 256 * b' + 16 * c + d)
              | _ \<Rightarrow> None)
           else None)
      | _ \<Rightarrow> None)"

definition unescape_char :: "char \<Rightarrow> char" where
  "unescape_char e =
     (if code e = 98 then CHR 0x08 else if code e = 102 then CHR 0x0C else if code e = 110 then CHR 0x0A
      else if code e = 114 then CHR 0x0D else if code e = 116 then CHR 0x09 else e)"

function unquote :: "string \<Rightarrow> string" where
  "unquote s =
     (case s of
        [] \<Rightarrow> []
      | c # t \<Rightarrow>
          if code c = 92 then
            (case getu4 s of
               Some r \<Rightarrow>
                 (if 55296 \<le> r \<and> r < 57344 then
                    (case getu4 (drop 6 s) of
                       Some r1 \<Rightarrow>
                         (if r < 56320 \<and> 56320 \<le> r1 \<and> r1 < 57344
                          then utf8_encode (65536 + 1024 * (r - 55296) + (r1 - 56320)) @ unquote (drop 12 s)
                          else replacement @ unquote (drop 6 s))
                     | None \<Rightarrow> replacement @ unquote (drop 6 s))
                  else utf8_encode r @ unquote (drop 6 s))
             | None \<Rightarrow> (case t of [] \<Rightarrow> [] | e # u \<Rightarrow> unescape_char e # unquote u))
          else if utf8_len s = 0 then replacement @ unquote t
          else take (utf8_len s) s @ unquote (drop (utf8_len s) s))"
  by pat_completeness auto
termination
  by (relation "measure length") (auto simp: utf8_len_def split: list.splits if_splits)

declare unquote.simps [simp del]

text \<open>The longest number at the head of a text.\<close>

definition scan_digits :: "string \<Rightarrow> (string \<times> string) option" where
  "scan_digits s = (let ds = takeWhile is_digit s in if ds = [] then None else Some (ds, dropWhile is_digit s))"

definition scan_int :: "string \<Rightarrow> (string \<times> string) option" where
  "scan_int s =
     (case s of
        [] \<Rightarrow> None
      | c # t \<Rightarrow> if code c = 48 then Some ([c], t) else scan_digits s)"

definition scan_frac :: "string \<Rightarrow> (string \<times> string) option" where
  "scan_frac s =
     (case s of
        c # t \<Rightarrow> if code c = 46 then map_option (\<lambda>(ds, u). (c # ds, u)) (scan_digits t) else Some ([], s)
      | [] \<Rightarrow> Some ([], s))"

definition scan_exp :: "string \<Rightarrow> (string \<times> string) option" where
  "scan_exp s =
     (case s of
        c # t \<Rightarrow>
          if code c \<in> {69, 101} then
            (case t of
               g # u \<Rightarrow> if code g \<in> {43, 45} then map_option (\<lambda>(ds, v). (c # g # ds, v)) (scan_digits u)
                        else map_option (\<lambda>(ds, v). (c # ds, v)) (scan_digits t)
             | [] \<Rightarrow> None)
          else Some ([], s)
      | [] \<Rightarrow> Some ([], s))"

definition scan_number :: "string \<Rightarrow> (string \<times> string) option" where
  "scan_number s =
     (let (sign, s0) = (case s of c # t \<Rightarrow> if code c = 45 then ([c], t) else ([], s) | [] \<Rightarrow> ([], s)) in
      case scan_int s0 of
        None \<Rightarrow> None
      | Some (i, s1) \<Rightarrow>
          (case scan_frac s1 of
             None \<Rightarrow> None
           | Some (f, s2) \<Rightarrow>
               (case scan_exp s2 of None \<Rightarrow> None | Some (e, s3) \<Rightarrow> Some (sign @ i @ f @ e, s3))))"

section \<open>Values\<close>

definition maxNestingDepth :: nat where "maxNestingDepth = 10000"

definition scan_key :: "string \<Rightarrow> (string \<times> string) option" where
  "scan_key s =
     (case skip_ws s of
        [] \<Rightarrow> None
      | c # t \<Rightarrow>
          if code c \<noteq> 34 then None
          else (case scan_string t of
                  None \<Rightarrow> None
                | Some (k, u) \<Rightarrow>
                    (case skip_ws u of
                       [] \<Rightarrow> None
                     | e # v \<Rightarrow> if code e = 58 then Some (unquote k, v) else None)))"

lemma skip_ws_length: "skip_ws s = c # t \<Longrightarrow> length t < length s"
  using length_dropWhile_le[of json_space s] by (simp add: skip_ws_def)

function (sequential) json_value :: "nat \<Rightarrow> string \<Rightarrow> (json \<times> string) option"
  and json_members :: "nat \<Rightarrow> string \<Rightarrow> ((string \<times> json) list \<times> string) option"
  and json_elems :: "nat \<Rightarrow> string \<Rightarrow> (json list \<times> string) option"
where
  "json_value d s =
     (case skip_ws s of
        [] \<Rightarrow> None
      | c # t \<Rightarrow>
          if code c = 123 then
            (if Suc d > maxNestingDepth then None
             else (case skip_ws t of
                     [] \<Rightarrow> None
                   | e # u \<Rightarrow> if code e = 125 then Some (JObj [], u)
                              else if length t < length s
                              then map_option (\<lambda>(kvs, v). (JObj kvs, v)) (json_members (Suc d) t) else None))
          else if code c = 91 then
            (if Suc d > maxNestingDepth then None
             else (case skip_ws t of
                     [] \<Rightarrow> None
                   | e # u \<Rightarrow> if code e = 93 then Some (JArr [], u)
                              else if length t < length s
                              then map_option (\<lambda>(js, v). (JArr js, v)) (json_elems (Suc d) t) else None))
          else if code c = 34 then map_option (\<lambda>(r, u). (JStr (unquote r), u)) (scan_string t)
          else if HasPrefix (c # t) ''true'' then Some (JBool True, drop 3 t)
          else if HasPrefix (c # t) ''false'' then Some (JBool False, drop 4 t)
          else if HasPrefix (c # t) ''null'' then Some (JNull, drop 3 t)
          else map_option (\<lambda>(n, u). (JNum n, u)) (scan_number (c # t)))"
| "json_members d s =
     (case scan_key s of
        None \<Rightarrow> None
      | Some (k, u) \<Rightarrow>
          if length u < length s then
            (case json_value d u of
               None \<Rightarrow> None
             | Some (v, w) \<Rightarrow>
                 (case skip_ws w of
                    [] \<Rightarrow> None
                  | c # x \<Rightarrow>
                      if code c = 125 then Some ([(k, v)], x)
                      else if code c = 44 \<and> length x < length s
                      then map_option (\<lambda>(kvs, y). ((k, v) # kvs, y)) (json_members d x)
                      else None))
          else None)"
| "json_elems d s =
     (case skip_ws s of
        [] \<Rightarrow> None
      | a # b \<Rightarrow>
          (case json_value d (a # b) of
             None \<Rightarrow> None
           | Some (v, w) \<Rightarrow>
               (case skip_ws w of
                  [] \<Rightarrow> None
                | c # x \<Rightarrow>
                    if code c = 93 then Some ([v], x)
                    else if code c = 44 \<and> length x < length s
                    then map_option (\<lambda>(vs, y). (v # vs, y)) (json_elems d x)
                    else None)))"
  by pat_completeness auto

termination
proof (relation "measure (case_sum (\<lambda>(d, s). 2 * length s)
    (case_sum (\<lambda>(d, s). 2 * length s) (\<lambda>(d, s). 2 * length s + 1)))", goal_cases)
  case (6 d s a b)
  then show ?case using skip_ws_length[of s a b] by simp
qed auto

declare json_value.simps [simp del] json_members.simps [simp del] json_elems.simps [simp del]

section \<open>Decoding into a struct of string fields\<close>

text \<open>
  Field names are matched exactly or under case folding: besides the ASCII letters the long s
  (U+017F) folds to s and the Kelvin sign (U+212A) to k. Both are given here by their UTF-8 bytes.
\<close>

function foldName :: "string \<Rightarrow> string" where
  "foldName s =
     (case s of
        [] \<Rightarrow> []
      | c # t \<Rightarrow>
          if map code (take 2 s) = [197, 191] then CHR ''s'' # foldName (drop 2 s)
          else if map code (take 3 s) = [226, 132, 170] then CHR ''k'' # foldName (drop 3 s)
          else lower_char c # foldName t)"
  by pat_completeness auto
termination by (relation "measure length") (auto split: list.splits)

declare foldName.simps [simp del]

type_synonym fields = "string \<Rightarrow> string"

definition zero_fields :: fields where "zero_fields = (\<lambda>_. [])"

definition find_field :: "string list \<Rightarrow> string \<Rightarrow> string option" where
  "find_field names k =
     (if k \<in> set names then Some k else find (\<lambda>n. foldName n = foldName k) names)"

text \<open>
  The members are stored in order; a value of the wrong type or (in strict mode,
  \<^verbatim>\<open>DisallowUnknownFields\<close>) an unknown name is an error, but the remaining members are still
  stored; \<^verbatim>\<open>null\<close> leaves the field alone.
\<close>

fun store_members :: "bool \<Rightarrow> string list \<Rightarrow> (string \<times> json) list \<Rightarrow> fields \<Rightarrow> fields \<times> bool" where
  "store_members strict names [] f = (f, True)"
| "store_members strict names ((k, v) # kvs) f =
     (let (f', ok) =
        (case find_field names k of
           None \<Rightarrow> (f, \<not> strict)
         | Some n \<Rightarrow> (case v of JStr s \<Rightarrow> (f(n := s), True) | JNull \<Rightarrow> (f, True) | _ \<Rightarrow> (f, False)));
        (f'', ok') = store_members strict names kvs f'
      in (f'', ok \<and> ok'))"

definition store_value :: "bool \<Rightarrow> string list \<Rightarrow> json \<Rightarrow> fields \<times> bool" where
  "store_value strict names v =
     (case v of
        JObj kvs \<Rightarrow> store_members strict names kvs zero_fields
      | JNull \<Rightarrow> (zero_fields, True)
      | _ \<Rightarrow> (zero_fields, False))"

text \<open>
  \<^verbatim>\<open>json.NewDecoder(r).Decode(&req)\<close>: the first value of the text; the flag says that the
  reader ends with an error instead of the end of the text, which matters for a bare \<^verbatim>\<open>null\<close> at
  the very end only (the end of an object shows itself).
\<close>

definition Decode :: "bool \<Rightarrow> string list \<Rightarrow> string \<times> bool \<Rightarrow> fields option" where
  "Decode strict names body =
     (case json_value 0 (fst body) of
        None \<Rightarrow> None
      | Some (v, rest) \<Rightarrow>
          if v = JNull \<and> rest = [] \<and> snd body then None
          else (case store_value strict names v of (f, ok) \<Rightarrow> if ok then Some f else None))"

text \<open>\<^verbatim>\<open>_ = json.Unmarshal(body, &req)\<close>: what the struct holds afterwards.\<close>

definition Unmarshal :: "string list \<Rightarrow> string \<Rightarrow> fields" where
  "Unmarshal names text =
     (case json_value 0 text of
        None \<Rightarrow> zero_fields
      | Some (v, rest) \<Rightarrow> if skip_ws rest = [] then fst (store_value False names v) else zero_fields)"

section \<open>Reading objects of plain strings\<close>

text \<open>
  An object whose names and values are printable ASCII without quotes and backslashes, written without
  blanks, is read back member by member, whatever follows it.
\<close>

definition plain_char :: "char \<Rightarrow> bool" where
  "plain_char c \<longleftrightarrow> 32 \<le> code c \<and> code c < 128 \<and> code c \<noteq> 34 \<and> code c \<noteq> 92"

definition plain :: "string \<Rightarrow> bool" where
  "plain s \<longleftrightarrow> list_all plain_char s"

definition quoted :: "string \<Rightarrow> string" where
  "quoted s = CHR 0x22 # s @ [CHR 0x22]"

fun print_members :: "(string \<times> string) list \<Rightarrow> string" where
  "print_members [] = []"
| "print_members [(k, v)] = quoted k @ CHR '':'' # quoted v"
| "print_members ((k, v) # m # ms) = quoted k @ CHR '':'' # quoted v @ CHR '','' # print_members (m # ms)"

definition print_object :: "(string \<times> string) list \<Rightarrow> string" where
  "print_object kvs = CHR ''{'' # print_members kvs @ ''}''"

lemma length_quoted [simp]: "length (quoted s) = length s + 2"
  by (simp add: quoted_def)

lemma code_punctuation [simp]:
  "code (CHR 0x22) = 34" "code (CHR '':'') = 58" "code (CHR '','') = 44" "code (CHR ''{'') = 123" "code (CHR ''}'') = 125"
  by (simp_all add: code_def)

lemma skip_ws_solid [simp]: "\<not> json_space c \<Longrightarrow> skip_ws (c # s) = c # s"
  by (simp add: skip_ws_def)

lemma solid_punctuation [simp]:
  "\<not> json_space (CHR 0x22)" "\<not> json_space (CHR '':'')" "\<not> json_space (CHR '','')" "\<not> json_space (CHR ''{'')"
  "\<not> json_space (CHR ''}'')"
  by (simp_all add: json_space_def)

lemma scan_string_plain: "plain s \<Longrightarrow> scan_string (s @ CHR 0x22 # rest) = Some (s, rest)"
  by (induction s) (auto simp: plain_def plain_char_def)

lemma unquote_plain: "plain s \<Longrightarrow> unquote s = s"
proof (induction s)
  case Nil
  show ?case by (simp add: unquote.simps)
next
  case (Cons c s)
  then have "code c \<noteq> 92" "utf8_len (c # s) = 1" "plain s" by (auto simp: plain_def plain_char_def utf8_len_def)
  with Cons show ?case by (subst unquote.simps) simp
qed

lemma scan_key_plain: "plain k \<Longrightarrow> scan_key (quoted k @ CHR '':'' # rest) = Some (k, rest)"
  by (simp add: scan_key_def quoted_def scan_string_plain unquote_plain)

lemma json_value_plain: "plain v \<Longrightarrow> json_value d (quoted v @ rest) = Some (JStr v, rest)"
  by (simp add: json_value.simps quoted_def scan_string_plain unquote_plain)

lemma json_members_plain:
  assumes "kvs \<noteq> []" "\<forall>(k, v) \<in> set kvs. plain k \<and> plain v"
  shows "json_members d (print_members kvs @ CHR ''}'' # rest) = Some (map (\<lambda>(k, v). (k, JStr v)) kvs, rest)"
  using assms
proof (induction kvs rule: print_members.induct)
  case (2 k v)
  then have k: "scan_key (quoted k @ CHR '':'' # quoted v @ CHR ''}'' # rest) = Some (k, quoted v @ CHR ''}'' # rest)"
    by (simp add: scan_key_plain)
  show ?case
    using 2 by (simp add: json_members.simps[of d "quoted k @ CHR '':'' # quoted v @ CHR ''}'' # rest"] k json_value_plain)
next
  case (3 k v m ms)
  let ?t = "print_members (m # ms) @ CHR ''}'' # rest"
  from 3 have ih: "json_members d ?t = Some (map (\<lambda>(k, v). (k, JStr v)) (m # ms), rest)" by simp
  from 3 have k: "scan_key (quoted k @ CHR '':'' # quoted v @ CHR '','' # ?t) = Some (k, quoted v @ CHR '','' # ?t)"
    by (simp add: scan_key_plain)
  have "json_members d (quoted k @ CHR '':'' # quoted v @ CHR '','' # ?t) =
      Some ((k, JStr v) # map (\<lambda>(k, v). (k, JStr v)) (m # ms), rest)"
    using 3(3) by (subst json_members.simps) (simp add: k json_value_plain ih)
  then show ?case by simp
qed simp

lemma print_members_head: "kvs \<noteq> [] \<Longrightarrow> \<exists>t. print_members kvs = CHR 0x22 # t"
  by (cases kvs rule: print_members.cases) (auto simp: quoted_def)

lemma json_value_object:
  assumes "kvs \<noteq> []" "\<forall>(k, v) \<in> set kvs. plain k \<and> plain v" "d < maxNestingDepth"
  shows "json_value d (print_object kvs @ rest) = Some (JObj (map (\<lambda>(k, v). (k, JStr v)) kvs), rest)"
proof -
  obtain t where t: "print_members kvs = CHR 0x22 # t" using print_members_head[OF assms(1)] by blast
  from json_members_plain[OF assms(1,2), of "Suc d" rest] t
  have "json_members (Suc d) (CHR 0x22 # t @ CHR ''}'' # rest) = Some (map (\<lambda>(k, v). (k, JStr v)) kvs, rest)" by simp
  with assms(3) t show ?thesis by (simp add: json_value.simps print_object_def)
qed

text \<open>Storing such an object: with the field names among the expected ones each named field gets its last value.\<close>

lemma store_members_known:
  "fst ` set kvs \<subseteq> set names \<Longrightarrow>
     store_members strict names (map (\<lambda>(k, v). (k, JStr v)) kvs) f = (foldl (\<lambda>f (k, v). f(k := v)) f kvs, True)"
  by (induction kvs arbitrary: f) (auto simp: find_field_def)

lemma Decode_object:
  assumes "kvs \<noteq> []" "\<forall>(k, v) \<in> set kvs. plain k \<and> plain v \<and> k \<in> set names"
  shows "Decode strict names (print_object kvs @ rest, b) = Some (foldl (\<lambda>f (k, v). f(k := v)) zero_fields kvs)"
proof -
  have "json_value 0 (print_object kvs @ rest) = Some (JObj (map (\<lambda>(k, v). (k, JStr v)) kvs), rest)"
    using assms by (intro json_value_object) (auto simp: maxNestingDepth_def)
  moreover have "store_members strict names (map (\<lambda>(k, v). (k, JStr v)) kvs) zero_fields =
      (foldl (\<lambda>f (k, v). f(k := v)) zero_fields kvs, True)"
    using assms(2) by (intro store_members_known) auto
  ultimately show ?thesis by (simp add: Decode_def store_value_def)
qed

end
