(* ===== verification/Net.thy ===== *)
theory Net
  imports Errors
begin

text \<open>
  The functions of package \<^verbatim>\<open>net\<close> behind \<^verbatim>\<open>ClientIP\<close>: \<^verbatim>\<open>net.ParseIP\<close> with
  \<^verbatim>\<open>IP.String\<close> (dotted IPv4, IPv6 with its ellipsis and embedded IPv4 tail, printed in the
  canonical compressed form) and \<^verbatim>\<open>net.SplitHostPort\<close>.
\<close>

section \<open>Reading an address\<close>

definition dec_byte :: "string \<Rightarrow> nat option" where
  "dec_byte s =
     (if s = [] \<or> length s > 3 \<or> (length s > 1 \<and> hd s = CHR ''0'') then None
      else (case digits_val 0 s of
              None \<Rightarrow> None
            | Some n \<Rightarrow> if n \<le> 255 then Some (nat n) else None))"

definition parseIPv4 :: "string \<Rightarrow> nat list option" where
  "parseIPv4 s =
     (case map dec_byte (SplitChar (CHR ''.'') s) of
        [Some a, Some b, Some c, Some d] \<Rightarrow> Some [a, b, c, d]
      | _ \<Rightarrow> None)"

definition hex_nibble :: "char \<Rightarrow> nat option" where
  "hex_nibble c =
     (let n = (of_char c :: nat) in
      if 48 \<le> n \<and> n \<le> 57 then Some (n - 48)
      else if 97 \<le> n \<and> n \<le> 102 then Some (n - 87)
      else if 65 \<le> n \<and> n \<le> 70 then Some (n - 55) else None)"

definition hex_group :: "string \<Rightarrow> string" where
  "hex_group s = takeWhile (\<lambda>c. hex_nibble c \<noteq> None) s"

definition hex_value :: "string \<Rightarrow> nat" where
  "hex_value s = foldl (\<lambda>acc c. 16 * acc + the (hex_nibble c)) 0 s"

text \<open>
  The loop of \<^verbatim>\<open>netip.parseIPv6\<close>: the bytes read so far, the position of the ellipsis and
  the rest of the text; it runs at most once per group, and there are at most eight groups.
\<close>

fun v6_groups :: "nat \<Rightarrow> nat list \<Rightarrow> nat option \<Rightarrow> string \<Rightarrow> (nat list \<times> nat option) option" where
  "v6_groups 0 acc ell s = (if s = [] then Some (acc, ell) else None)"
| "v6_groups (Suc n) acc ell s =
     (let g = hex_group s; rest = drop (length g) s; i = length acc in
      if g = [] \<or> length g > 4 then None
      else if rest \<noteq> [] \<and> hd rest = CHR ''.'' then
        (if (ell = None \<and> i \<noteq> 12) \<or> i + 4 > 16 then None
         else map_option (\<lambda>b. (acc @ b, ell)) (parseIPv4 s))
      else
        let acc' = acc @ [hex_value g div 256, hex_value g mod 256] in
        (case rest of
           [] \<Rightarrow> Some (acc', ell)
         | c # t \<Rightarrow>
             if c \<noteq> CHR '':'' \<or> t = [] then None
             else if hd t = CHR '':'' then
               (if ell \<noteq> None then None
                else if tl t = [] then Some (acc', Some (length acc'))
                else v6_groups n acc' (Some (length acc')) (tl t))
             else v6_groups n acc' ell t))"

definition v6_expand :: "nat list \<times> nat option \<Rightarrow> nat list option" where
  "v6_expand p =
     (case p of
        (bs, None) \<Rightarrow> if length bs = 16 then Some bs else None
      | (bs, Some e) \<Rightarrow>
          if length bs < 16 then Some (take e bs @ replicate (16 - length bs) 0 @ drop e bs) else None)"

definition parseIPv6 :: "string \<Rightarrow> nat list option" where
  "parseIPv6 s =
     (if HasPrefix s ''::'' then
        (if drop 2 s = [] then Some (replicate 16 0)
         else Option.bind (v6_groups 8 [] (Some 0) (drop 2 s)) v6_expand)
      else Option.bind (v6_groups 8 [] None s) v6_expand)"

definition v4_in_v6 :: "nat list" where
  "v4_in_v6 = replicate 10 0 @ [255, 255]"

text \<open>
  \<^verbatim>\<open>net.ParseIP\<close>: the 16-byte form; an address with a zone is refused. The first of the
  characters \<^verbatim>\<open>. : %\<close> decides which form is read.
\<close>

definition ParseIP :: "string \<Rightarrow> nat list option" where
  "ParseIP s =
     (if CHR ''%'' \<in> set s then None
      else case dropWhile (\<lambda>c. c \<noteq> CHR ''.'' \<and> c \<noteq> CHR '':'') s of
             [] \<Rightarrow> None
           | c # _ \<Rightarrow> if c = CHR ''.'' then map_option (\<lambda>b. v4_in_v6 @ b) (parseIPv4 s) else parseIPv6 s)"

section \<open>Printing an address\<close>

definition dec_digits :: "nat \<Rightarrow> string" where
  "dec_digits n =
     (if n < 10 then [hex_digit n]
      else if n < 100 then [hex_digit (n div 10), hex_digit (n mod 10)]
      else [hex_digit (n div 100), hex_digit (n div 10 mod 10), hex_digit (n mod 10)])"

definition hex_text :: "nat \<Rightarrow> string" where
  "hex_text n =
     map hex_digit
       (if n < 16 then [n]
        else if n < 256 then [n div 16, n mod 16]
        else if n < 4096 then [n div 256, n div 16 mod 16, n mod 16]
        else [n div 4096, n div 256 mod 16, n div 16 mod 16, n mod 16])"

fun join :: "string \<Rightarrow> string list \<Rightarrow> string" where
  "join sep [] = []"
| "join sep [s] = s"
| "join sep (s # t # ss) = s @ sep @ join sep (t # ss)"

fun groups_of :: "nat list \<Rightarrow> nat list" where
  "groups_of (a # b # bs) = (256 * a + b) # groups_of bs"
| "groups_of _ = []"

definition zero_run :: "nat list \<Rightarrow> nat \<Rightarrow> nat" where
  "zero_run gs i = length (takeWhile (\<lambda>g. g = 0) (drop i gs))"

text \<open>The first longest run of at least two zero groups is written as \<^verbatim>\<open>::\<close>.\<close>

definition longest_zeros :: "nat list \<Rightarrow> (nat \<times> nat) option" where
  "longest_zeros gs =
     (let best = foldl (\<lambda>(bi, bl) i. if zero_run gs i > bl then (i, zero_run gs i) else (bi, bl))
                   (0, 1) [0..<length gs]
      in if snd best \<ge> 2 then Some best else None)"

definition v6_String :: "nat list \<Rightarrow> string" where
  "v6_String bs =
     (let gs = groups_of bs; txt = (\<lambda>xs. join '':'' (map hex_text xs)) in
      case longest_zeros gs of
        None \<Rightarrow> txt gs
      | Some (i, n) \<Rightarrow> txt (take i gs) @ ''::'' @ txt (drop (i + n) gs))"

definition IP_String :: "nat list \<Rightarrow> string" where
  "IP_String bs =
     (if take 12 bs = v4_in_v6 then join ''.'' (map dec_digits (drop 12 bs)) else v6_String bs)"

section \<open>net.SplitHostPort\<close>

definition last_index :: "char \<Rightarrow> string \<Rightarrow> nat option" where
  "last_index c s =
     (if c \<in> set s then Some (length s - Suc (length (takeWhile (\<lambda>d. d \<noteq> c) (rev s)))) else None)"

text \<open>The host; an error is \<^const>\<open>None\<close> (its text is not used).\<close>

definition SplitHostPort :: "string \<Rightarrow> (string \<times> string) option" where
  "SplitHostPort hostport =
     (case last_index (CHR '':'') hostport of
        None \<Rightarrow> None
      | Some i \<Rightarrow>
          if hd hostport = CHR ''['' then
            (if CHR '']'' \<notin> set hostport then None
             else let e = length (takeWhile (\<lambda>d. d \<noteq> CHR '']'') hostport) in
               if e + 1 \<noteq> i \<or> CHR ''['' \<in> set (drop 1 hostport) \<or> CHR '']'' \<in> set (drop (e + 1) hostport)
               then None
               else Some (take (e - 1) (drop 1 hostport), drop (i + 1) hostport))
          else if CHR '':'' \<in> set (take i hostport) \<or> CHR ''['' \<in> set hostport \<or> CHR '']'' \<in> set hostport
          then None
          else Some (take i hostport, drop (i + 1) hostport))"

section \<open>Reading back what is printed\<close>

text \<open>A dotted address is read back to the same four bytes.\<close>

lemma SplitChar_single: "sep \<notin> set p \<Longrightarrow> SplitChar sep p = [p]"
  by (induction p) auto

lemma SplitChar_append: "sep \<notin> set p \<Longrightarrow> SplitChar sep (p @ sep # s) = p # SplitChar sep s"
  by (induction p) (auto split: list.splits)

lemma digit_val_hex: "d < 10 \<Longrightarrow> digit_val (hex_digit d) = Some (int d)"
proof -
  assume d: "d < 10"
  have "(of_char (hex_digit d) :: int) = int (of_char (hex_digit d) :: nat)" by (rule of_nat_of_char[symmetric])
  also have "\<dots> = 48 + int d" using d by (simp add: hex_digit_def)
  finally show ?thesis using d by (simp add: digit_val_def Let_def)
qed

lemma hex_digit_0: "d < 10 \<Longrightarrow> d \<noteq> 0 \<Longrightarrow> hex_digit d \<noteq> CHR ''0''"
  using digit_val_hex[of d] by (auto simp: digit_val_def Let_def)

lemma dec_digits_byte: "n < 256 \<Longrightarrow> dec_byte (dec_digits n) = Some n"
proof -
  assume n: "n < 256"
  have e2: "10 * (n div 10) + n mod 10 = n" by (rule mult_div_mod_eq)
  have "10 * (n div 10 div 10) + n div 10 mod 10 = n div 10" by (rule mult_div_mod_eq)
  then have e1: "10 * (10 * (n div 100) + n div 10 mod 10) + n mod 10 = n"
    using e2 by (simp add: div_mult2_eq[symmetric])
  have s: "n div 100 < 10" "n div 10 mod 10 < 10" "n mod 10 < 10" using n by simp_all
  consider "n < 10" | "10 \<le> n" "n < 100" | "100 \<le> n" by linarith
  then show ?thesis
  proof cases
    case 1
    then show ?thesis by (simp add: dec_digits_def dec_byte_def digit_val_hex)
  next
    case 2
    then have "hex_digit (n div 10) \<noteq> CHR ''0''" by (simp add: hex_digit_0)
    moreover have "10 * int (n div 10) + int (n mod 10) = int n" using e2 by linarith
    ultimately show ?thesis using 2 s n
      by (simp add: dec_digits_def dec_byte_def digit_val_hex del: of_nat_div of_nat_mod)
  next
    case 3
    with s have "hex_digit (n div 100) \<noteq> CHR ''0''" by (simp add: hex_digit_0)
    moreover have "10 * (10 * int (n div 100) + int (n div 10 mod 10)) + int (n mod 10) = int n"
      using arg_cong[OF e1, of int] by (simp only: of_nat_add of_nat_mult of_nat_numeral)
    ultimately show ?thesis using 3 s n
      by (simp add: dec_digits_def dec_byte_def digit_val_hex del: of_nat_div of_nat_mod)
  qed
qed

lemma hex_digit_not_sep: "d < 10 \<Longrightarrow> hex_digit d \<noteq> CHR ''.'' \<and> hex_digit d \<noteq> CHR '':'' \<and> hex_digit d \<noteq> CHR ''%''"
  using digit_val_hex[of d] by (auto simp: digit_val_def Let_def)

lemma dec_digits_no_sep:
  assumes n: "n < 256" and c: "c \<in> set (dec_digits n)"
  shows "c \<noteq> CHR ''.'' \<and> c \<noteq> CHR '':'' \<and> c \<noteq> CHR ''%''"
proof -
  have "n < 100 \<Longrightarrow> n div 10 < 10" "n div 100 < 10" using n by auto
  moreover have "n mod 10 < 10" "n div 10 mod 10 < 10" by simp_all
  ultimately show ?thesis using c hex_digit_not_sep by (auto simp: dec_digits_def split: if_splits)
qed

lemma dec_digits_no_dot: "n < 256 \<Longrightarrow> CHR ''.'' \<notin> set (dec_digits n)"
  using dec_digits_no_sep by blast

lemma dec_digits_no_pct: "n < 256 \<Longrightarrow> CHR ''%'' \<notin> set (dec_digits n)"
  using dec_digits_no_sep by blast

lemma parseIPv4_roundtrip:
  assumes "a < 256" "b < 256" "c < 256" "d < 256"
  shows "parseIPv4 (join ''.'' (map dec_digits [a, b, c, d])) = Some [a, b, c, d]"
  using assms by (simp add: parseIPv4_def SplitChar_append SplitChar_single dec_digits_no_dot dec_digits_byte)

lemma ParseIP_dotted:
  assumes "a < 256" "b < 256" "c < 256" "d < 256"
  shows "ParseIP (join ''.'' (map dec_digits [a, b, c, d])) = Some (v4_in_v6 @ [a, b, c, d])"
proof -
  let ?s = "join ''.'' (map dec_digits [a, b, c, d])"
  have "CHR ''%'' \<notin> set ?s" using assms by (simp add: dec_digits_no_pct)
  moreover have "dropWhile (\<lambda>c. c \<noteq> CHR ''.'' \<and> c \<noteq> CHR '':'') (dec_digits a @ CHR ''.'' # t) = CHR ''.'' # t" for t
    using dec_digits_no_sep[OF assms(1)] by (subst dropWhile_append2) auto
  ultimately show ?thesis using parseIPv4_roundtrip[OF assms] by (simp add: ParseIP_def)
qed

end
