(* ===== verification/Models.thy ===== *)
theory Models
  imports Errors
begin

text \<open>
  The data types of \<^verbatim>\<open>internal/models\<close>, the request/response structs that the
  service layer builds, and the functions of third-party packages the program calls.
  A Go pointer that may be \<^verbatim>\<open>nil\<close> is an \<^typ>\<open>'a option\<close>.
\<close>

section \<open>Identifiers\<close>

type_synonym uuid = "128 word"

definition uuid_Nil :: uuid where "uuid_Nil = 0"

text \<open>\<^verbatim>\<open>id[:]\<close>: the sixteen bytes of an identifier, most significant first.\<close>

definition uuid_bytes :: "uuid \<Rightarrow> byte list" where
  "uuid_bytes u = map (\<lambda>i. ucast (drop_bit (8 * (15 - i)) u)) [0..<16]"

section \<open>internal/models\<close>

record User =
  u_ID :: uuid
  u_Email :: string
  u_Username :: "string option"
  u_PasswordHash :: "string option"
  u_EmailVerified :: bool
  u_IsActive :: bool
  u_LockedAt :: "time option"
  u_Tenant_ID :: uuid
  u_CreatedAt :: time
  u_UpdatedAt :: time

record RefreshToken =
  rt_ID :: uuid
  rt_UserID :: uuid
  rt_TenantID :: uuid
  rt_TokenHash :: string
  rt_ClientID :: string
  rt_ParentToken :: uuid
  rt_FamilyID :: uuid
  rt_ExpiresAt :: time
  rt_RevokedAt :: "time option"
  rt_CreatedAt :: time

record EmailVerificationToken =
  ev_ID :: uuid
  ev_UserID :: uuid
  ev_TokenHash :: string
  ev_ExpiresAt :: time
  ev_UsedAt :: "time option"
  ev_CreatedAt :: time

record PasswordResetToken =
  pr_ID :: uuid
  pr_UserID :: uuid
  pr_TenantID :: uuid
  pr_TokenHash :: string
  pr_ExpiresAt :: time
  pr_UsedAt :: "time option"
  pr_CreatedAt :: time

type_synonym TenantStatus = string

definition TenantStatusActive :: TenantStatus where "TenantStatusActive = ''active''"
definition TenantStatusSuspended :: TenantStatus where "TenantStatusSuspended = ''suspended''"
definition TenantStatusPending :: TenantStatus where "TenantStatusPending = ''pending''"

record Tenant =
  t_ID :: uuid
  t_TenantName :: string
  t_Name :: string
  t_URL :: string
  t_Email :: string
  t_Status :: TenantStatus
  t_PublicKey :: string
  t_APIKeyHash :: string
  t_AllowedOrigins :: "string list"
  t_CreatedAt :: time
  t_UpdatedAt :: time

definition Tenant_IsActive :: "Tenant \<Rightarrow> bool" where
  "Tenant_IsActive t \<longleftrightarrow> t_Status t = TenantStatusActive"

type_synonym EventStatus = string

definition StatusPending :: EventStatus where "StatusPending = ''pending''"
definition StatusProcessing :: EventStatus where "StatusProcessing = ''processing''"
definition StatusPublishing :: EventStatus where "StatusPublishing = ''publishing''"
definition StatusPublished :: EventStatus where "StatusPublished = ''published''"
definition StatusFailed :: EventStatus where "StatusFailed = ''failed''"

lemmas event_status_defs =
  StatusPending_def StatusProcessing_def StatusPublishing_def StatusPublished_def StatusFailed_def

type_synonym EventType = string

definition UserCreated :: EventType where "UserCreated = ''user.created''"
definition UserUpdated :: EventType where "UserUpdated = ''user.updated''"
definition UserDeleted :: EventType where "UserDeleted = ''user.deleted''"
definition UserLoginSucceeded :: EventType where "UserLoginSucceeded = ''user.login.succeeded''"
definition UserLoginFailed :: EventType where "UserLoginFailed = ''user.login.failed''"
definition UserPasswordResetRequired :: EventType where
  "UserPasswordResetRequired = ''user.password_reset.required''"
definition UserPasswordResetSucceeded :: EventType where
  "UserPasswordResetSucceeded = ''user.password_reset.succeeded''"
definition EmailVerificationRequested :: EventType where
  "EmailVerificationRequested = ''email.verification.requested''"
definition EmailPasswordResetRequested :: EventType where
  "EmailPasswordResetRequested = ''email.password_reset.requested''"
definition EmailNewDeviceLogin :: EventType where
  "EmailNewDeviceLogin = ''email.new_device_login''"

lemmas event_type_defs =
  UserCreated_def UserUpdated_def UserDeleted_def UserLoginSucceeded_def UserLoginFailed_def
  UserPasswordResetRequired_def UserPasswordResetSucceeded_def EmailVerificationRequested_def
  EmailPasswordResetRequested_def EmailNewDeviceLogin_def

text \<open>
  The payload of an event is the JSON of one of two structs. The program never reads a
  payload back, so a payload is modelled as the struct that was marshalled.
\<close>

datatype PayloadData =
    NoPayloadData
  | EmailVerificationRequestPayload string time
  | PasswordResetRequestedPayload string
  | NewDeviceLoginPayload string string time string

record EmailPayloadContext =
  ep_Tenant :: string
  ep_UserID :: uuid
  ep_Email :: string
  ep_Username :: "string option"
  ep_EventID :: uuid
  ep_IP :: string
  ep_PayloadData :: PayloadData

record UserInfo =
  ui_UserID :: uuid
  ui_Email :: string
  ui_Username :: string
  ui_Verified :: bool
  ui_CreatedAt :: time

datatype payload = UserInfoJSON UserInfo | EmailContextJSON EmailPayloadContext

record OutboxEvent =
  oe_ID :: uuid
  oe_AggregateType :: string
  oe_AggregateID :: uuid
  oe_EventType :: EventType
  oe_Payload :: payload
  oe_Headers :: "json option"
  oe_Status :: EventStatus
  oe_RetryCount :: int
  oe_NextRetryAt :: time
  oe_CreatedAt :: time
  oe_PublishedAt :: "time option"
  oe_LastError :: "string option"
  oe_LockedAt :: "time option"
  oe_LockedUntil :: "time option"
  oe_LockedBy :: "string option"

text \<open>A composite literal that leaves the remaining fields at Go's zero values.\<close>

definition new_event ::
  "uuid \<Rightarrow> EventType \<Rightarrow> payload \<Rightarrow> EventStatus \<Rightarrow> time \<Rightarrow> time \<Rightarrow> OutboxEvent"
where
  "new_event i ty p st nxt created =
     \<lparr>oe_ID = i, oe_AggregateType = [], oe_AggregateID = uuid_Nil, oe_EventType = ty,
      oe_Payload = p, oe_Headers = None, oe_Status = st, oe_RetryCount = 0,
      oe_NextRetryAt = nxt, oe_CreatedAt = created, oe_PublishedAt = None, oe_LastError = None,
      oe_LockedAt = None, oe_LockedUntil = None, oe_LockedBy = None\<rparr>"

record EventEnvelope =
  en_EventID :: uuid
  en_EventType :: EventType
  en_Payload :: payload
  en_Headers :: "(string \<times> json) list option"

section \<open>Third-party functions\<close>

text \<open>
  \<^verbatim>\<open>Claims\<close> of \<^verbatim>\<open>internal/auth/jwt.go\<close> and the functions of packages outside the
  repository: \<^verbatim>\<open>google/uuid\<close>, \<^verbatim>\<open>x/crypto/bcrypt\<close>, \<^verbatim>\<open>golang-jwt\<close>, and the
  parser of mail addresses \<^verbatim>\<open>mail.ParseAddress\<close>, of which the program uses only whether it
  accepts. They are parameters, gathered in one record.
\<close>

record Claims =
  c_UserID :: uuid
  c_Email :: string
  c_Subject :: string
  c_Issuer :: string
  c_IssuedAt :: time
  c_ExpiresAt :: time

datatype SigningMethod = SigningMethodRSA | SigningMethodHMAC | SigningMethodOther

type_synonym privkey = nat
type_synonym pubkey = nat

record lib =
  uuid_String :: "uuid \<Rightarrow> string"
  uuid_Parse :: "string \<Rightarrow> uuid option"
  bcrypt_Generate :: "byte list \<Rightarrow> byte list \<Rightarrow> nat \<Rightarrow> err + string"
    \<comment> \<open>salt, password, cost\<close>
  bcrypt_Compare :: "string \<Rightarrow> byte list \<Rightarrow> err option"
  jwt_Sign :: "SigningMethod \<Rightarrow> Claims \<Rightarrow> privkey \<Rightarrow> err + string"
  jwt_ParseWithClaims ::
    "string \<Rightarrow> (SigningMethod \<Rightarrow> err + pubkey) \<Rightarrow> time \<Rightarrow> err + (Claims \<times> bool)"
    \<comment> \<open>token, key function, current time; the parsed claims and \<^verbatim>\<open>token.Valid\<close>\<close>
  mail_ParseAddress :: "string \<Rightarrow> bool"

end
