(* ===== verification/World.thy ===== *)
theory World
  imports Models
begin

text \<open>
  The state the program acts on: the database (committed tables and the transaction of the
  request being served), the Redis keys, the clock, the supplies of random identifiers and
  bytes, the mails sent and the metric counters; and the calls of \<^verbatim>\<open>database/sql\<close>,
  \<^verbatim>\<open>time\<close>, \<^verbatim>\<open>uuid\<close> and \<^verbatim>\<open>crypto/rand\<close> on it.

  Every round trip to the database, to Redis and to the mail server may fail: the lists
  \<open>w_faults\<close>, \<open>w_redis_faults\<close> and \<open>w_mail_faults\<close> say what the next round trips do
  (an absent entry is a round trip that succeeds; a failure is an error of the driver, known to
  the program only by its message, never one of the program's own error values). Theorems quantify over them, so they
  cover every pattern of failures. Reading the clock may let time pass (\<open>w_ticks\<close>).
\<close>

section \<open>Tables (migrations/postgres/001\_init.sql)\<close>

record refresh_row =
  rr_token_id :: uuid
  rr_user_id :: uuid
  rr_tenant_id :: "uuid option"
  rr_token_hash :: string
  rr_client_id :: string
  rr_family_id :: uuid
  rr_ptoken_id :: "uuid option"
  rr_expires_at :: time
  rr_revoked_at :: "time option"
  rr_created_at :: time

record reset_row =
  pw_token_id :: uuid
  pw_user_id :: uuid
  pw_tenant_id :: "uuid option"
  pw_token_hash :: string
  pw_expires_at :: time
  pw_used_at :: "time option"
  pw_created_at :: time
  pw_revoked_at :: "time option"

record tenant_row =
  tn_tenant_id :: uuid
  tn_tenant_name :: string
  tn_name :: "string option"
  tn_url :: string
  tn_email :: string
  tn_status :: string
  tn_public_key :: string
  tn_api_key_hash :: string
  tn_allowed_origins :: "json option"
  tn_created_at :: time
  tn_updated_at :: time

record db =
  users :: "User list"
  refresh_tokens :: "refresh_row list"
  email_tokens :: "EmailVerificationToken list"
  reset_tokens :: "reset_row list"
  outbox_events :: "OutboxEvent list"
  tenants :: "tenant_row list"

definition empty_db :: db where
  "empty_db = \<lparr>users = [], refresh_tokens = [], email_tokens = [], reset_tokens = [],
     outbox_events = [], tenants = []\<rparr>"

section \<open>The world\<close>

text \<open>A Redis key holds a hash (field to integer) and, once \<^verbatim>\<open>EXPIRE\<close> was called, the time it vanishes.\<close>

type_synonym redis = "string \<rightharpoonup> ((string \<rightharpoonup> int) \<times> time option)"

record metrics =
  m_login_success :: nat
  m_login_failure :: nat
  m_signups_success :: nat
  m_refresh_reuse :: nat
  m_http_requests :: "(string \<times> string \<times> nat) list"
    \<comment> \<open>route, method and status of each counted request, latest first\<close>
  m_http_durations :: "(string \<times> string \<times> duration) list"
    \<comment> \<open>route, method and observed duration, latest first\<close>

text \<open>
  How a publish ends (the cases of \<^verbatim>\<open>RabbitMQ.Publish\<close>): acknowledged; refused by the client
  library; negatively acknowledged; or no confirmation before the 10 second timer, the
  cancellation of the context or the loss of the connection, in which case the message may or
  may not have reached the exchange (the flag).
\<close>

datatype pub_outcome =
    PubAck | PubRefused err | PubNack | PubTimeout bool | PubCancelled err bool | PubLost string bool

text \<open>A log record: its level (Debug -4, Info 0, Warn 4, Error 8), message and attributes.\<close>

record log_line =
  lg_Level :: int
  lg_Message :: string
  lg_Attrs :: "(string \<times> string) list"

record world =
  w_db :: db
  w_tx :: "(time \<times> db) option"
  w_now :: time
  w_ticks :: "nat list"
  w_faults :: "string option list"
  w_uuids :: "uuid list"
  w_rand :: "byte list list"
  w_redis :: redis
  w_redis_faults :: "string option list"
  w_mail :: "(string \<times> string) list"
  w_mail_faults :: "string option list"
  w_metrics :: metrics
  w_pub :: "pub_outcome list"
  w_delivered :: "EventEnvelope list"
  w_broker_closed :: bool
  w_log :: "log_line list"

type_synonym 'a M = "(world, err, 'a) call"

definition init_metrics :: metrics where
  "init_metrics = \<lparr>m_login_success = 0, m_login_failure = 0, m_signups_success = 0, m_refresh_reuse = 0,
     m_http_requests = [], m_http_durations = []\<rparr>"

definition mk_world :: "db \<Rightarrow> time \<Rightarrow> uuid list \<Rightarrow> byte list list \<Rightarrow> world" where
  "mk_world d t us rs = \<lparr>w_db = d, w_tx = None, w_now = t, w_ticks = [], w_faults = [],
     w_uuids = us, w_rand = rs, w_redis = Map.empty, w_redis_faults = [], w_mail = [],
     w_mail_faults = [], w_metrics = init_metrics, w_pub = [], w_delivered = [],
     w_broker_closed = False, w_log = []\<rparr>"

section \<open>Clock, identifiers, randomness\<close>

definition time_Now :: "time M" where
  "time_Now w =
     (Ok (w_now w),
      (case w_ticks w of [] \<Rightarrow> w | k # ks \<Rightarrow> w\<lparr>w_now := w_now w + int k, w_ticks := ks\<rparr>))"

definition uuid_NewV7 :: "uuid M" where
  "uuid_NewV7 w =
     (case w_uuids w of
        [] \<Rightarrow> (Err (ErrOther ''uuid: no entropy''), w)
      | u # us \<Rightarrow> (Ok u, w\<lparr>w_uuids := us\<rparr>))"

text \<open>\<^verbatim>\<open>uuid.NewString()\<close> is \<^verbatim>\<open>uuid.Must\<close> of a random identifier: it panics on an error.\<close>

definition uuid_NewString :: "lib \<Rightarrow> string M" where
  "uuid_NewString L =
     attempt uuid_NewV7 (\<lambda>e. panic (err_Error e)) (\<lambda>u. ret (uuid_String L u))"

definition rand_Read :: "nat \<Rightarrow> byte list M" where
  "rand_Read n w =
     (case w_rand w of
        [] \<Rightarrow> (Err (ErrOther ''rand: no entropy''), w)
      | r # rs \<Rightarrow> (Ok (take n (r @ replicate n 0)), w\<lparr>w_rand := rs\<rparr>))"

section \<open>database/sql\<close>

text \<open>
  \<^verbatim>\<open>dbtx.DBTX\<close> is either the connection pool (each statement commits by itself) or the
  open transaction. A statement is given the value of \<^verbatim>\<open>NOW()\<close>, which inside a transaction
  is the time the transaction began, and the tables it sees: the committed ones with, inside
  the transaction, the transaction's own changes. A statement on the pool is seen by the
  open transaction as well (isolation level READ COMMITTED).
\<close>

datatype exec = Conn | Tx

type_synonym stmt = "time \<Rightarrow> db \<Rightarrow> err + db"

definition ErrTxDone :: err where
  "ErrTxDone = ErrOther ''sql: transaction has already been committed or rolled back''"

definition db_roundtrip :: "unit M" where
  "db_roundtrip w =
     (case w_faults w of
        [] \<Rightarrow> (Ok (), w)
      | f # fs \<Rightarrow> (case f of None \<Rightarrow> Ok () | Some e \<Rightarrow> Err (ErrOther e), w\<lparr>w_faults := fs\<rparr>))"

definition apply_stmt :: "stmt \<Rightarrow> time \<Rightarrow> db \<Rightarrow> db" where
  "apply_stmt s t d = (case s t d of Inl _ \<Rightarrow> d | Inr d' \<Rightarrow> d')"

definition exec_conn :: "stmt \<Rightarrow> unit M" where
  "exec_conn s w =
     (case s (w_now w) (w_db w) of
        Inl e \<Rightarrow> (Err e, w)
      | Inr d \<Rightarrow>
          (Ok (), w\<lparr>w_db := d,
                    w_tx := map_option (\<lambda>(t0, d'). (t0, apply_stmt s (w_now w) d')) (w_tx w)\<rparr>))"

definition exec_tx :: "stmt \<Rightarrow> unit M" where
  "exec_tx s w =
     (case w_tx w of
        None \<Rightarrow> (Err ErrTxDone, w)
      | Some (t0, d) \<Rightarrow>
          (case s t0 d of Inl e \<Rightarrow> (Err e, w) | Inr d' \<Rightarrow> (Ok (), w\<lparr>w_tx := Some (t0, d')\<rparr>)))"

definition ExecContext :: "exec \<Rightarrow> stmt \<Rightarrow> unit M" where
  "ExecContext ex s =
     bindM db_roundtrip (\<lambda>_. case ex of Conn \<Rightarrow> exec_conn s | Tx \<Rightarrow> exec_tx s)"

text \<open>A query that reads: \<open>q\<close> gets \<^verbatim>\<open>NOW()\<close> and the visible tables.\<close>

definition query_view :: "exec \<Rightarrow> (time \<Rightarrow> db \<Rightarrow> 'a) \<Rightarrow> 'a M" where
  "query_view ex q w =
     (case ex of
        Conn \<Rightarrow> (Ok (q (w_now w) (w_db w)), w)
      | Tx \<Rightarrow> (case w_tx w of None \<Rightarrow> (Err ErrTxDone, w) | Some (t0, d) \<Rightarrow> (Ok (q t0 d), w)))"

definition QueryContext :: "exec \<Rightarrow> (time \<Rightarrow> db \<Rightarrow> 'a) \<Rightarrow> 'a M" where
  "QueryContext ex q = bindM db_roundtrip (\<lambda>_. query_view ex q)"

text \<open>\<^verbatim>\<open>QueryRowContext(..).Scan(..)\<close>: \<^verbatim>\<open>sql.ErrNoRows\<close> when there is no row.\<close>

definition QueryRowContext :: "exec \<Rightarrow> (time \<Rightarrow> db \<Rightarrow> 'a option) \<Rightarrow> 'a M" where
  "QueryRowContext ex q =
     bindM (QueryContext ex q) (\<lambda>r. case r of None \<Rightarrow> throw ErrNoRows | Some a \<Rightarrow> ret a)"

definition BeginTx :: "unit M" where
  "BeginTx = bindM db_roundtrip (\<lambda>_. modify (\<lambda>w. w\<lparr>w_tx := Some (w_now w, w_db w)\<rparr>))"

definition Rollback :: "world \<Rightarrow> world" where
  "Rollback w = w\<lparr>w_tx := None\<rparr>"

definition Commit :: "unit M" where
  "Commit w =
     (case w_tx w of
        None \<Rightarrow> (Err ErrTxDone, w)
      | Some (t0, d) \<Rightarrow>
          (case db_roundtrip w of
             (Ok _, w') \<Rightarrow> (Ok (), w'\<lparr>w_db := d, w_tx := None\<rparr>)
           | (r, w') \<Rightarrow> (r, w'\<lparr>w_tx := None\<rparr>)))"

text \<open>\<^verbatim>\<open>tx := BeginTx(); defer tx.Rollback(); body\<close>\<close>

definition withTx :: "'a M \<Rightarrow> 'a M" where
  "withTx body = bindM BeginTx (\<lambda>_. deferM Rollback body)"

section \<open>Constraint violations\<close>

definition dquote :: "string \<Rightarrow> string" where
  "dquote s = CHR 0x22 # s @ [CHR 0x22]"

definition unique_violation :: "string \<Rightarrow> err" where
  "unique_violation c = ErrOther
     (''ERROR: duplicate key value violates unique constraint '' @ dquote c @ '' (SQLSTATE 23505)'')"

definition fk_violation :: "string \<Rightarrow> string \<Rightarrow> err" where
  "fk_violation tbl c = ErrOther
     (''ERROR: insert or update on table '' @ dquote tbl @ '' violates foreign key constraint ''
       @ dquote c @ '' (SQLSTATE 23503)'')"

definition check_violation :: "string \<Rightarrow> string \<Rightarrow> err" where
  "check_violation tbl c = ErrOther
     (''ERROR: new row for relation '' @ dquote tbl @ '' violates check constraint ''
       @ dquote c @ '' (SQLSTATE 23514)'')"

lemma unique_violation_is_unique: "isUniqueConstraintError (unique_violation c)"
proof -
  have "ToLower (err_Error (unique_violation c)) =
      ''error: '' @ ''duplicate'' @ '' key value violates unique constraint ''
        @ ToLower (dquote c @ '' (SQLSTATE 23505)'')"
    by (simp add: unique_violation_def ToLower_def lower_char_def Let_def char_of_def bit_0)
  moreover have "Contains (''duplicate'' @ s) ''duplicate''" for s
    by (rule Contains_append_right) (simp add: HasPrefix_def)
  ultimately show ?thesis
    by (simp add: isUniqueConstraintError_def Let_def Contains_append_left del: append.simps)
qed

lemma wrap_unique [simp]: "wrapUserCreateError (unique_violation c) = ErrEmailAlreadyExists"
  by (simp add: wrapUserCreateError_def unique_violation_is_unique)

section \<open>Integrity of the tables\<close>

text \<open>
  What the schema declares for the tables of the model: primary keys, UNIQUE constraints (NULLs are distinct), foreign
  keys, CHECKs; NOT NULL is in the types of the columns.
\<close>

definition user_ids :: "db \<Rightarrow> uuid set" where
  "user_ids d = u_ID ` set (users d)"

definition outbox_statuses :: "string set" where
  "outbox_statuses = {''pending'', ''processing'', ''published'', ''failed''}"

definition tenant_statuses :: "string set" where
  "tenant_statuses = {''pending'', ''active'', ''suspended''}"

definition db_wf :: "db \<Rightarrow> bool" where
  "db_wf d \<longleftrightarrow>
     distinct (map u_ID (users d)) \<and>
     distinct (map (\<lambda>u. (u_Tenant_ID u, u_Email u)) (users d)) \<and>
     distinct (filter (\<lambda>n. n \<noteq> None) (map u_Username (users d))) \<and>
     distinct (map rr_token_id (refresh_tokens d)) \<and>
     distinct (map ev_ID (email_tokens d)) \<and>
     distinct (map pw_token_id (reset_tokens d)) \<and>
     distinct (map oe_ID (outbox_events d)) \<and>
     (\<forall>r \<in> set (refresh_tokens d). rr_user_id r \<in> user_ids d) \<and>
     (\<forall>r \<in> set (email_tokens d). ev_UserID r \<in> user_ids d) \<and>
     (\<forall>r \<in> set (reset_tokens d). pw_user_id r \<in> user_ids d) \<and>
     (\<forall>e \<in> set (outbox_events d). oe_Status e \<in> outbox_statuses) \<and>
     distinct (map tn_tenant_id (tenants d)) \<and> distinct (map tn_tenant_name (tenants d)) \<and>
     (\<forall>x \<in> set (tenants d). tn_status x \<in> tenant_statuses)"

lemma db_wf_empty [simp]: "db_wf empty_db"
  by (simp add: db_wf_def empty_db_def)

lemma db_wf_outboxD:
  assumes "db_wf d"
  shows "distinct (map oe_ID (outbox_events d))" "e \<in> set (outbox_events d) \<Longrightarrow> oe_Status e \<in> outbox_statuses"
  using assms by (simp_all add: db_wf_def)

section \<open>Invariants of the tables along calls\<close>

definition stmt_keeps :: "(db \<Rightarrow> bool) \<Rightarrow> stmt \<Rightarrow> bool" where
  "stmt_keeps J s \<longleftrightarrow> (\<forall>t d d'. s t d = Inr d' \<longrightarrow> J d \<longrightarrow> J d')"

lemma stmt_keepsI: "(\<And>t d d'. s t d = Inr d' \<Longrightarrow> J d \<Longrightarrow> J d') \<Longrightarrow> stmt_keeps J s"
  by (auto simp: stmt_keeps_def)

lemma stmt_keeps_caseI:
  assumes "\<And>t d. J d \<Longrightarrow> case s t d of Inl e \<Rightarrow> True | Inr d' \<Rightarrow> J d'"
  shows "stmt_keeps J s"
proof (rule stmt_keepsI)
  fix t d d'
  assume "s t d = Inr d'" "J d"
  with assms[of d t] show "J d'" by simp
qed

text \<open>\<open>db_inv J\<close>: the committed tables and those of an open transaction satisfy \<open>J\<close>.\<close>

definition db_inv :: "(db \<Rightarrow> bool) \<Rightarrow> world \<Rightarrow> bool" where
  "db_inv J w \<longleftrightarrow> J (w_db w) \<and> (\<forall>t d. w_tx w = Some (t, d) \<longrightarrow> J d)"

lemma apply_stmt_keeps: "stmt_keeps J s \<Longrightarrow> J d \<Longrightarrow> J (apply_stmt s t d)"
  by (auto simp: apply_stmt_def stmt_keeps_def split: sum.splits)

lemma db_roundtrip_frame:
  "db_roundtrip w = (r, w') \<Longrightarrow> w' = w\<lparr>w_faults := w_faults w'\<rparr>"
  by (auto simp: db_roundtrip_def split: list.splits option.splits)

lemma db_roundtrip_no_panic [simp]: "db_roundtrip w \<noteq> (Panic s, w')"
  by (auto simp: db_roundtrip_def split: list.splits option.splits)

lemma keeps_db_roundtrip:
  "(\<And>w fs. I (w\<lparr>w_faults := fs\<rparr>) = I w) \<Longrightarrow> keeps I db_roundtrip"
  by (auto simp: keeps_def db_roundtrip_def split: list.splits)

lemma db_inv_simps [simp]:
  "db_inv J (w\<lparr>w_faults := fs\<rparr>) = db_inv J w"
  "db_inv J (w\<lparr>w_now := t\<rparr>) = db_inv J w"
  "db_inv J (w\<lparr>w_ticks := ks\<rparr>) = db_inv J w"
  "db_inv J (w\<lparr>w_uuids := us\<rparr>) = db_inv J w"
  "db_inv J (w\<lparr>w_rand := rs\<rparr>) = db_inv J w"
  "db_inv J (w\<lparr>w_redis := rd\<rparr>) = db_inv J w"
  "db_inv J (w\<lparr>w_redis_faults := fs\<rparr>) = db_inv J w"
  "db_inv J (w\<lparr>w_mail := ms\<rparr>) = db_inv J w"
  "db_inv J (w\<lparr>w_mail_faults := fs\<rparr>) = db_inv J w"
  "db_inv J (w\<lparr>w_metrics := mt\<rparr>) = db_inv J w"
  "db_inv J (w\<lparr>w_pub := ps\<rparr>) = db_inv J w"
  "db_inv J (w\<lparr>w_delivered := es\<rparr>) = db_inv J w"
  "db_inv J (w\<lparr>w_log := ls\<rparr>) = db_inv J w"
  by (simp_all add: db_inv_def)

lemma keeps_db_inv_roundtrip [keeps_intros]: "keeps (db_inv J) db_roundtrip"
  by (rule keeps_db_roundtrip) simp

lemma keeps_db_inv_now [keeps_intros]: "keeps (db_inv J) time_Now"
  by (auto simp: keeps_def time_Now_def split: list.splits)

lemma keeps_db_inv_uuid [keeps_intros]: "keeps (db_inv J) uuid_NewV7"
  by (auto simp: keeps_def uuid_NewV7_def split: list.splits)

lemma keeps_db_inv_uuid_string [keeps_intros]: "keeps (db_inv J) (uuid_NewString L)"
  unfolding uuid_NewString_def by (intro keeps_intros)

lemma keeps_db_inv_rand [keeps_intros]: "keeps (db_inv J) (rand_Read n)"
  by (auto simp: keeps_def rand_Read_def split: list.splits)

lemma keeps_db_inv_exec [keeps_intros]:
  assumes "stmt_keeps J s"
  shows "keeps (db_inv J) (ExecContext ex s)"
proof -
  have "keeps (db_inv J) (exec_conn s)"
    using assms by (auto simp: keeps_def exec_conn_def db_inv_def stmt_keeps_def apply_stmt_keeps
        split: sum.splits)
  moreover have "keeps (db_inv J) (exec_tx s)"
    using assms by (auto simp: keeps_def exec_tx_def db_inv_def stmt_keeps_def
        split: sum.splits option.splits)
  ultimately show ?thesis
    unfolding ExecContext_def by (cases ex) (auto intro: keeps_intros)
qed

lemma keeps_db_inv_query [keeps_intros]: "keeps (db_inv J) (QueryContext ex q)"
  unfolding QueryContext_def
  by (intro keeps_intros) (auto simp: keeps_def query_view_def split: exec.splits option.splits)

lemma keeps_db_inv_query_row [keeps_intros]: "keeps (db_inv J) (QueryRowContext ex q)"
  unfolding QueryRowContext_def by (intro keeps_intros)

lemma keeps_db_inv_begin [keeps_intros]: "keeps (db_inv J) BeginTx"
  unfolding BeginTx_def by (intro keeps_intros keeps_modify) (auto simp: db_inv_def)

lemma keeps_db_inv_commit [keeps_intros]: "keeps (db_inv J) Commit"
  by (auto simp: keeps_def Commit_def db_roundtrip_def db_inv_def
      split: option.splits prod.splits res.splits list.splits)

lemma keeps_db_inv_withTx [keeps_intros]:
  "keeps (db_inv J) m \<Longrightarrow> keeps (db_inv J) (withTx m)"
  unfolding withTx_def
  by (intro keeps_intros keeps_deferM) (auto simp: db_inv_def Rollback_def)

section \<open>Running the calls\<close>

text \<open>
  \<open>next_ok w\<close>: the next round trip to the database succeeds; \<open>pop w\<close>: the state after it.
\<close>

definition next_ok :: "world \<Rightarrow> bool" where
  "next_ok w = (case w_faults w of [] \<Rightarrow> True | f # _ \<Rightarrow> f = None)"

definition next_err :: "world \<Rightarrow> err" where
  "next_err w = ErrOther (case w_faults w of Some e # _ \<Rightarrow> e | _ \<Rightarrow> [])"

definition pop :: "world \<Rightarrow> world" where
  "pop w = w\<lparr>w_faults := drop 1 (w_faults w)\<rparr>"

lemma db_roundtrip_eq:
  "db_roundtrip w = (if next_ok w then Ok () else Err (next_err w), pop w)"
  by (cases "w_faults w")
    (auto simp: db_roundtrip_def next_ok_def next_err_def pop_def split: option.splits)

lemma next_err_not_sentinel [simp]:
  "next_err w \<noteq> ErrNoRows" "next_err w \<noteq> ErrRefreshReuse" "next_err w \<noteq> ErrInvalidToken"
  "next_err w \<noteq> ErrInvalidCredentials" "next_err w \<noteq> LimiterRateLimited"
  by (simp_all add: next_err_def)

lemma pop_simps [simp]:
  "w_db (pop w) = w_db w" "w_tx (pop w) = w_tx w" "w_now (pop w) = w_now w"
  "w_ticks (pop w) = w_ticks w" "w_uuids (pop w) = w_uuids w" "w_rand (pop w) = w_rand w"
  "w_redis (pop w) = w_redis w" "w_redis_faults (pop w) = w_redis_faults w"
  "w_mail (pop w) = w_mail w" "w_mail_faults (pop w) = w_mail_faults w"
  "w_metrics (pop w) = w_metrics w"
  "w_pub (pop w) = w_pub w" "w_delivered (pop w) = w_delivered w"
  "w_broker_closed (pop w) = w_broker_closed w" "w_log (pop w) = w_log w" "w_faults (pop w) = drop 1 (w_faults w)"
  by (simp_all add: pop_def)

lemma quiet_next_ok: "w_faults w = [] \<Longrightarrow> next_ok w"
  by (simp add: next_ok_def)

lemma quiet_pop: "w_faults w = [] \<Longrightarrow> pop w = w"
  by (simp add: pop_def)

lemma roundtrip_bind:
  "bindM db_roundtrip k w = (if next_ok w then k () (pop w) else (Err (next_err w), pop w))"
  by (simp add: bindM_def attempt_def db_roundtrip_eq)

lemma ExecContext_Conn:
  "ExecContext Conn s w =
     (if next_ok w then exec_conn s (pop w) else (Err (next_err w), pop w))"
  by (simp add: ExecContext_def roundtrip_bind)

lemma ExecContext_Tx:
  "ExecContext Tx s w =
     (if next_ok w then exec_tx s (pop w) else (Err (next_err w), pop w))"
  by (simp add: ExecContext_def roundtrip_bind)

lemma ExecContext_Tx_Ok_iff:
  "ExecContext Tx s w = (Ok x, w') \<longleftrightarrow>
     next_ok w \<and> (\<exists>t d d'. w_tx w = Some (t, d) \<and> s t d = Inr d' \<and> w' = (pop w)\<lparr>w_tx := Some (t, d')\<rparr>)"
  by (auto simp: ExecContext_Tx exec_tx_def split: option.splits sum.splits)

lemma ExecContext_Conn_Ok_iff:
  "ExecContext Conn s w = (Ok x, w') \<longleftrightarrow>
     next_ok w \<and> (\<exists>d. s (w_now w) (w_db w) = Inr d \<and>
       w' = (pop w)\<lparr>w_db := d,
              w_tx := map_option (\<lambda>(t0, d'). (t0, apply_stmt s (w_now w) d')) (w_tx w)\<rparr>)"
  by (auto simp: ExecContext_Conn exec_conn_def split: sum.splits)

lemma QueryRow_Conn:
  "QueryRowContext Conn q w =
     (if next_ok w
      then (case q (w_now w) (w_db w) of None \<Rightarrow> Err ErrNoRows | Some a \<Rightarrow> Ok a, pop w)
      else (Err (next_err w), pop w))"
  by (auto simp: QueryRowContext_def QueryContext_def query_view_def roundtrip_bind bindM_def
      attempt_def db_roundtrip_eq split: option.splits)

lemma QueryRow_Tx:
  "QueryRowContext Tx q w =
     (if next_ok w
      then (case w_tx w of
              None \<Rightarrow> Err ErrTxDone
            | Some (t, d) \<Rightarrow> (case q t d of None \<Rightarrow> Err ErrNoRows | Some a \<Rightarrow> Ok a), pop w)
      else (Err (next_err w), pop w))"
  by (auto simp: QueryRowContext_def QueryContext_def query_view_def roundtrip_bind bindM_def
      attempt_def db_roundtrip_eq split: option.splits)

lemma QueryRow_Conn_Ok_iff:
  "QueryRowContext Conn q w = (Ok a, w') \<longleftrightarrow>
     next_ok w \<and> q (w_now w) (w_db w) = Some a \<and> w' = pop w"
  by (auto simp: QueryRow_Conn split: option.splits)

lemma QueryRow_Tx_Ok_iff:
  "QueryRowContext Tx q w = (Ok a, w') \<longleftrightarrow>
     next_ok w \<and> (\<exists>t d. w_tx w = Some (t, d) \<and> q t d = Some a) \<and> w' = pop w"
  by (auto simp: QueryRow_Tx split: option.splits)

lemma BeginTx_eq:
  "BeginTx w =
     (if next_ok w then (Ok (), (pop w)\<lparr>w_tx := Some (w_now w, w_db w)\<rparr>)
      else (Err (next_err w), pop w))"
  by (simp add: BeginTx_def roundtrip_bind)

lemma Commit_eq:
  "Commit w =
     (case w_tx w of
        None \<Rightarrow> (Err ErrTxDone, w)
      | Some (t, d) \<Rightarrow>
          (if next_ok w then (Ok (), (pop w)\<lparr>w_db := d, w_tx := None\<rparr>)
           else (Err (next_err w), (pop w)\<lparr>w_tx := None\<rparr>)))"
  by (auto simp: Commit_def db_roundtrip_eq split: option.splits)

lemma Commit_Ok_iff:
  "Commit w = (Ok x, w') \<longleftrightarrow>
     next_ok w \<and> (\<exists>t d. w_tx w = Some (t, d) \<and> w' = (pop w)\<lparr>w_db := d, w_tx := None\<rparr>)"
  by (auto simp: Commit_eq split: option.splits)

lemma withTx_Ok_iff:
  "withTx m w = (Ok a, w'') \<longleftrightarrow>
     next_ok w \<and>
     (\<exists>w'. m ((pop w)\<lparr>w_tx := Some (w_now w, w_db w)\<rparr>) = (Ok a, w') \<and> w'' = Rollback w')"
  by (auto simp: withTx_def bindM_Ok_iff BeginTx_eq deferM_iff split: if_splits)

lemma withTx_eq:
  "withTx m w =
     (if next_ok w
      then (case m ((pop w)\<lparr>w_tx := Some (w_now w, w_db w)\<rparr>) of (r, w') \<Rightarrow> (r, Rollback w'))
      else (Err (next_err w), pop w))"
  by (simp add: withTx_def bindM_def attempt_def BeginTx_eq deferM_def)

lemma time_Now_Ok_iff:
  "time_Now w = (Ok t, w') \<longleftrightarrow> t = w_now w \<and> w' = snd (time_Now w)"
  by (auto simp: time_Now_def)

lemma uuid_NewV7_Ok_iff:
  "uuid_NewV7 w = (Ok u, w') \<longleftrightarrow> (\<exists>us. w_uuids w = u # us \<and> w' = w\<lparr>w_uuids := us\<rparr>)"
  by (auto simp: uuid_NewV7_def split: list.splits)

lemma rand_Read_Ok_iff:
  "rand_Read n w = (Ok b, w') \<longleftrightarrow>
     (\<exists>r rs. w_rand w = r # rs \<and> b = take n (r @ replicate n 0) \<and> w' = w\<lparr>w_rand := rs\<rparr>)"
  by (auto simp: rand_Read_def split: list.splits)

text \<open>Reading the clock changes nothing but the clock.\<close>

definition tick :: "world \<Rightarrow> world" where
  "tick w = snd (time_Now w)"

lemma time_Now_eq: "time_Now w = (Ok (w_now w), tick w)"
  by (simp add: tick_def time_Now_def)

lemma tick_simps [simp]:
  "w_db (tick w) = w_db w" "w_tx (tick w) = w_tx w" "w_faults (tick w) = w_faults w"
  "w_uuids (tick w) = w_uuids w" "w_rand (tick w) = w_rand w" "w_redis (tick w) = w_redis w"
  "w_redis_faults (tick w) = w_redis_faults w" "w_mail (tick w) = w_mail w"
  "w_mail_faults (tick w) = w_mail_faults w" "w_metrics (tick w) = w_metrics w"
  "w_pub (tick w) = w_pub w" "w_delivered (tick w) = w_delivered w"
  "w_broker_closed (tick w) = w_broker_closed w" "w_log (tick w) = w_log w"
  by (simp_all add: tick_def time_Now_def split: list.splits)

lemma tick_mono: "w_now w \<le> w_now (tick w)"
  by (simp add: tick_def time_Now_def split: list.splits)

lemma tick_quiet: "w_ticks w = [] \<Longrightarrow> tick w = w"
  by (simp add: tick_def time_Now_def)

lemmas run_Ok_iffs =
  bindM_Ok_iff attempt_Ok_iff mapErr_Ok_iff ExecContext_Tx_Ok_iff ExecContext_Conn_Ok_iff
  QueryRow_Conn_Ok_iff QueryRow_Tx_Ok_iff Commit_Ok_iff withTx_Ok_iff
  uuid_NewV7_Ok_iff rand_Read_Ok_iff

subsection \<open>Calls that leave the committed tables alone\<close>

text \<open>
  Inside a transaction nothing reaches the committed tables until the commit. A call that
  only reads, or only writes through the transaction, keeps them.
\<close>

definition committed_is :: "db \<Rightarrow> world \<Rightarrow> bool" where
  "committed_is d w \<longleftrightarrow> w_db w = d"

lemma committed_is_simps [simp]:
  "committed_is d (w\<lparr>w_faults := fs\<rparr>) = committed_is d w"
  "committed_is d (w\<lparr>w_tx := x\<rparr>) = committed_is d w"
  "committed_is d (w\<lparr>w_now := t\<rparr>) = committed_is d w"
  "committed_is d (w\<lparr>w_ticks := ks\<rparr>) = committed_is d w"
  "committed_is d (w\<lparr>w_uuids := us\<rparr>) = committed_is d w"
  "committed_is d (w\<lparr>w_rand := rs\<rparr>) = committed_is d w"
  "committed_is d (w\<lparr>w_redis := rd\<rparr>) = committed_is d w"
  "committed_is d (w\<lparr>w_redis_faults := fs\<rparr>) = committed_is d w"
  "committed_is d (w\<lparr>w_mail := ms\<rparr>) = committed_is d w"
  "committed_is d (w\<lparr>w_mail_faults := fs\<rparr>) = committed_is d w"
  "committed_is d (w\<lparr>w_metrics := mt\<rparr>) = committed_is d w"
  "committed_is d (w\<lparr>w_pub := ps\<rparr>) = committed_is d w"
  "committed_is d (w\<lparr>w_delivered := es\<rparr>) = committed_is d w"
  by (simp_all add: committed_is_def)

lemma keeps_committed [keeps_intros]:
  "keeps (committed_is d) db_roundtrip"
  "keeps (committed_is d) time_Now"
  "keeps (committed_is d) uuid_NewV7"
  "keeps (committed_is d) (rand_Read n)"
  "keeps (committed_is d) (ExecContext Tx s)"
  "keeps (committed_is d) (QueryContext ex q)"
  "keeps (committed_is d) (QueryRowContext ex q')"
  "keeps (committed_is d) BeginTx"
  by (auto simp: keeps_def committed_is_def db_roundtrip_eq time_Now_eq uuid_NewV7_def
      rand_Read_def ExecContext_Tx exec_tx_def QueryContext_def QueryRow_Conn QueryRow_Tx BeginTx_eq
      roundtrip_bind query_view_def split: list.splits option.splits sum.splits exec.splits)
    (cases ex; auto simp: QueryRow_Conn QueryRow_Tx split: option.splits)

lemma keeps_committed_uuid_string [keeps_intros]: "keeps (committed_is d) (uuid_NewString L)"
  unfolding uuid_NewString_def by (intro keeps_intros)

text \<open>
  \<open>atomic m\<close>: unless the whole call succeeds, the committed tables are what they were. A call is
  atomic when nothing before its commit touches the committed tables and nothing after the commit
  can fail.
\<close>

definition atomic :: "'a M \<Rightarrow> bool" where
  "atomic m \<longleftrightarrow> (\<forall>w r w'. m w = (r, w') \<longrightarrow> \<not> is_Ok r \<longrightarrow> w_db w' = w_db w)"

lemma atomicD: "atomic m \<Longrightarrow> m w = (r, w') \<Longrightarrow> \<not> is_Ok r \<Longrightarrow> w_db w' = w_db w"
  by (simp add: atomic_def)

lemma committed_imp_atomic: "(\<And>d. keeps (committed_is d) m) \<Longrightarrow> atomic m"
  unfolding atomic_def keeps_def committed_is_def by (metis snd_conv)

lemma atomic_Commit: "atomic Commit"
  by (auto simp: atomic_def Commit_eq split: option.splits if_splits)

lemma atomic_attempt:
  assumes "\<And>d. keeps (committed_is d) m" "\<And>e. atomic (h e)" "\<And>a. atomic (k a)"
  shows "atomic (attempt m h k)"
  unfolding atomic_def
proof (intro allI impI)
  fix w r w' assume run: "attempt m h k w = (r, w')" and bad: "\<not> is_Ok r"
  have db: "w_db w1 = w_db w" if "m w = (x, w1)" for x w1
    using keepsD[OF assms(1) that] by (simp add: committed_is_def)
  from run show "w_db w' = w_db w"
  proof (cases rule: attempt_cases)
    case (Ok a w1)
    with atomicD[OF assms(3) _ bad] db show ?thesis by metis
  next
    case (Err e w1)
    with atomicD[OF assms(2) _ bad] db show ?thesis by metis
  next
    case (Panic s)
    with db show ?thesis by blast
  qed
qed

lemma atomic_throw: "atomic (throw e)" and atomic_ret: "atomic (ret a)" and atomic_panic: "atomic (panic s)"
  by (simp_all add: atomic_def)

lemma atomic_bindM:
  "(\<And>d. keeps (committed_is d) m) \<Longrightarrow> (\<And>a. atomic (k a)) \<Longrightarrow> atomic (bindM m k)"
  unfolding bindM_def by (intro atomic_attempt atomic_throw)

lemma atomic_Commit_then: "(\<And>a w. is_Ok (fst (k a w))) \<Longrightarrow> atomic (bindM Commit k)"
  unfolding atomic_def
proof (intro allI impI)
  fix w r w' assume ok: "\<And>a w. is_Ok (fst (k a w))" and run: "bindM Commit k w = (r, w')"
    and bad: "\<not> is_Ok r"
  show "w_db w' = w_db w"
  proof (cases "Commit w")
    case (Pair rc wc)
    show ?thesis
    proof (cases "is_Ok rc")
      case True
      with Pair run obtain a where "k a wc = (r, w')" by (auto simp: is_Ok_iff)
      with ok[of a wc] bad show ?thesis by simp
    next
      case False
      with Pair run have "w' = wc" by (cases rc) auto
      with atomicD[OF atomic_Commit Pair False] show ?thesis by simp
    qed
  qed
qed

lemma atomic_withTx: "atomic m \<Longrightarrow> atomic (withTx m)"
  unfolding atomic_def
  by (auto simp: withTx_eq Rollback_def split: if_splits prod.splits)

lemma withTx_closes: "withTx m w = (r, w') \<Longrightarrow> w_tx w = None \<Longrightarrow> w_tx w' = None"
  by (auto simp: withTx_eq Rollback_def split: if_splits prod.splits)

text \<open>The two ways a sequence goes on after a call that keeps the committed tables, or is atomic.\<close>

lemma bindM_stage:
  assumes "bindM m k w = (r, w')" "\<And>d. keeps (committed_is d) m"
  obtains (stop) "\<not> is_Ok r" "w_db w' = w_db w"
    | (run) a w1 where "m w = (Ok a, w1)" "w_db w1 = w_db w" "k a w1 = (r, w')"
proof (cases "m w")
  case (Pair r1 w1)
  have db: "w_db w1 = w_db w" using keepsD[OF assms(2) Pair, of "w_db w"] by (simp add: committed_is_def)
  show ?thesis
  proof (cases r1)
    case (Ok a)
    with assms(1) Pair db show ?thesis by (intro run) auto
  next
    case (Err e)
    with assms(1) Pair db show ?thesis by (intro stop) auto
  next
    case (Panic s)
    with assms(1) Pair db show ?thesis by (intro stop) auto
  qed
qed

lemma bindM_atomic_stage:
  assumes "bindM m k w = (r, w')" "atomic m"
  obtains (stop) "\<not> is_Ok r" "w_db w' = w_db w"
    | (run) a w1 where "m w = (Ok a, w1)" "k a w1 = (r, w')"
proof (cases "m w")
  case (Pair r1 w1)
  show ?thesis
  proof (cases "is_Ok r1")
    case True
    with assms(1) Pair show ?thesis by (auto simp: is_Ok_iff intro: run)
  next
    case False
    from False assms(1) Pair have "\<not> is_Ok r \<and> w' = w1" by (cases r1) auto
    with atomicD[OF assms(2) Pair False] show ?thesis by (auto intro: stop)
  qed
qed

lemmas atomic_intros =
  atomic_withTx atomic_Commit atomic_throw atomic_ret atomic_panic atomic_Commit_then

end
