(* ===== verification/Users_Repo.thy ===== *)
theory Users_Repo
  imports World
begin

text \<open>
  \<^verbatim>\<open>internal/users\<close>: the repository interface as a locale, the PostgreSQL and the SQLite
  implementation, and the laws each satisfies.
\<close>

section \<open>PostgreSQL (repository\_psql.go)\<close>

definition same_account :: "User \<Rightarrow> User \<Rightarrow> bool" where
  "same_account u v \<longleftrightarrow> u_Tenant_ID u = u_Tenant_ID v \<and> u_Email u = u_Email v"

text \<open>The \<^verbatim>\<open>INSERT\<close> lists every column but \<^verbatim>\<open>locked_at\<close>, which defaults to NULL.\<close>

definition users_insert :: "User \<Rightarrow> stmt" where
  "users_insert u t d =
     (if u_ID u \<in> user_ids d then Inl (unique_violation ''users_pkey'')
      else if (u_Tenant_ID u, u_Email u) \<in> (\<lambda>v. (u_Tenant_ID v, u_Email v)) ` set (users d)
        then Inl (unique_violation ''users_perservice_email_unique'')
      else if u_Username u \<noteq> None \<and> u_Username u \<in> u_Username ` set (users d)
        then Inl (unique_violation ''users_username_key'')
      else Inr (d\<lparr>users := users d @ [u\<lparr>u_LockedAt := None\<rparr>]\<rparr>))"

definition users_Create :: "User \<Rightarrow> unit M" where
  "users_Create u = ExecContext Conn (users_insert u)"

definition users_CreateTx :: "exec \<Rightarrow> User \<Rightarrow> unit M" where
  "users_CreateTx ex u = ExecContext ex (users_insert u)"

definition users_FindByEmail :: "string \<Rightarrow> uuid \<Rightarrow> User M" where
  "users_FindByEmail email tenant =
     QueryRowContext Conn
       (\<lambda>_ d. List.find (\<lambda>u. u_Email u = email \<and> u_Tenant_ID u = tenant) (users d))"

definition users_FindByID :: "uuid \<Rightarrow> User M" where
  "users_FindByID i = QueryRowContext Conn (\<lambda>_ d. List.find (\<lambda>u. u_ID u = i) (users d))"

definition upd_user :: "uuid \<Rightarrow> (time \<Rightarrow> User \<Rightarrow> User) \<Rightarrow> stmt" where
  "upd_user i f t d = Inr (d\<lparr>users := update_where (\<lambda>u. u_ID u = i) (f t) (users d)\<rparr>)"

definition users_ActivateUser :: "uuid \<Rightarrow> unit M" where
  "users_ActivateUser i =
     ExecContext Conn
       (upd_user i (\<lambda>t u. u\<lparr>u_IsActive := True, u_EmailVerified := True, u_UpdatedAt := t\<rparr>))"

definition users_LockoutUser :: "exec \<Rightarrow> uuid \<Rightarrow> bool \<Rightarrow> unit M" where
  "users_LockoutUser ex i lock =
     bindM (if lock then bindM time_Now (\<lambda>now. ret (Some now)) else ret None) (\<lambda>lockedAt.
     ExecContext ex (upd_user i (\<lambda>t u. u\<lparr>u_LockedAt := lockedAt, u_UpdatedAt := t\<rparr>)))"

definition users_ChangePassword :: "exec \<Rightarrow> uuid \<Rightarrow> string \<Rightarrow> unit M" where
  "users_ChangePassword ex i newPasswordHash =
     ExecContext ex
       (upd_user i (\<lambda>t u. u\<lparr>u_PasswordHash := Some newPasswordHash, u_UpdatedAt := t\<rparr>))"

lemmas users_psql_defs [call_defs] =
  users_Create_def users_CreateTx_def users_FindByEmail_def users_FindByID_def
  users_ActivateUser_def users_LockoutUser_def users_ChangePassword_def

section \<open>SQLite (repository\_sqlite.go)\<close>

text \<open>
  The SQLite table has no tenant column and a UNIQUE constraint on the e-mail address alone;
  the queries neither filter by tenant nor read \<^verbatim>\<open>locked_at\<close>. A row of that table is a
  \<^typ>\<open>User\<close> whose tenant is the zero identifier.
\<close>

definition sqlite_unique :: "string \<Rightarrow> err" where
  "sqlite_unique c = ErrOther (''UNIQUE constraint failed: '' @ c)"

definition users_insert_sqlite :: "User \<Rightarrow> stmt" where
  "users_insert_sqlite u t d =
     (if u_ID u \<in> user_ids d then Inl (sqlite_unique ''users.user_id'')
      else if u_Email u \<in> u_Email ` set (users d) then Inl (sqlite_unique ''users.email'')
      else if u_Username u \<noteq> None \<and> u_Username u \<in> u_Username ` set (users d)
        then Inl (sqlite_unique ''users.username'')
      else Inr (d\<lparr>users := users d @ [u\<lparr>u_LockedAt := None, u_Tenant_ID := uuid_Nil\<rparr>]\<rparr>))"

definition scan_sqlite_user :: "User \<Rightarrow> User" where
  "scan_sqlite_user u = u\<lparr>u_LockedAt := None, u_Tenant_ID := uuid_Nil\<rparr>"

definition users_Create_sqlite :: "User \<Rightarrow> unit M" where
  "users_Create_sqlite u = ExecContext Conn (users_insert_sqlite u)"

definition users_CreateTx_sqlite :: "exec \<Rightarrow> User \<Rightarrow> unit M" where
  "users_CreateTx_sqlite ex u = ExecContext ex (users_insert_sqlite u)"

definition users_FindByEmail_sqlite :: "string \<Rightarrow> uuid \<Rightarrow> User M" where
  "users_FindByEmail_sqlite email tenant =
     QueryRowContext Conn
       (\<lambda>_ d. map_option scan_sqlite_user (List.find (\<lambda>u. u_Email u = email) (users d)))"

definition users_FindByID_sqlite :: "uuid \<Rightarrow> User M" where
  "users_FindByID_sqlite i =
     QueryRowContext Conn
       (\<lambda>_ d. map_option scan_sqlite_user (List.find (\<lambda>u. u_ID u = i) (users d)))"

definition users_ActivateUser_sqlite :: "uuid \<Rightarrow> unit M" where
  "users_ActivateUser_sqlite i =
     bindM (ExecContext Conn (upd_user i (\<lambda>t u. u\<lparr>u_IsActive := True, u_UpdatedAt := t\<rparr>))) (\<lambda>_.
     ExecContext Conn (upd_user i (\<lambda>t u. u\<lparr>u_EmailVerified := True, u_UpdatedAt := t\<rparr>)))"

definition users_LockoutUser_sqlite :: "exec \<Rightarrow> uuid \<Rightarrow> bool \<Rightarrow> unit M" where
  "users_LockoutUser_sqlite ex i lock =
     bindM (if lock then bindM time_Now (\<lambda>now. ret (Some now)) else ret None) (\<lambda>lockedAt.
     ExecContext ex (upd_user i (\<lambda>t u. u\<lparr>u_LockedAt := lockedAt\<rparr>)))"

definition users_ChangePassword_sqlite :: "exec \<Rightarrow> uuid \<Rightarrow> string \<Rightarrow> unit M" where
  "users_ChangePassword_sqlite ex i newPasswordHash = ret ()"

lemmas users_sqlite_defs [call_defs] =
  users_Create_sqlite_def users_CreateTx_sqlite_def users_FindByEmail_sqlite_def
  users_FindByID_sqlite_def users_ActivateUser_sqlite_def users_LockoutUser_sqlite_def
  users_ChangePassword_sqlite_def

text \<open>\<^verbatim>\<open>NewUserRepo\<close>: which implementation a driver name selects; any other name panics.\<close>

datatype driver = Sqlite | Postgres

definition select_driver :: "string \<Rightarrow> driver option" where
  "select_driver s =
     (if s = ''sqlite'' then Some Sqlite else if s = ''postgres'' then Some Postgres else None)"

definition NewUserRepo :: "string \<Rightarrow> (err, driver) res" where
  "NewUserRepo driver =
     (case select_driver driver of
        Some Sqlite \<Rightarrow> Ok Sqlite
      | Some Postgres \<Rightarrow> Ok Postgres
      | None \<Rightarrow> Panic ''unsupported database driver'')"

section \<open>The interface\<close>

text \<open>
  What the service relies on of \<^verbatim>\<open>users.Repository\<close>: a created user can be found, a
  second user under the same account is refused with an error that the service recognises as
  "e-mail taken", activation activates and changes neither the address nor the password.
\<close>

locale user_repository =
  fixes create :: "User \<Rightarrow> unit M"
    and find_by_id :: "uuid \<Rightarrow> User M"
    and activate :: "uuid \<Rightarrow> unit M"
  assumes create_find:
      "create u w = (Ok (), w1) \<Longrightarrow> find_by_id (u_ID u) w1 = (r, w2) \<Longrightarrow> next_ok w1 \<Longrightarrow>
         \<exists>v. r = Ok v \<and> u_ID v = u_ID u \<and> u_Email v = u_Email u \<and> u_PasswordHash v = u_PasswordHash u"
    and create_duplicate:
      "create u w = (Ok (), w1) \<Longrightarrow> same_account v u \<Longrightarrow> next_ok w1 \<Longrightarrow>
         create v w1 = (q, w2) \<Longrightarrow> \<exists>e. q = Err e \<and> wrapUserCreateError e = ErrEmailAlreadyExists"
    and activate_find:
      "find_by_id i w = (Ok u, w0) \<Longrightarrow> activate i w0 = (Ok (), w1) \<Longrightarrow> next_ok w1 \<Longrightarrow>
         \<exists>v. find_by_id i w1 = (Ok v, pop w1) \<and> u_IsActive v \<and> u_EmailVerified v \<and>
             u_Email v = u_Email u \<and> u_PasswordHash v = u_PasswordHash u"
    and find_frame: "find_by_id i w = (r, w') \<Longrightarrow> w' = pop w"
begin

text \<open>The account life cycle: create, activate, look up.\<close>

lemma create_activate_find:
  assumes c: "create u w = (Ok (), w1)" and n: "next_ok w1"
    and a: "activate (u_ID u) (pop w1) = (Ok (), w2)" and n2: "next_ok w2"
  shows "\<exists>v. find_by_id (u_ID u) w2 = (Ok v, pop w2) \<and> u_IsActive v \<and> u_EmailVerified v \<and>
    u_Email v = u_Email u \<and> u_PasswordHash v = u_PasswordHash u"
proof -
  obtain r w' where f: "find_by_id (u_ID u) w1 = (r, w')" by fastforce
  with create_find[OF c f n] find_frame[OF f] obtain v where
    v: "find_by_id (u_ID u) w1 = (Ok v, pop w1)" "u_Email v = u_Email u"
      "u_PasswordHash v = u_PasswordHash u"
    by auto
  from activate_find[OF v(1) a n2] v(2,3) show ?thesis by auto
qed

end

lemma find_after_insert:
  "u_ID u \<notin> u_ID ` set vs \<Longrightarrow>
     List.find (\<lambda>x. u_ID x = u_ID u) (vs @ [u']) = (if u_ID u' = u_ID u then Some u' else None)"
  by (induction vs) auto

lemma find_user_update:
  assumes "\<And>u. u_ID (f u) = u_ID u"
  shows "List.find (\<lambda>x. u_ID x = i) (update_where (\<lambda>u. u_ID u = i) f us) =
    map_option f (List.find (\<lambda>x. u_ID x = i) us)"
  by (induction us) (auto simp: assms)

interpretation psql_users: user_repository users_Create users_FindByID users_ActivateUser
proof (unfold_locales, goal_cases)
  case (1 u w w1 r w2)
  then show ?case
    by (auto simp: users_psql_defs ExecContext_Conn_Ok_iff QueryRow_Conn users_insert_def
        find_after_insert user_ids_def split: if_splits)
next
  case (2 u w w1 v r w2)
  then show ?case
    by (auto simp: users_psql_defs ExecContext_Conn_Ok_iff ExecContext_Conn exec_conn_def
        users_insert_def same_account_def split: if_splits)
next
  case (3 i w u w0 w1)
  then show ?case
    by (auto simp: users_psql_defs ExecContext_Conn_Ok_iff QueryRow_Conn upd_user_def
        find_user_update split: if_splits option.splits)
next
  case (4 i w r w')
  then show ?case by (auto simp: users_psql_defs QueryRow_Conn split: if_splits)
qed

lemma sqlite_unique_is_unique: "wrapUserCreateError (sqlite_unique c) = ErrEmailAlreadyExists"
proof -
  have "ToLower (err_Error (sqlite_unique c)) = ''unique'' @ ToLower ('' constraint failed: '' @ c)"
    by (simp add: sqlite_unique_def ToLower_def lower_char_def Let_def char_of_def bit_0)
  moreover have "Contains (''unique'' @ s) ''unique''" for s
    by (rule Contains_append_right) (simp add: HasPrefix_def)
  ultimately show ?thesis
    by (simp add: wrapUserCreateError_def isUniqueConstraintError_def Let_def del: append.simps)
qed

interpretation sqlite_users: user_repository users_Create_sqlite users_FindByID_sqlite
  users_ActivateUser_sqlite
proof (unfold_locales, goal_cases)
  case (1 u w w1 r w2)
  then show ?case
    by (auto simp: users_sqlite_defs ExecContext_Conn_Ok_iff QueryRow_Conn users_insert_sqlite_def
        find_after_insert user_ids_def scan_sqlite_user_def split: if_splits)
next
  case (2 u w w1 v r w2)
  then show ?case
    by (auto simp: users_sqlite_defs ExecContext_Conn_Ok_iff ExecContext_Conn exec_conn_def
        users_insert_sqlite_def same_account_def sqlite_unique_is_unique split: if_splits)
next
  case (3 i w u w0 w1)
  then show ?case
    by (auto simp: users_sqlite_defs ExecContext_Conn_Ok_iff bindM_Ok_iff QueryRow_Conn
        upd_user_def find_user_update scan_sqlite_user_def split: if_splits option.splits)
next
  case (4 i w r w')
  then show ?case by (auto simp: users_sqlite_defs QueryRow_Conn split: if_splits)
qed

section \<open>Table integrity\<close>

lemma users_insert_wf [keeps_intros]: "stmt_keeps db_wf (users_insert u)"
  by (rule stmt_keeps_caseI) (simp add: users_insert_def db_wf_def user_ids_def)

lemma upd_user_wf [keeps_intros]:
  assumes "\<And>t u. u_ID (f t u) = u_ID u" "\<And>t u. u_Email (f t u) = u_Email u"
    "\<And>t u. u_Tenant_ID (f t u) = u_Tenant_ID u" "\<And>t u. u_Username (f t u) = u_Username u"
  shows "stmt_keeps db_wf (upd_user i f)"
proof (rule stmt_keepsI)
  fix t d d'
  assume s: "upd_user i f t d = Inr d'" and wf: "db_wf d"
  have ids: "map u_ID (users d') = map u_ID (users d)"
    and keys: "map (\<lambda>u. (u_Tenant_ID u, u_Email u)) (users d') =
      map (\<lambda>u. (u_Tenant_ID u, u_Email u)) (users d)"
    and names: "map u_Username (users d') = map u_Username (users d)"
    using s assms by (auto simp: upd_user_def map_update_where)
  then have "user_ids d' = user_ids d" unfolding user_ids_def by (metis set_map)
  with ids keys names s wf show "db_wf d'" by (auto simp: upd_user_def db_wf_def)
qed

lemma keeps_wf_users [keeps_intros]:
  "keeps (db_inv db_wf) (users_Create u)"
  "keeps (db_inv db_wf) (users_CreateTx ex u)"
  "keeps (db_inv db_wf) (users_FindByEmail em t)"
  "keeps (db_inv db_wf) (users_FindByID i)"
  "keeps (db_inv db_wf) (users_ActivateUser i)"
  "keeps (db_inv db_wf) (users_LockoutUser ex i lock)"
  "keeps (db_inv db_wf) (users_ChangePassword ex i h)"
  unfolding users_psql_defs by (intro keeps_intros; simp)+

lemma users_FindByEmail_Some:
  "users_FindByEmail em tn w = (Ok u, w') \<Longrightarrow>
     u \<in> set (users (w_db w)) \<and> u_Email u = em \<and> u_Tenant_ID u = tn \<and> w' = pop w"
  by (auto simp: users_FindByEmail_def QueryRow_Conn_Ok_iff dest: find_Some_in)

text \<open>
  In a well-formed table the account found for an address and tenant is the only one.
\<close>

lemma users_FindByEmail_unique:
  assumes "db_wf (w_db w)" "u \<in> set (users (w_db w))" "next_ok w"
  shows "users_FindByEmail (u_Email u) (u_Tenant_ID u) w = (Ok u, pop w)"
proof -
  have "distinct (map (\<lambda>u. (u_Tenant_ID u, u_Email u)) (users (w_db w)))"
    using assms(1) by (simp add: db_wf_def)
  then have "List.find (\<lambda>v. (u_Tenant_ID v, u_Email v) = (u_Tenant_ID u, u_Email u))
      (users (w_db w)) = Some u"
    using assms(2) by (rule find_key_unique) simp
  then show ?thesis using assms(3) by (simp add: users_FindByEmail_def QueryRow_Conn conj_commute)
qed

end
