(* ===== verification/Refresh_Repo.thy ===== *)
theory Refresh_Repo
  imports Users_Repo
begin

text \<open>
  \<^verbatim>\<open>internal/auth/refresh\<close>: refresh tokens and password-reset tokens, on PostgreSQL and on
  SQLite, with the interface that the rotation of refresh tokens relies on.
\<close>

section \<open>Rows and models\<close>

definition nullableUUID :: "uuid \<Rightarrow> uuid option" where
  "nullableUUID i = (if i = uuid_Nil then None else Some i)"

definition refresh_row_of :: "uuid option \<Rightarrow> RefreshToken \<Rightarrow> refresh_row" where
  "refresh_row_of tenant t =
     \<lparr>rr_token_id = rt_ID t, rr_user_id = rt_UserID t, rr_tenant_id = tenant,
      rr_token_hash = rt_TokenHash t, rr_client_id = rt_ClientID t, rr_family_id = rt_FamilyID t,
      rr_ptoken_id = nullableUUID (rt_ParentToken t), rr_expires_at = rt_ExpiresAt t,
      rr_revoked_at = None, rr_created_at = rt_CreatedAt t\<rparr>"

text \<open>
  The \<^verbatim>\<open>SELECT\<close>s do not read \<^verbatim>\<open>tenant_id\<close>: that field of the model stays zero.
\<close>

definition scan_refresh :: "refresh_row \<Rightarrow> RefreshToken" where
  "scan_refresh r =
     \<lparr>rt_ID = rr_token_id r, rt_UserID = rr_user_id r, rt_TenantID = uuid_Nil,
      rt_TokenHash = rr_token_hash r, rt_ClientID = rr_client_id r,
      rt_ParentToken = (case rr_ptoken_id r of None \<Rightarrow> uuid_Nil | Some p \<Rightarrow> p),
      rt_FamilyID = rr_family_id r, rt_ExpiresAt = rr_expires_at r,
      rt_RevokedAt = rr_revoked_at r, rt_CreatedAt = rr_created_at r\<rparr>"

lemma scan_refresh_simps [simp]:
  "rt_ID (scan_refresh r) = rr_token_id r" "rt_UserID (scan_refresh r) = rr_user_id r"
  "rt_TokenHash (scan_refresh r) = rr_token_hash r" "rt_ClientID (scan_refresh r) = rr_client_id r"
  "rt_FamilyID (scan_refresh r) = rr_family_id r" "rt_ExpiresAt (scan_refresh r) = rr_expires_at r"
  "rt_RevokedAt (scan_refresh r) = rr_revoked_at r" "rt_CreatedAt (scan_refresh r) = rr_created_at r"
  by (simp_all add: scan_refresh_def)

lemma refresh_row_of_simps [simp]:
  "rr_token_id (refresh_row_of tn t) = rt_ID t" "rr_user_id (refresh_row_of tn t) = rt_UserID t"
  "rr_tenant_id (refresh_row_of tn t) = tn" "rr_token_hash (refresh_row_of tn t) = rt_TokenHash t"
  "rr_client_id (refresh_row_of tn t) = rt_ClientID t"
  "rr_family_id (refresh_row_of tn t) = rt_FamilyID t"
  "rr_ptoken_id (refresh_row_of tn t) = nullableUUID (rt_ParentToken t)"
  "rr_expires_at (refresh_row_of tn t) = rt_ExpiresAt t"
  "rr_revoked_at (refresh_row_of tn t) = None" "rr_created_at (refresh_row_of tn t) = rt_CreatedAt t"
  by (simp_all add: refresh_row_of_def)

text \<open>The parent survives the round trip through a nullable column.\<close>

lemma parent_roundtrip:
  "rt_ParentToken (scan_refresh (refresh_row_of tn t)) = rt_ParentToken t"
  by (simp add: scan_refresh_def nullableUUID_def)

section \<open>PostgreSQL (refresh\_repository\_psql.go)\<close>

definition insert_refresh :: "refresh_row \<Rightarrow> stmt" where
  "insert_refresh r t d =
     (if rr_token_id r \<in> rr_token_id ` set (refresh_tokens d)
        then Inl (unique_violation ''refresh_tokens_pkey'')
      else if rr_user_id r \<notin> user_ids d
        then Inl (fk_violation ''refresh_tokens'' ''refresh_tokens_user_id_fkey'')
      else Inr (d\<lparr>refresh_tokens := refresh_tokens d @ [r]\<rparr>))"

definition upd_refresh :: "(refresh_row \<Rightarrow> bool) \<Rightarrow> (time \<Rightarrow> time option) \<Rightarrow> stmt" where
  "upd_refresh p at t d =
     Inr (d\<lparr>refresh_tokens := update_where p (\<lambda>r. r\<lparr>rr_revoked_at := at t\<rparr>) (refresh_tokens d)\<rparr>)"

definition refresh_Create :: "RefreshToken \<Rightarrow> unit M" where
  "refresh_Create t = ExecContext Conn (insert_refresh (refresh_row_of (Some (rt_TenantID t)) t))"

definition refresh_CreateTx :: "exec \<Rightarrow> RefreshToken \<Rightarrow> unit M" where
  "refresh_CreateTx ex t =
     ExecContext ex (insert_refresh (refresh_row_of (Some (rt_TenantID t)) t))"

definition refresh_FindbyHash :: "exec \<Rightarrow> string \<Rightarrow> uuid \<Rightarrow> RefreshToken M" where
  "refresh_FindbyHash ex hash tenant =
     QueryRowContext ex
       (\<lambda>_ d. map_option scan_refresh
          (List.find (\<lambda>r. rr_token_hash r = hash \<and> rr_tenant_id r = Some tenant) (refresh_tokens d)))"

definition refresh_FindValidByHash :: "string \<Rightarrow> uuid \<Rightarrow> RefreshToken M" where
  "refresh_FindValidByHash hash tenant =
     QueryRowContext Conn
       (\<lambda>now d. map_option scan_refresh
          (List.find (\<lambda>r. rr_token_hash r = hash \<and> rr_revoked_at r = None \<and>
             rr_expires_at r > now \<and> rr_tenant_id r = Some tenant) (refresh_tokens d)))"

definition refresh_Revoke :: "exec \<Rightarrow> uuid \<Rightarrow> uuid \<Rightarrow> unit M" where
  "refresh_Revoke ex tokenID tenant =
     bindM time_Now (\<lambda>now.
     ExecContext ex
       (upd_refresh (\<lambda>r. rr_token_id r = tokenID \<and> rr_tenant_id r = Some tenant) (\<lambda>_. Some now)))"

definition refresh_RevokeAllForUser :: "uuid \<Rightarrow> uuid \<Rightarrow> unit M" where
  "refresh_RevokeAllForUser userID tenant =
     ExecContext Conn
       (upd_refresh (\<lambda>r. rr_user_id r = userID \<and> rr_revoked_at r = None \<and>
          rr_tenant_id r = Some tenant) Some)"

definition refresh_RevokeAllForFamily :: "exec \<Rightarrow> uuid \<Rightarrow> uuid \<Rightarrow> unit M" where
  "refresh_RevokeAllForFamily ex familyID tenant =
     ExecContext ex
       (upd_refresh (\<lambda>r. rr_family_id r = familyID \<and> rr_revoked_at r = None \<and>
          rr_tenant_id r = Some tenant) Some)"

subsection \<open>Password-reset tokens\<close>

definition insert_reset :: "PasswordResetToken \<Rightarrow> stmt" where
  "insert_reset p t d =
     (if pr_ID p \<in> pw_token_id ` set (reset_tokens d)
        then Inl (unique_violation ''password_reset_tokens_pkey'')
      else if pr_UserID p \<notin> user_ids d
        then Inl (fk_violation ''password_reset_tokens'' ''password_reset_tokens_user_id_fkey'')
      else Inr (d\<lparr>reset_tokens := reset_tokens d @
        [\<lparr>pw_token_id = pr_ID p, pw_user_id = pr_UserID p, pw_tenant_id = Some (pr_TenantID p),
          pw_token_hash = pr_TokenHash p, pw_expires_at = pr_ExpiresAt p, pw_used_at = None,
          pw_created_at = pr_CreatedAt p, pw_revoked_at = None\<rparr>]\<rparr>))"

definition scan_reset :: "reset_row \<Rightarrow> PasswordResetToken" where
  "scan_reset r =
     \<lparr>pr_ID = pw_token_id r, pr_UserID = pw_user_id r,
      pr_TenantID = (case pw_tenant_id r of None \<Rightarrow> uuid_Nil | Some t \<Rightarrow> t),
      pr_TokenHash = pw_token_hash r, pr_ExpiresAt = pw_expires_at r,
      pr_UsedAt = pw_used_at r, pr_CreatedAt = pw_created_at r\<rparr>"

lemma scan_reset_simps [simp]:
  "pr_ID (scan_reset r) = pw_token_id r" "pr_UserID (scan_reset r) = pw_user_id r"
  "pr_TokenHash (scan_reset r) = pw_token_hash r" "pr_ExpiresAt (scan_reset r) = pw_expires_at r"
  "pr_UsedAt (scan_reset r) = pw_used_at r"
  by (simp_all add: scan_reset_def)

definition refresh_CreateResetTokenTx :: "exec \<Rightarrow> PasswordResetToken \<Rightarrow> unit M" where
  "refresh_CreateResetTokenTx ex p = ExecContext ex (insert_reset p)"

definition reset_valid :: "string \<Rightarrow> uuid \<Rightarrow> time \<Rightarrow> reset_row \<Rightarrow> bool" where
  "reset_valid hash tenant now r \<longleftrightarrow>
     pw_token_hash r = hash \<and> pw_tenant_id r = Some tenant \<and> pw_used_at r = None \<and>
     pw_expires_at r > now"

definition refresh_FindValidResetTokenTx :: "exec \<Rightarrow> string \<Rightarrow> uuid \<Rightarrow> PasswordResetToken M" where
  "refresh_FindValidResetTokenTx ex hash tenant =
     QueryRowContext ex
       (\<lambda>now d. map_option scan_reset (List.find (reset_valid hash tenant now) (reset_tokens d)))"

definition upd_reset :: "(time \<Rightarrow> reset_row \<Rightarrow> bool) \<Rightarrow> (reset_row \<Rightarrow> reset_row) \<Rightarrow> stmt" where
  "upd_reset p f t d = Inr (d\<lparr>reset_tokens := update_where (p t) f (reset_tokens d)\<rparr>)"

definition refresh_RevokePreviousResetTokens :: "exec \<Rightarrow> uuid \<Rightarrow> uuid \<Rightarrow> unit M" where
  "refresh_RevokePreviousResetTokens ex tenant user =
     bindM time_Now (\<lambda>now.
     ExecContext ex
       (upd_reset (\<lambda>t r. pw_user_id r = user \<and> pw_tenant_id r = Some tenant \<and>
            pw_used_at r = None \<and> pw_expires_at r > t)
          (\<lambda>r. r\<lparr>pw_revoked_at := Some now\<rparr>)))"

definition refresh_MarkResetTokenUsedTx :: "exec \<Rightarrow> uuid \<Rightarrow> unit M" where
  "refresh_MarkResetTokenUsedTx ex tokenID =
     bindM time_Now (\<lambda>usedAt.
     ExecContext ex (upd_reset (\<lambda>_ r. pw_token_id r = tokenID) (\<lambda>r. r\<lparr>pw_used_at := Some usedAt\<rparr>)))"

lemmas refresh_psql_defs [call_defs] =
  refresh_Create_def refresh_CreateTx_def refresh_FindbyHash_def refresh_FindValidByHash_def
  refresh_Revoke_def refresh_RevokeAllForUser_def refresh_RevokeAllForFamily_def
  refresh_CreateResetTokenTx_def refresh_FindValidResetTokenTx_def
  refresh_RevokePreviousResetTokens_def refresh_MarkResetTokenUsedTx_def

section \<open>SQLite (refresh\_repository\_sqlite.go)\<close>

text \<open>No tenant column, no tenant filter, and no password reset.\<close>

definition ErrResetUnsupported :: err where
  "ErrResetUnsupported = ErrOther ''password reset is not supported on the sqlite driver''"

definition insert_refresh_sqlite :: "refresh_row \<Rightarrow> stmt" where
  "insert_refresh_sqlite r t d =
     (if rr_token_id r \<in> rr_token_id ` set (refresh_tokens d)
        then Inl (sqlite_unique ''refresh_tokens.token_id'')
      else Inr (d\<lparr>refresh_tokens := refresh_tokens d @ [r]\<rparr>))"

definition refresh_Create_sqlite :: "RefreshToken \<Rightarrow> unit M" where
  "refresh_Create_sqlite t = ExecContext Conn (insert_refresh_sqlite (refresh_row_of None t))"

definition refresh_CreateTx_sqlite :: "exec \<Rightarrow> RefreshToken \<Rightarrow> unit M" where
  "refresh_CreateTx_sqlite ex t = ExecContext ex (insert_refresh_sqlite (refresh_row_of None t))"

definition refresh_FindbyHash_sqlite :: "exec \<Rightarrow> string \<Rightarrow> uuid \<Rightarrow> RefreshToken M" where
  "refresh_FindbyHash_sqlite ex hash tenant =
     QueryRowContext ex
       (\<lambda>_ d. map_option scan_refresh (List.find (\<lambda>r. rr_token_hash r = hash) (refresh_tokens d)))"

definition refresh_FindValidByHash_sqlite :: "string \<Rightarrow> uuid \<Rightarrow> RefreshToken M" where
  "refresh_FindValidByHash_sqlite hash tenant =
     bindM time_Now (\<lambda>now.
     QueryRowContext Conn
       (\<lambda>_ d. map_option scan_refresh
          (List.find (\<lambda>r. rr_token_hash r = hash \<and> rr_revoked_at r = None \<and> rr_expires_at r > now)
             (refresh_tokens d))))"

definition refresh_Revoke_sqlite :: "exec \<Rightarrow> uuid \<Rightarrow> uuid \<Rightarrow> unit M" where
  "refresh_Revoke_sqlite ex tokenID tenant =
     bindM time_Now (\<lambda>now.
     ExecContext ex (upd_refresh (\<lambda>r. rr_token_id r = tokenID) (\<lambda>_. Some now)))"

text \<open>\<^verbatim>\<open>CURRENT_TIMESTAMP\<close> of SQLite is the time of the statement, in whole seconds, also inside a transaction.\<close>

definition CURRENT_TIMESTAMP :: "time M" where
  "CURRENT_TIMESTAMP = gets (\<lambda>w. Unix (w_now w) * Second)"

definition refresh_RevokeAllForUser_sqlite :: "uuid \<Rightarrow> uuid \<Rightarrow> unit M" where
  "refresh_RevokeAllForUser_sqlite userID tenant =
     bindM CURRENT_TIMESTAMP (\<lambda>now.
     ExecContext Conn (upd_refresh (\<lambda>r. rr_user_id r = userID \<and> rr_revoked_at r = None) (\<lambda>_. Some now)))"

definition refresh_RevokeAllForFamily_sqlite :: "exec \<Rightarrow> uuid \<Rightarrow> uuid \<Rightarrow> unit M" where
  "refresh_RevokeAllForFamily_sqlite ex familyID tenant =
     bindM CURRENT_TIMESTAMP (\<lambda>now.
     ExecContext ex (upd_refresh (\<lambda>r. rr_family_id r = familyID \<and> rr_revoked_at r = None) (\<lambda>_. Some now)))"

definition refresh_CreateResetTokenTx_sqlite :: "exec \<Rightarrow> PasswordResetToken \<Rightarrow> unit M" where
  "refresh_CreateResetTokenTx_sqlite ex p = ret ()"

definition refresh_FindValidResetTokenTx_sqlite ::
  "exec \<Rightarrow> string \<Rightarrow> uuid \<Rightarrow> PasswordResetToken M" where
  "refresh_FindValidResetTokenTx_sqlite ex hash tenant = throw ErrResetUnsupported"

definition refresh_RevokePreviousResetTokens_sqlite :: "exec \<Rightarrow> uuid \<Rightarrow> uuid \<Rightarrow> unit M" where
  "refresh_RevokePreviousResetTokens_sqlite ex tenant user = throw ErrResetUnsupported"

definition refresh_MarkResetTokenUsedTx_sqlite :: "exec \<Rightarrow> uuid \<Rightarrow> unit M" where
  "refresh_MarkResetTokenUsedTx_sqlite ex tokenID = throw ErrResetUnsupported"

lemmas refresh_sqlite_defs [call_defs] =
  refresh_Create_sqlite_def refresh_CreateTx_sqlite_def refresh_FindbyHash_sqlite_def
  refresh_FindValidByHash_sqlite_def refresh_Revoke_sqlite_def
  refresh_RevokeAllForUser_sqlite_def refresh_RevokeAllForFamily_sqlite_def

definition NewRefreshRepo :: "string \<Rightarrow> (err, driver) res" where
  "NewRefreshRepo driver =
     (case select_driver driver of
        Some Sqlite \<Rightarrow> Ok Sqlite
      | Some Postgres \<Rightarrow> Ok Postgres
      | None \<Rightarrow> Panic ''unsupported database driver'')"

section \<open>The interface\<close>

text \<open>
  The contract of \<^verbatim>\<open>RefreshTokenRepository\<close> inside a transaction: a stored token is found
  again and is not revoked; a revoked one is found revoked; revoking a family revokes every
  token of it that can be found.
\<close>

locale refresh_repository =
  fixes create :: "RefreshToken \<Rightarrow> unit M"
    and find :: "string \<Rightarrow> uuid \<Rightarrow> RefreshToken M"
    and revoke :: "uuid \<Rightarrow> uuid \<Rightarrow> unit M"
    and revoke_family :: "uuid \<Rightarrow> uuid \<Rightarrow> unit M"
  assumes create_find:
      "find (rt_TokenHash t) (rt_TenantID t) w = (Err ErrNoRows, w0) \<Longrightarrow> next_ok w \<Longrightarrow>
       create t w0 = (Ok (), w1) \<Longrightarrow> next_ok w1 \<Longrightarrow>
       \<exists>t'. find (rt_TokenHash t) (rt_TenantID t) w1 = (Ok t', pop w1) \<and> rt_ID t' = rt_ID t \<and>
            rt_UserID t' = rt_UserID t \<and> rt_FamilyID t' = rt_FamilyID t \<and>
            rt_ParentToken t' = rt_ParentToken t \<and> rt_RevokedAt t' = None"
    and revoke_find:
      "find h tn w = (Ok t, w0) \<Longrightarrow> revoke (rt_ID t) tn w0 = (Ok (), w1) \<Longrightarrow> next_ok w1 \<Longrightarrow>
       \<exists>t'. find h tn w1 = (Ok t', pop w1) \<and> rt_ID t' = rt_ID t \<and>
            rt_FamilyID t' = rt_FamilyID t \<and> rt_RevokedAt t' \<noteq> None"
    and revoke_family_find:
      "find h tn w = (Ok t, w0) \<Longrightarrow> revoke_family (rt_FamilyID t) tn w0 = (Ok (), w1) \<Longrightarrow>
       next_ok w1 \<Longrightarrow>
       \<exists>t'. find h tn w1 = (Ok t', pop w1) \<and> rt_ID t' = rt_ID t \<and> rt_RevokedAt t' \<noteq> None"
begin

text \<open>A token stored and then revoked with its family cannot be taken for a live one.\<close>

lemma create_revoke_family_dead:
  assumes "find (rt_TokenHash t) (rt_TenantID t) w = (Err ErrNoRows, w0)" "next_ok w"
    and "create t w0 = (Ok (), w1)" "next_ok w1"
    and "revoke_family (rt_FamilyID t) (rt_TenantID t) (pop w1) = (Ok (), w2)" "next_ok w2"
  shows "\<exists>t'. find (rt_TokenHash t) (rt_TenantID t) w2 = (Ok t', pop w2) \<and>
    rt_ID t' = rt_ID t \<and> rt_RevokedAt t' \<noteq> None"
proof -
  obtain t' where "find (rt_TokenHash t) (rt_TenantID t) w1 = (Ok t', pop w1)"
    "rt_ID t' = rt_ID t" "rt_FamilyID t' = rt_FamilyID t"
    using create_find[OF assms(1-4)] by auto
  with revoke_family_find[of _ _ w1 t' "pop w1" w2] assms(5,6) show ?thesis by auto
qed

end

lemma find_upd_refresh:
  assumes "\<And>r at. q (r\<lparr>rr_revoked_at := at\<rparr>) = q r"
  shows "List.find q (update_where p (\<lambda>r. r\<lparr>rr_revoked_at := at\<rparr>) rs) =
    map_option (\<lambda>r. if p r then r\<lparr>rr_revoked_at := at\<rparr> else r) (List.find q rs)"
  by (rule find_update_where) (simp add: assms)

lemma refresh_FindbyHash_Tx_Ok_iff:
  "refresh_FindbyHash Tx h tn w = (Ok t, w') \<longleftrightarrow>
     next_ok w \<and> w' = pop w \<and>
     (\<exists>ta d r. w_tx w = Some (ta, d) \<and> t = scan_refresh r \<and>
        List.find (\<lambda>r. rr_token_hash r = h \<and> rr_tenant_id r = Some tn) (refresh_tokens d) = Some r)"
  by (auto simp: refresh_FindbyHash_def QueryRow_Tx split: option.splits)

lemma refresh_FindbyHash_sqlite_Tx_Ok_iff:
  "refresh_FindbyHash_sqlite Tx h tn w = (Ok t, w') \<longleftrightarrow>
     next_ok w \<and> w' = pop w \<and>
     (\<exists>ta d r. w_tx w = Some (ta, d) \<and> t = scan_refresh r \<and>
        List.find (\<lambda>r. rr_token_hash r = h) (refresh_tokens d) = Some r)"
  by (auto simp: refresh_FindbyHash_sqlite_def QueryRow_Tx split: option.splits)

interpretation psql_refresh: refresh_repository "refresh_CreateTx Tx" "refresh_FindbyHash Tx"
  "refresh_Revoke Tx" "refresh_RevokeAllForFamily Tx"
proof (unfold_locales, goal_cases)
  case (1 t w w0 w1)
  then show ?case
    by (auto simp: refresh_psql_defs QueryRow_Tx ExecContext_Tx_Ok_iff insert_refresh_def find_append
        parent_roundtrip split: if_splits option.splits)
next
  case (2 h tn w t w0 w1)
  then show ?case
    by (auto simp: refresh_FindbyHash_Tx_Ok_iff refresh_Revoke_def ExecContext_Tx_Ok_iff
        bindM_Ok_iff time_Now_eq upd_refresh_def find_upd_refresh dest: find_Some_in)
next
  case (3 h tn w t w0 w1)
  then show ?case
    by (auto simp: refresh_FindbyHash_Tx_Ok_iff refresh_RevokeAllForFamily_def ExecContext_Tx_Ok_iff
        upd_refresh_def find_upd_refresh dest: find_Some_in)
qed

interpretation sqlite_refresh: refresh_repository "refresh_CreateTx_sqlite Tx"
  "refresh_FindbyHash_sqlite Tx" "refresh_Revoke_sqlite Tx" "refresh_RevokeAllForFamily_sqlite Tx"
proof (unfold_locales, goal_cases)
  case (1 t w w0 w1)
  then show ?case
    by (auto simp: refresh_sqlite_defs QueryRow_Tx ExecContext_Tx_Ok_iff insert_refresh_sqlite_def
        find_append parent_roundtrip split: if_splits option.splits)
next
  case (2 h tn w t w0 w1)
  then show ?case
    by (auto simp: refresh_FindbyHash_sqlite_Tx_Ok_iff refresh_Revoke_sqlite_def
        ExecContext_Tx_Ok_iff bindM_Ok_iff time_Now_eq upd_refresh_def find_upd_refresh
        dest: find_Some_in)
next
  case (3 h tn w t w0 w1)
  then show ?case
    by (auto simp: refresh_FindbyHash_sqlite_Tx_Ok_iff refresh_RevokeAllForFamily_sqlite_def CURRENT_TIMESTAMP_def bindM_Ok_iff
        ExecContext_Tx_Ok_iff upd_refresh_def find_upd_refresh dest: find_Some_in)
qed

section \<open>Table integrity\<close>

lemma insert_refresh_wf [keeps_intros]: "stmt_keeps db_wf (insert_refresh r)"
  by (rule stmt_keeps_caseI) (simp add: insert_refresh_def db_wf_def user_ids_def)

lemma upd_refresh_wf [keeps_intros]: "stmt_keeps db_wf (upd_refresh p f)"
  by (rule stmt_keepsI)
    (auto simp: upd_refresh_def db_wf_def user_ids_def map_update_where in_update_where_iff
      split: if_splits)

lemma insert_reset_wf [keeps_intros]: "stmt_keeps db_wf (insert_reset p)"
  by (rule stmt_keeps_caseI) (simp add: insert_reset_def db_wf_def user_ids_def)

lemma upd_reset_wf [keeps_intros]:
  assumes "\<And>r. pw_token_id (f r) = pw_token_id r" "\<And>r. pw_user_id (f r) = pw_user_id r"
  shows "stmt_keeps db_wf (upd_reset p f)"
  by (rule stmt_keepsI)
    (auto simp: upd_reset_def db_wf_def user_ids_def map_update_where in_update_where_iff assms
      split: if_splits)

lemma keeps_wf_refresh [keeps_intros]:
  "keeps (db_inv db_wf) (refresh_Create t)"
  "keeps (db_inv db_wf) (refresh_CreateTx ex t)"
  "keeps (db_inv db_wf) (refresh_FindbyHash ex h tn)"
  "keeps (db_inv db_wf) (refresh_FindValidByHash h tn)"
  "keeps (db_inv db_wf) (refresh_Revoke ex i tn)"
  "keeps (db_inv db_wf) (refresh_RevokeAllForUser i tn)"
  "keeps (db_inv db_wf) (refresh_RevokeAllForFamily ex i tn)"
  "keeps (db_inv db_wf) (refresh_CreateResetTokenTx ex p)"
  "keeps (db_inv db_wf) (refresh_FindValidResetTokenTx ex h tn)"
  "keeps (db_inv db_wf) (refresh_RevokePreviousResetTokens ex tn i)"
  "keeps (db_inv db_wf) (refresh_MarkResetTokenUsedTx ex i)"
  unfolding refresh_psql_defs by (intro keeps_intros; simp)+

end
