(* ===== verification/Email_Repo.thy ===== *)
theory Email_Repo
  imports Users_Repo
begin

text \<open>
  \<^verbatim>\<open>internal/auth/mail\<close>: the repository of e-mail verification tokens (PostgreSQL and SQLite) and
  the mailer, with the interface the verification flow relies on.
\<close>

section \<open>Verification tokens (email\_repository\_psql.go)\<close>

definition insert_email :: "EmailVerificationToken \<Rightarrow> stmt" where
  "insert_email e t d =
     (if ev_ID e \<in> ev_ID ` set (email_tokens d)
        then Inl (unique_violation ''email_verification_tokens_pkey'')
      else if ev_UserID e \<notin> user_ids d
        then Inl (fk_violation ''email_verification_tokens'' ''email_verification_tokens_user_id_fkey'')
      else Inr (d\<lparr>email_tokens := email_tokens d @ [e\<lparr>ev_UsedAt := None\<rparr>]\<rparr>))"

definition email_Create :: "EmailVerificationToken \<Rightarrow> unit M" where
  "email_Create e = ExecContext Conn (insert_email e)"

definition email_CreateTx :: "exec \<Rightarrow> EmailVerificationToken \<Rightarrow> unit M" where
  "email_CreateTx ex e = ExecContext ex (insert_email e)"

definition email_FindValidByHash :: "string \<Rightarrow> EmailVerificationToken M" where
  "email_FindValidByHash hash =
     mapErr (\<lambda>e. if e = ErrNoRows then ErrOther ''invalid token'' else e)
       (QueryRowContext Conn
          (\<lambda>now d. List.find (\<lambda>e. ev_TokenHash e = hash \<and> ev_UsedAt e = None \<and> ev_ExpiresAt e > now)
             (email_tokens d)))"

definition email_MarkUsed :: "uuid \<Rightarrow> time \<Rightarrow> unit M" where
  "email_MarkUsed tokenID usedAt =
     ExecContext Conn
       (\<lambda>_ d. Inr (d\<lparr>email_tokens :=
          update_where (\<lambda>e. ev_ID e = tokenID) (\<lambda>e. e\<lparr>ev_UsedAt := Some usedAt\<rparr>) (email_tokens d)\<rparr>))"

definition email_DeleteAllForUser :: "uuid \<Rightarrow> unit M" where
  "email_DeleteAllForUser userID =
     ExecContext Conn
       (\<lambda>_ d. Inr (d\<lparr>email_tokens := filter (\<lambda>e. ev_UserID e \<noteq> userID) (email_tokens d)\<rparr>))"

definition email_DeleteByUserID :: "uuid \<Rightarrow> unit M" where
  "email_DeleteByUserID userID =
     ExecContext Conn
       (\<lambda>_ d. Inr (d\<lparr>email_tokens := filter (\<lambda>e. ev_UserID e \<noteq> userID) (email_tokens d)\<rparr>))"

lemmas email_defs [call_defs] =
  email_Create_def email_CreateTx_def email_FindValidByHash_def email_MarkUsed_def
  email_DeleteAllForUser_def email_DeleteByUserID_def

section \<open>SQLite (email\_repository\_sqlite.go)\<close>

text \<open>
  Foreign keys are not enforced (SQLite's default), and \<^verbatim>\<open>CURRENT_TIMESTAMP\<close> has whole seconds.
\<close>

definition insert_email_sqlite :: "EmailVerificationToken \<Rightarrow> stmt" where
  "insert_email_sqlite e t d =
     (if ev_ID e \<in> ev_ID ` set (email_tokens d)
        then Inl (sqlite_unique ''email_verification_tokens.token_id'')
      else Inr (d\<lparr>email_tokens := email_tokens d @ [e\<lparr>ev_UsedAt := None\<rparr>]\<rparr>))"

definition email_Create_sqlite :: "EmailVerificationToken \<Rightarrow> unit M" where
  "email_Create_sqlite e = ExecContext Conn (insert_email_sqlite e)"

definition email_CreateTx_sqlite :: "exec \<Rightarrow> EmailVerificationToken \<Rightarrow> unit M" where
  "email_CreateTx_sqlite ex e = ExecContext ex (insert_email_sqlite e)"

definition email_FindValidByHash_sqlite :: "string \<Rightarrow> EmailVerificationToken M" where
  "email_FindValidByHash_sqlite hash =
     mapErr (\<lambda>e. if e = ErrNoRows then ErrOther ''invalid token'' else e)
       (QueryRowContext Conn
          (\<lambda>now d. List.find (\<lambda>e. ev_TokenHash e = hash \<and> ev_UsedAt e = None \<and> ev_ExpiresAt e > Unix now * Second)
             (email_tokens d)))"

definition email_MarkUsed_sqlite :: "uuid \<Rightarrow> time \<Rightarrow> unit M" where
  "email_MarkUsed_sqlite tokenID usedAt =
     ExecContext Conn
       (\<lambda>_ d. Inr (d\<lparr>email_tokens :=
          update_where (\<lambda>e. ev_ID e = tokenID) (\<lambda>e. e\<lparr>ev_UsedAt := Some usedAt\<rparr>) (email_tokens d)\<rparr>))"

definition email_DeleteAllForUser_sqlite :: "uuid \<Rightarrow> unit M" where
  "email_DeleteAllForUser_sqlite userID =
     ExecContext Conn
       (\<lambda>_ d. Inr (d\<lparr>email_tokens := filter (\<lambda>e. ev_UserID e \<noteq> userID) (email_tokens d)\<rparr>))"

definition email_DeleteByUserID_sqlite :: "uuid \<Rightarrow> unit M" where
  "email_DeleteByUserID_sqlite userID =
     ExecContext Conn
       (\<lambda>_ d. Inr (d\<lparr>email_tokens := filter (\<lambda>e. ev_UserID e \<noteq> userID) (email_tokens d)\<rparr>))"

lemmas email_sqlite_defs [call_defs] =
  email_Create_sqlite_def email_CreateTx_sqlite_def email_FindValidByHash_sqlite_def
  email_MarkUsed_sqlite_def email_DeleteAllForUser_sqlite_def email_DeleteByUserID_sqlite_def

definition NewEmailVerificationRepo :: "string \<Rightarrow> (err, driver) res" where
  "NewEmailVerificationRepo driver =
     (case select_driver driver of
        Some Sqlite \<Rightarrow> Ok Sqlite
      | Some Postgres \<Rightarrow> Ok Postgres
      | None \<Rightarrow> Panic ''unsupported database driver'')"

section \<open>The mailer (mailer.go)\<close>

text \<open>\<^verbatim>\<open>SendVerificationEmail\<close>: the mail is handed to the SMTP server, or that fails.\<close>

definition SendVerificationEmail :: "string \<Rightarrow> string \<Rightarrow> unit M" where
  "SendVerificationEmail to token w =
     (case w_mail_faults w of
        [] \<Rightarrow> (Ok (), w\<lparr>w_mail := w_mail w @ [(to, token)]\<rparr>)
      | None # fs \<Rightarrow> (Ok (), w\<lparr>w_mail := w_mail w @ [(to, token)], w_mail_faults := fs\<rparr>)
      | Some e # fs \<Rightarrow> (Err (ErrOther e), w\<lparr>w_mail_faults := fs\<rparr>))"

lemma keeps_mail [keeps_intros]:
  "keeps (db_inv J) (SendVerificationEmail to token)"
  "keeps (committed_is d) (SendVerificationEmail to token)"
  by (auto simp: keeps_def SendVerificationEmail_def split: list.splits option.splits)

section \<open>The interface\<close>

text \<open>
  A stored token is found by its hash while it is fresh; a token marked used is never found
  again; nor is any token of a user whose tokens were deleted.
\<close>

locale verification_repository =
  fixes create :: "EmailVerificationToken \<Rightarrow> unit M"
    and find_valid :: "string \<Rightarrow> EmailVerificationToken M"
    and mark_used :: "uuid \<Rightarrow> time \<Rightarrow> unit M"
    and delete_all :: "uuid \<Rightarrow> unit M"
  assumes create_find:
      "create e w = (Ok (), w1) \<Longrightarrow> next_ok w1 \<Longrightarrow> ev_ExpiresAt e > w_now w1 \<Longrightarrow>
         \<exists>f. find_valid (ev_TokenHash e) w1 = (Ok f, pop w1)"
    and mark_used_find:
      "mark_used i t w = (Ok (), w1) \<Longrightarrow> find_valid h w1 = (Ok f, w2) \<Longrightarrow> ev_ID f \<noteq> i"
    and delete_find:
      "delete_all u w = (Ok (), w1) \<Longrightarrow> find_valid h w1 = (Ok f, w2) \<Longrightarrow> ev_UserID f \<noteq> u"
    and find_sound:
      "find_valid h w = (Ok f, w1) \<Longrightarrow>
         ev_TokenHash f = h \<and> ev_UsedAt f = None \<and> ev_ExpiresAt f > Unix (w_now w) * Second \<and> w1 = pop w"
begin

text \<open>
  One-time use: once a token was found and marked used, a second lookup by the same hash
  can only return another token that was itself never used.
\<close>

lemma one_time:
  assumes "find_valid h w = (Ok f, w0)" "mark_used (ev_ID f) t w0' = (Ok (), w1)"
    and "find_valid h w1 = (Ok g, w2)"
  shows "ev_ID g \<noteq> ev_ID f \<and> ev_TokenHash g = ev_TokenHash f \<and> ev_UsedAt g = None"
  using mark_used_find[OF assms(2,3)] find_sound[OF assms(1)] find_sound[OF assms(3)] by simp

end

lemma find_append_Some:
  "p x \<Longrightarrow> \<exists>y. List.find p (xs @ [x]) = Some y"
  by (induction xs) auto

lemma marked_not_valid:
  "f \<in> set (update_where (\<lambda>e. ev_ID e = i) (\<lambda>e. e\<lparr>ev_UsedAt := Some t\<rparr>) es) \<Longrightarrow>
     ev_UsedAt f = None \<Longrightarrow> ev_ID f \<noteq> i"
  by (induction es) (auto split: if_splits)

lemma email_FindValid_Ok:
  "email_FindValidByHash h w = (Ok f, w1) \<Longrightarrow>
     f \<in> set (email_tokens (w_db w)) \<and> ev_TokenHash f = h \<and> ev_UsedAt f = None \<and>
     ev_ExpiresAt f > w_now w \<and> w1 = pop w"
  by (auto simp: email_FindValidByHash_def mapErr_Ok_iff QueryRow_Conn_Ok_iff dest!: find_Some_in)

lemma email_MarkUsed_Ok:
  "email_MarkUsed i t w = (Ok x, w1) \<Longrightarrow>
     email_tokens (w_db w1) =
       update_where (\<lambda>e. ev_ID e = i) (\<lambda>e. e\<lparr>ev_UsedAt := Some t\<rparr>) (email_tokens (w_db w))"
  by (auto simp: email_MarkUsed_def ExecContext_Conn_Ok_iff)

interpretation psql_email: verification_repository email_Create email_FindValidByHash
  email_MarkUsed email_DeleteByUserID
proof (unfold_locales, goal_cases)
  case (1 e w w1)
  then obtain d where d: "w_db w1 = d" "email_tokens d = email_tokens (w_db w) @ [e\<lparr>ev_UsedAt := None\<rparr>]"
    by (auto simp: email_defs ExecContext_Conn_Ok_iff insert_email_def split: if_splits)
  with 1 find_append_Some[of "\<lambda>f. ev_TokenHash f = ev_TokenHash e \<and> ev_UsedAt f = None \<and>
      ev_ExpiresAt f > w_now w1" "e\<lparr>ev_UsedAt := None\<rparr>" "email_tokens (w_db w)"]
  show ?case by (auto simp: email_FindValidByHash_def mapErr_Ok_iff QueryRow_Conn_Ok_iff)
next
  case (2 i t w w1 h f w2)
  from email_FindValid_Ok[OF 2(2)] email_MarkUsed_Ok[OF 2(1)] show ?case
    using marked_not_valid[of f i t "email_tokens (w_db w)"] by simp
next
  case (3 u w w1 h f w2)
  from email_FindValid_Ok[OF 3(2)] 3(1) show ?case
    by (auto simp: email_DeleteByUserID_def ExecContext_Conn_Ok_iff)
next
  case (4 h w f w1)
  then show ?case using Unix_le[of "w_now w"] by (auto dest!: email_FindValid_Ok)
qed

lemma email_FindValid_sqlite_Ok:
  "email_FindValidByHash_sqlite h w = (Ok f, w1) \<Longrightarrow>
     f \<in> set (email_tokens (w_db w)) \<and> ev_TokenHash f = h \<and> ev_UsedAt f = None \<and>
     ev_ExpiresAt f > Unix (w_now w) * Second \<and> w1 = pop w"
  by (auto simp: email_FindValidByHash_sqlite_def mapErr_Ok_iff QueryRow_Conn_Ok_iff dest!: find_Some_in)

interpretation sqlite_email: verification_repository email_Create_sqlite email_FindValidByHash_sqlite
  email_MarkUsed_sqlite email_DeleteByUserID_sqlite
proof (unfold_locales, goal_cases)
  case (1 e w w1)
  then obtain d where d: "w_db w1 = d" "email_tokens d = email_tokens (w_db w) @ [e\<lparr>ev_UsedAt := None\<rparr>]"
    by (auto simp: email_sqlite_defs ExecContext_Conn_Ok_iff insert_email_sqlite_def split: if_splits)
  with 1 Unix_le[of "w_now w1"] find_append_Some[of "\<lambda>f. ev_TokenHash f = ev_TokenHash e \<and> ev_UsedAt f = None \<and>
      ev_ExpiresAt f > Unix (w_now w1) * Second" "e\<lparr>ev_UsedAt := None\<rparr>" "email_tokens (w_db w)"]
  show ?case by (auto simp: email_FindValidByHash_sqlite_def mapErr_Ok_iff QueryRow_Conn_Ok_iff)
next
  case (2 i t w w1 h f w2)
  from email_FindValid_sqlite_Ok[OF 2(2)] 2(1) show ?case
    using marked_not_valid[of f i t "email_tokens (w_db w)"]
    by (auto simp: email_MarkUsed_sqlite_def ExecContext_Conn_Ok_iff)
next
  case (3 u w w1 h f w2)
  from email_FindValid_sqlite_Ok[OF 3(2)] 3(1) show ?case
    by (auto simp: email_DeleteByUserID_sqlite_def ExecContext_Conn_Ok_iff)
next
  case (4 h w f w1)
  then show ?case by (auto dest!: email_FindValid_sqlite_Ok)
qed

section \<open>Table integrity\<close>

lemma insert_email_wf [keeps_intros]: "stmt_keeps db_wf (insert_email e)"
  by (rule stmt_keeps_caseI) (simp add: insert_email_def db_wf_def user_ids_def)

lemma filter_email_wf [keeps_intros]:
  "stmt_keeps db_wf (\<lambda>_ d. Inr (d\<lparr>email_tokens := filter p (email_tokens d)\<rparr>))"
  by (rule stmt_keeps_caseI) (auto simp: db_wf_def user_ids_def distinct_map_filter)

lemma mark_email_wf [keeps_intros]:
  "stmt_keeps db_wf (\<lambda>_ d. Inr (d\<lparr>email_tokens :=
     update_where p (\<lambda>e. e\<lparr>ev_UsedAt := x\<rparr>) (email_tokens d)\<rparr>))"
  by (rule stmt_keeps_caseI)
    (auto simp: db_wf_def user_ids_def map_update_where in_update_where_iff)

lemma keeps_wf_email [keeps_intros]:
  "keeps (db_inv db_wf) (email_Create e)"
  "keeps (db_inv db_wf) (email_CreateTx ex e)"
  "keeps (db_inv db_wf) (email_FindValidByHash h)"
  "keeps (db_inv db_wf) (email_MarkUsed i t)"
  "keeps (db_inv db_wf) (email_DeleteAllForUser u)"
  "keeps (db_inv db_wf) (email_DeleteByUserID u)"
  unfolding email_defs by (intro keeps_intros)+

end
