(* ===== verification/Tenants_Repo.thy ===== *)
theory Tenants_Repo
  imports Users_Repo
begin

text \<open>
  \<^verbatim>\<open>internal/auth/tenants\<close>: read access to tenants on PostgreSQL and SQLite.
\<close>

section \<open>Scanning a row\<close>

text \<open>
  \<^verbatim>\<open>json.Unmarshal\<close> into a \<^verbatim>\<open>[]string\<close>: \<^verbatim>\<open>null\<close> leaves the slice (or the element) at its
  zero value, anything but an array of strings is an error.
\<close>

fun json_string :: "json \<Rightarrow> err + string" where
  "json_string (JStr s) = Inr s"
| "json_string JNull = Inr []"
| "json_string _ = Inl (ErrOther ''json: cannot unmarshal into Go value of type string'')"

fun json_strings :: "json list \<Rightarrow> err + string list" where
  "json_strings [] = Inr []"
| "json_strings (j # js) =
     (case json_string j of
        Inl e \<Rightarrow> Inl e
      | Inr s \<Rightarrow> (case json_strings js of Inl e \<Rightarrow> Inl e | Inr ss \<Rightarrow> Inr (s # ss)))"

fun json_string_slice :: "json \<Rightarrow> err + string list" where
  "json_string_slice JNull = Inr []"
| "json_string_slice (JArr js) = json_strings js"
| "json_string_slice _ = Inl (ErrOther ''json: cannot unmarshal into Go value of type []string'')"

definition scanTenant :: "tenant_row \<Rightarrow> err + Tenant" where
  "scanTenant r =
     (case (case tn_allowed_origins r of None \<Rightarrow> Inr [] | Some j \<Rightarrow> json_string_slice j) of
        Inl e \<Rightarrow> Inl e
      | Inr origins \<Rightarrow>
          Inr \<lparr>t_ID = tn_tenant_id r, t_TenantName = tn_tenant_name r,
               t_Name = (case tn_name r of None \<Rightarrow> [] | Some n \<Rightarrow> n), t_URL = tn_url r,
               t_Email = tn_email r, t_Status = tn_status r, t_PublicKey = tn_public_key r,
               t_APIKeyHash = tn_api_key_hash r, t_AllowedOrigins = origins,
               t_CreatedAt = tn_created_at r, t_UpdatedAt = tn_updated_at r\<rparr>)"

text \<open>
  \<^verbatim>\<open>scanSQLiteTenant\<close> differs in the way the column is read (a nullable string), not in
  the outcome.
\<close>

definition scanSQLiteTenant :: "tenant_row \<Rightarrow> err + Tenant" where
  "scanSQLiteTenant r = scanTenant r"

section \<open>Queries\<close>

definition tenants_FindByTenantName :: "string \<Rightarrow> Tenant M" where
  "tenants_FindByTenantName tenantName =
     bindM (QueryRowContext Conn (\<lambda>_ d. List.find (\<lambda>r. tn_tenant_name r = tenantName) (tenants d)))
       (\<lambda>r. ret_sum (scanTenant r))"

text \<open>The database parses the identifier; a malformed one is a database error.\<close>

definition tenants_FindByID :: "(string \<Rightarrow> uuid option) \<Rightarrow> string \<Rightarrow> Tenant M" where
  "tenants_FindByID parse i =
     bindM (case parse i of
              None \<Rightarrow> bindM db_roundtrip
                (\<lambda>_. throw (ErrOther ''ERROR: invalid input syntax for type uuid (SQLSTATE 22P02)''))
            | Some u \<Rightarrow> QueryRowContext Conn (\<lambda>_ d. List.find (\<lambda>r. tn_tenant_id r = u) (tenants d)))
       (\<lambda>r. ret_sum (scanTenant r))"

definition tenants_FindByTenantName_sqlite :: "string \<Rightarrow> Tenant M" where
  "tenants_FindByTenantName_sqlite tenantName =
     bindM (QueryRowContext Conn (\<lambda>_ d. List.find (\<lambda>r. tn_tenant_name r = tenantName) (tenants d)))
       (\<lambda>r. ret_sum (scanSQLiteTenant r))"

definition NewTenantRepo :: "string \<Rightarrow> (err, driver) res" where
  "NewTenantRepo driver =
     (case select_driver driver of
        Some Sqlite \<Rightarrow> Ok Sqlite
      | Some Postgres \<Rightarrow> Ok Postgres
      | None \<Rightarrow> Panic ''unsupported database driver'')"

lemmas tenants_defs [call_defs] =
  tenants_FindByTenantName_def tenants_FindByID_def tenants_FindByTenantName_sqlite_def

section \<open>The interface\<close>

text \<open>
  What the tenant middleware relies on: the tenant returned has the name asked for, and
  looking a tenant up changes nothing.
\<close>

locale tenant_repository =
  fixes find_by_name :: "string \<Rightarrow> Tenant M"
  assumes find_name: "find_by_name n w = (Ok t, w') \<Longrightarrow> t_TenantName t = n"
    and find_frame: "find_by_name n w = (r, w') \<Longrightarrow> w' = pop w"
begin

lemma same_name_same_outcome:
  assumes "find_by_name n w = (Ok t, w')" "find_by_name m w = (Ok s, w'')" "n \<noteq> m"
  shows "s \<noteq> t"
  using find_name[OF assms(1)] find_name[OF assms(2)] assms(3) by auto

end

lemma scanTenant_name: "scanTenant r = Inr t \<Longrightarrow> t_TenantName t = tn_tenant_name r"
  by (auto simp: scanTenant_def split: sum.splits)

lemma scanTenant_fields:
  "scanTenant r = Inr t \<Longrightarrow> t_ID t = tn_tenant_id r \<and> t_Status t = tn_status r"
  by (auto simp: scanTenant_def split: sum.splits)

interpretation psql_tenants: tenant_repository tenants_FindByTenantName
proof (unfold_locales, goal_cases)
  case (1 n w t w')
  then show ?case
    by (auto simp: tenants_defs bindM_Ok_iff QueryRow_Conn_Ok_iff ret_sum_Ok_iff scanTenant_name
        dest!: find_Some_in)
next
  case (2 n w r w')
  then show ?case
    by (auto simp: tenants_defs bindM_def attempt_def QueryRow_Conn ret_sum_def
        split: sum.splits option.splits if_splits)
qed

interpretation sqlite_tenants: tenant_repository tenants_FindByTenantName_sqlite
  unfolding tenants_FindByTenantName_sqlite_def scanSQLiteTenant_def
    tenants_FindByTenantName_def[symmetric] by (rule psql_tenants.tenant_repository_axioms)

lemma keeps_tenants [keeps_intros]:
  "keeps (db_inv J) (tenants_FindByTenantName n)"
  "keeps (committed_is d) (tenants_FindByTenantName n)"
  unfolding tenants_defs by (intro keeps_intros)+

end
