(* ===== verification/Outbox_Repo.thy ===== *)
theory Outbox_Repo
  imports World
begin

text \<open>
  \<^verbatim>\<open>internal/outbox/outbox.go\<close> and \<^verbatim>\<open>outbox_repository.go\<close>: the table of events that wait
  to be published, its life cycle (pending, processing, published or failed) and the claim
  that hands a batch of events to one worker.
\<close>

section \<open>Statements\<close>

text \<open>
  The \<^verbatim>\<open>INSERT\<close> of \<^verbatim>\<open>Create\<close> and \<^verbatim>\<open>CreateTx\<close> does not list the lock columns, which
  are NULL in the new row.
\<close>

definition insert_outbox :: "OutboxEvent \<Rightarrow> stmt" where
  "insert_outbox e t d =
     (if oe_ID e \<in> oe_ID ` set (outbox_events d) then Inl (unique_violation ''outbox_events_pkey'')
      else if oe_Status e \<notin> outbox_statuses
        then Inl (check_violation ''outbox_events'' ''outbox_events_status_check'')
      else Inr (d\<lparr>outbox_events := outbox_events d @
        [e\<lparr>oe_LockedAt := None, oe_LockedUntil := None, oe_LockedBy := None\<rparr>]\<rparr>))"

definition outbox_CreateTx :: "exec \<Rightarrow> OutboxEvent \<Rightarrow> unit M" where
  "outbox_CreateTx ex e = ExecContext ex (insert_outbox e)"

definition outbox_Create :: "OutboxEvent \<Rightarrow> unit M" where
  "outbox_Create e = ExecContext Conn (insert_outbox e)"

text \<open>\<^verbatim>\<open>LIMIT\<close> with a negative argument is an error of the database.\<close>

definition ErrNegativeLimit :: err where
  "ErrNegativeLimit = ErrOther ''ERROR: LIMIT must not be negative (SQLSTATE 2201W)''"

text \<open>The scan of \<^verbatim>\<open>FetchPending\<close> does not read the lock columns.\<close>

definition outbox_FetchPending :: "int \<Rightarrow> OutboxEvent list M" where
  "outbox_FetchPending limit =
     bindM (QueryContext Conn (\<lambda>now d.
        if limit < 0 then None
        else Some (take (nat limit) (sort_key oe_CreatedAt
          (filter (\<lambda>e. oe_Status e \<in> {''Pending'', ''Failed''} \<and> oe_NextRetryAt e \<le> now)
             (outbox_events d))))))
     (\<lambda>r. case r of
        None \<Rightarrow> throw ErrNegativeLimit
      | Some es \<Rightarrow>
          ret (map (\<lambda>e. e\<lparr>oe_LockedAt := None, oe_LockedUntil := None, oe_LockedBy := None\<rparr>) es))"

section \<open>Claiming a batch\<close>

definition eligible :: "time \<Rightarrow> OutboxEvent \<Rightarrow> bool" where
  "eligible now e \<longleftrightarrow>
     oe_Status e = ''pending'' \<or>
     (oe_Status e = ''processing'' \<and> (case oe_LockedUntil e of None \<Rightarrow> False | Some u \<Rightarrow> u < now)) \<or>
     (oe_Status e = ''failed'' \<and> oe_NextRetryAt e \<le> now)"

text \<open>
  The common table expression: the oldest eligible rows, at most \<open>limit\<close> of them, that no other
  statement has locked at that moment (\<open>skip\<close>, the rows passed over by \<^verbatim>\<open>SKIP LOCKED\<close>).
\<close>

definition claimable :: "uuid list \<Rightarrow> int \<Rightarrow> time \<Rightarrow> db \<Rightarrow> OutboxEvent list" where
  "claimable skip limit now d =
     take (nat limit) (sort_key oe_CreatedAt
       (filter (\<lambda>e. eligible now e \<and> oe_ID e \<notin> set skip) (outbox_events d)))"

definition lock_event :: "time \<Rightarrow> duration \<Rightarrow> string \<Rightarrow> OutboxEvent \<Rightarrow> OutboxEvent" where
  "lock_event now lockDuration workerID e =
     e\<lparr>oe_Status := ''processing'', oe_LockedAt := Some now,
       oe_LockedUntil := Some (now + lockDuration), oe_LockedBy := Some workerID\<rparr>"

definition claim_stmt :: "uuid list \<Rightarrow> int \<Rightarrow> string \<Rightarrow> duration \<Rightarrow> stmt" where
  "claim_stmt skip limit workerID lockDuration now d =
     (if limit < 0 then Inl ErrNegativeLimit
      else Inr (d\<lparr>outbox_events :=
        update_where (\<lambda>e. oe_ID e \<in> oe_ID ` set (claimable skip limit now d))
          (lock_event now lockDuration workerID) (outbox_events d)\<rparr>))"

text \<open>
  One statement selects, locks and returns the rows. PostgreSQL does not promise the order of
  \<^verbatim>\<open>RETURNING\<close>; the model lists the rows by age, and no theorem depends on that order.
\<close>

definition outbox_ClaimBatch :: "uuid list \<Rightarrow> int \<Rightarrow> string \<Rightarrow> duration \<Rightarrow> OutboxEvent list M" where
  "outbox_ClaimBatch skip limit workerID lockDuration =
     bindM (gets (\<lambda>w. map (lock_event (w_now w) lockDuration workerID)
                        (claimable skip limit (w_now w) (w_db w)))) (\<lambda>claimed.
     bindM (ExecContext Conn (claim_stmt skip limit workerID lockDuration)) (\<lambda>_.
     ret claimed))"

section \<open>Ending a claim\<close>

definition upd_event :: "uuid \<Rightarrow> (OutboxEvent \<Rightarrow> OutboxEvent) \<Rightarrow> db \<Rightarrow> db" where
  "upd_event i f d = d\<lparr>outbox_events := update_where (\<lambda>e. oe_ID e = i) f (outbox_events d)\<rparr>"

definition outbox_MarkPublished :: "uuid \<Rightarrow> time \<Rightarrow> unit M" where
  "outbox_MarkPublished i publishedAt =
     ExecContext Conn (\<lambda>_ d. Inr (upd_event i
       (\<lambda>e. e\<lparr>oe_Status := StatusPublished, oe_PublishedAt := Some publishedAt, oe_LastError := None\<rparr>) d))"

text \<open>\<^verbatim>\<open>retry_count\<close> is a 32-bit column: incrementing its largest value is an error.\<close>

definition mark_failed_stmt :: "uuid \<Rightarrow> time \<Rightarrow> string \<Rightarrow> stmt" where
  "mark_failed_stmt i nextRetryAt lastErr t d =
     (if \<exists>e \<in> set (outbox_events d). oe_ID e = i \<and> oe_RetryCount e \<ge> 2 ^ 31 - 1
      then Inl (ErrOther ''ERROR: integer out of range (SQLSTATE 22003)'')
      else Inr (upd_event i
        (\<lambda>e. e\<lparr>oe_Status := StatusFailed, oe_RetryCount := oe_RetryCount e + 1,
               oe_NextRetryAt := nextRetryAt, oe_LastError := Some lastErr\<rparr>) d))"

definition outbox_MarkFailed :: "uuid \<Rightarrow> time \<Rightarrow> string \<Rightarrow> unit M" where
  "outbox_MarkFailed i nextRetryAt lastErr =
     ExecContext Conn (mark_failed_stmt i nextRetryAt lastErr)"

definition NewOutboxRepo :: "string \<Rightarrow> (err, unit) res" where
  "NewOutboxRepo driver =
     (if driver = ''sqlite'' then Panic ''Sqlite no support for Outbox Events''
      else if driver = ''postgres'' then Ok ()
      else Panic ''unsupported database driver'')"

lemmas outbox_defs [call_defs] =
  outbox_CreateTx_def outbox_Create_def outbox_FetchPending_def outbox_ClaimBatch_def
  outbox_MarkPublished_def outbox_MarkFailed_def

section \<open>Facts about claims\<close>

lemma set_claimable:
  "e \<in> set (claimable skip limit now d) \<Longrightarrow>
     e \<in> set (outbox_events d) \<and> eligible now e \<and> oe_ID e \<notin> set skip"
  unfolding claimable_def by (auto dest!: in_set_takeD)

lemma length_claimable: "length (claimable skip limit now d) \<le> nat limit"
  by (simp add: claimable_def)

lemma lock_event_simps [simp]:
  "oe_ID (lock_event n l wk e) = oe_ID e" "oe_Status (lock_event n l wk e) = ''processing''"
  "oe_LockedUntil (lock_event n l wk e) = Some (n + l)" "oe_LockedBy (lock_event n l wk e) = Some wk"
  "oe_RetryCount (lock_event n l wk e) = oe_RetryCount e"
  "oe_CreatedAt (lock_event n l wk e) = oe_CreatedAt e"
  "oe_EventType (lock_event n l wk e) = oe_EventType e"
  "oe_Payload (lock_event n l wk e) = oe_Payload e" "oe_Headers (lock_event n l wk e) = oe_Headers e"
  "oe_PublishedAt (lock_event n l wk e) = oe_PublishedAt e"
  "oe_NextRetryAt (lock_event n l wk e) = oe_NextRetryAt e"
  by (simp_all add: lock_event_def)

lemma ClaimBatch_Ok_iff:
  "outbox_ClaimBatch skip limit wk l w = (Ok es, w') \<longleftrightarrow>
     next_ok w \<and> 0 \<le> limit \<and>
     es = map (lock_event (w_now w) l wk) (claimable skip limit (w_now w) (w_db w)) \<and>
     ExecContext Conn (claim_stmt skip limit wk l) w = (Ok (), w')"
  by (auto simp: outbox_ClaimBatch_def bindM_Ok_iff ExecContext_Conn_Ok_iff claim_stmt_def
      split: if_splits)

lemma ClaimBatch_events:
  assumes "outbox_ClaimBatch skip limit wk l w = (Ok es, w')"
  shows "outbox_events (w_db w') =
    update_where (\<lambda>e. oe_ID e \<in> oe_ID ` set es) (lock_event (w_now w) l wk) (outbox_events (w_db w))"
  using assms
  by (auto simp: ClaimBatch_Ok_iff ExecContext_Conn_Ok_iff claim_stmt_def image_image)

text \<open>Taking the smallest elements of a list: nothing left out is older than what is taken.\<close>

lemma take_sort_key_le:
  fixes xs :: "'a list" and f :: "'a \<Rightarrow> int"
  assumes "x \<in> set (take n (sort_key f xs))" "y \<in> set xs" "y \<notin> set (take n (sort_key f xs))"
  shows "f x \<le> f y"
proof -
  have "y \<in> set (sort_key f xs)" using assms(2) by simp
  then have "y \<in> set (drop n (sort_key f xs))"
    using assms(3) by (metis Un_iff append_take_drop_id set_append)
  moreover have "sorted (map f (take n (sort_key f xs)) @ map f (drop n (sort_key f xs)))"
    by (metis append_take_drop_id map_append sorted_sort_key)
  ultimately show ?thesis using assms(1) by (auto simp: sorted_append)
qed

lemma distinct_taken:
  assumes "distinct (map f xs)"
  shows "distinct (map f (take n (sort_key g (filter P xs))))"
proof -
  have "distinct (map f (filter P xs))" using assms by (rule distinct_map_filter)
  then have "distinct (map f (sort_key g (filter P xs)))" by (simp add: distinct_map)
  then show ?thesis by (simp add: take_map[symmetric])
qed

section \<open>The interface\<close>

text \<open>
  \<open>still_held u es d\<close>: in the tables \<open>d\<close> every event of the batch \<open>es\<close> is published or still in processing under the
  lock that ends at \<open>u\<close>; in particular none was marked failed or claimed again.

  What the processor relies on of \<^verbatim>\<open>OutboxRepo\<close>: a claim hands out events of the table and holds them;
  while they are held and the lock lasts another claim does not hand out the same events; an event
  marked published is never handed out again.
\<close>

definition still_held :: "time \<Rightarrow> OutboxEvent list \<Rightarrow> db \<Rightarrow> bool" where
  "still_held u es d \<longleftrightarrow>
     (\<forall>x \<in> set (outbox_events d). oe_ID x \<in> oe_ID ` set es \<longrightarrow>
        oe_Status x = StatusPublished \<or> oe_Status x = StatusProcessing \<and> oe_LockedUntil x = Some u)"

locale outbox_repository =
  fixes claim :: "uuid list \<Rightarrow> int \<Rightarrow> string \<Rightarrow> duration \<Rightarrow> OutboxEvent list M"
    and mark_published :: "uuid \<Rightarrow> time \<Rightarrow> unit M"
  assumes claim_limit: "claim sk n wk l w = (Ok es, w') \<Longrightarrow> int (length es) \<le> n"
    and claim_holds: "claim sk n wk l w = (Ok es, w') \<Longrightarrow> still_held (w_now w + l) es (w_db w')"
    and claim_held:
      "claim sk n wk l w = (Ok es, w1) \<Longrightarrow> e \<in> set es \<Longrightarrow> 0 < l \<Longrightarrow>
       still_held (w_now w + l) es (w_db w2) \<Longrightarrow> w_now w2 \<le> w_now w + l \<Longrightarrow>
       claim sk' n' wk' l' w2 = (Ok fs, w3) \<Longrightarrow> f \<in> set fs \<Longrightarrow> oe_ID f \<noteq> oe_ID e"
    and published_gone:
      "mark_published i t w = (Ok (), w1) \<Longrightarrow> w_db w2 = w_db w1 \<Longrightarrow>
       claim sk n wk l w2 = (Ok es, w3) \<Longrightarrow> e \<in> set es \<Longrightarrow> oe_ID e \<noteq> i"
begin

text \<open>Two workers that claim one after the other, within the lock time, share nothing.\<close>

lemma claims_disjoint:
  assumes "claim sk n wk l w = (Ok es, w1)" "0 < l" "still_held (w_now w + l) es (w_db w2)" "w_now w2 \<le> w_now w + l"
    and "claim sk' n' wk' l' w2 = (Ok fs, w3)"
  shows "oe_ID ` set es \<inter> oe_ID ` set fs = {}"
proof -
  have "oe_ID f \<noteq> oe_ID e" if "e \<in> set es" "f \<in> set fs" for e f
    using claim_held[OF assms(1) that(1) assms(2-5) that(2)] .
  then show ?thesis by fastforce
qed

end

lemma in_claim:
  assumes "outbox_ClaimBatch sk n wk l w = (Ok es, w')" "e \<in> set es"
  shows "\<exists>x \<in> set (outbox_events (w_db w)). eligible (w_now w) x \<and> e = lock_event (w_now w) l wk x \<and>
    oe_ID x \<notin> set sk"
  using assms by (auto simp: ClaimBatch_Ok_iff dest!: set_claimable)

interpretation psql_outbox: outbox_repository outbox_ClaimBatch outbox_MarkPublished
proof (unfold_locales, goal_cases)
  case (1 sk n wk l w es w')
  then show ?case
    using length_claimable[of sk n "w_now w" "w_db w"] by (auto simp: ClaimBatch_Ok_iff)
next
  case (2 sk n wk l w es w')
  show ?case
    unfolding still_held_def
  proof (intro ballI impI)
    fix x assume x: "x \<in> set (outbox_events (w_db w'))" "oe_ID x \<in> oe_ID ` set es"
    with ClaimBatch_events[OF 2] obtain y where "x = lock_event (w_now w) l wk y"
      by (metis update_where_hit)
    then show "oe_Status x = StatusPublished \<or> oe_Status x = StatusProcessing \<and> oe_LockedUntil x = Some (w_now w + l)"
      by (simp add: StatusProcessing_def)
  qed
next
  case (3 sk n wk l w es w1 e w2 sk' n' wk' l' fs w3 f)
  from in_claim[OF 3(6,7)] obtain x where x: "x \<in> set (outbox_events (w_db w2))"
    "eligible (w_now w2) x" "oe_ID f = oe_ID x"
    by auto
  show ?case
  proof
    assume "oe_ID f = oe_ID e"
    with x(3) 3(2) have "oe_ID x \<in> oe_ID ` set es" by (metis image_eqI)
    with x(1,2) 3(4,5) show False by (auto simp: still_held_def eligible_def event_status_defs)
  qed
next
  case (4 i t w w1 w2 sk n wk l es w3 e)
  from in_claim[OF 4(3,4)] 4(2) obtain x where x: "x \<in> set (outbox_events (w_db w1))"
    "eligible (w_now w2) x" "oe_ID e = oe_ID x" by auto
  have "outbox_events (w_db w1) = update_where (\<lambda>e. oe_ID e = i)
      (\<lambda>e. e\<lparr>oe_Status := StatusPublished, oe_PublishedAt := Some t, oe_LastError := None\<rparr>)
      (outbox_events (w_db w))"
    using 4(1) by (auto simp: outbox_defs ExecContext_Conn_Ok_iff upd_event_def)
  with x(1) have up: "x \<in> set (update_where (\<lambda>e. oe_ID e = i)
      (\<lambda>e. e\<lparr>oe_Status := StatusPublished, oe_PublishedAt := Some t, oe_LastError := None\<rparr>)
      (outbox_events (w_db w)))" by simp
  have "oe_Status x = StatusPublished" if "oe_ID x = i"
    by (rule update_where_hit[OF up that]) simp
  with x(2,3) show ?case by (auto simp: eligible_def StatusPublished_def)
qed

section \<open>Table integrity\<close>

lemma insert_outbox_wf [keeps_intros]: "stmt_keeps db_wf (insert_outbox e)"
  by (rule stmt_keeps_caseI) (simp add: insert_outbox_def db_wf_def user_ids_def)

lemma upd_event_wf:
  assumes "\<And>e. oe_ID (f e) = oe_ID e" "\<And>e. oe_Status (f e) \<in> outbox_statuses" "db_wf d"
  shows "db_wf (upd_event i f d)"
  using assms by (auto simp: upd_event_def db_wf_def user_ids_def map_update_where in_update_where_iff)

lemma mark_stmts_wf [keeps_intros]:
  "stmt_keeps db_wf (mark_failed_stmt i t s)"
  "stmt_keeps db_wf (\<lambda>_ d. Inr (upd_event i
     (\<lambda>e. e\<lparr>oe_Status := StatusPublished, oe_PublishedAt := Some p, oe_LastError := None\<rparr>) d))"
  by (auto intro!: stmt_keepsI upd_event_wf simp: mark_failed_stmt_def event_status_defs
      outbox_statuses_def split: if_splits)

lemma claim_stmt_wf [keeps_intros]: "stmt_keeps db_wf (claim_stmt sk n wk l)"
  by (rule stmt_keepsI)
    (auto simp: claim_stmt_def db_wf_def user_ids_def map_update_where in_update_where_iff
      outbox_statuses_def split: if_splits)

lemma keeps_wf_outbox [keeps_intros]:
  "keeps (db_inv db_wf) (outbox_CreateTx ex e)"
  "keeps (db_inv db_wf) (outbox_Create e)"
  "keeps (db_inv db_wf) (outbox_FetchPending n)"
  "keeps (db_inv db_wf) (outbox_ClaimBatch sk n wk l)"
  "keeps (db_inv db_wf) (outbox_MarkPublished i t)"
  "keeps (db_inv db_wf) (outbox_MarkFailed i t s)"
  unfolding outbox_defs by (intro keeps_intros)+

end
