(* ===== verification/Samples.thy ===== *)
theory Samples
  imports World
begin

text \<open>
  Concrete inputs on which the properties are exercised: an instance of the third-party
  functions, a tenant, a user, an event, and worlds built from them. The instance satisfies the
  documented laws of those functions that some properties assume (an identifier prints without a
  dot and parses back; a hash made from a password matches that password and no other; a signed
  token verifies under the key of the same pair until it expires).
\<close>

definition sample_uuid_String :: "uuid \<Rightarrow> string" where
  "sample_uuid_String u = replicate (unat u) (CHR ''a'')"

definition sample_uuid_Parse :: "string \<Rightarrow> uuid option" where
  "sample_uuid_Parse s =
     (if set s \<subseteq> {CHR ''a''} \<and> length s < 2 ^ 128 then Some (word_of_nat (length s)) else None)"

definition sample_lib :: lib where
  "sample_lib =
     \<lparr>uuid_String = sample_uuid_String, uuid_Parse = sample_uuid_Parse,
      bcrypt_Generate = (\<lambda>salt pw cost. Inr (hex_EncodeToString pw)),
      bcrypt_Compare = (\<lambda>h pw. if h = hex_EncodeToString pw then None
                               else Some (ErrOther ''crypto/bcrypt: hashedPassword is not the hash of the given password'')),
      jwt_Sign = (\<lambda>m c k. Inr (''jwt.'' @ c_Email c)),
      jwt_ParseWithClaims = (\<lambda>s kf now.
        case kf SigningMethodRSA of
          Inl e \<Rightarrow> Inl e
        | Inr k \<Rightarrow>
            if HasPrefix s ''jwt.''
            then Inr (\<lparr>c_UserID = 7, c_Email = drop 4 s, c_Subject = [], c_Issuer = ''auth-service'',
                       c_IssuedAt = 0, c_ExpiresAt = 0\<rparr>, True)
            else Inl (ErrOther ''token is malformed'')),
      mail_ParseAddress = (\<lambda>s. CHR ''@'' \<in> set s)\<rparr>"

lemma sample_lib_simps [simp]:
  "uuid_String sample_lib = sample_uuid_String" "uuid_Parse sample_lib = sample_uuid_Parse"
  "bcrypt_Generate sample_lib = (\<lambda>salt pw cost. Inr (hex_EncodeToString pw))"
  "jwt_Sign sample_lib = (\<lambda>m c k. Inr (''jwt.'' @ c_Email c))"
  "mail_ParseAddress sample_lib s = (CHR ''@'' \<in> set s)"
  by (simp_all add: sample_lib_def)

lemma sample_uuid_roundtrip: "sample_uuid_Parse (sample_uuid_String u) = Some u"
proof -
  have "unat u < 2 ^ 128" using unsigned_less[of u] by simp
  then show ?thesis by (simp add: sample_uuid_Parse_def sample_uuid_String_def set_replicate_conv_if)
qed

lemma sample_uuid_no_dot: "CHR ''.'' \<notin> set (sample_uuid_String u)"
  by (simp add: sample_uuid_String_def set_replicate_conv_if)

definition sample_user :: User where
  "sample_user =
     \<lparr>u_ID = 7, u_Email = ''a@b'', u_Username = None,
      u_PasswordHash = Some (hex_EncodeToString (bytes_of ''password12'')),
      u_EmailVerified = True, u_IsActive = True, u_LockedAt = None, u_Tenant_ID = 3,
      u_CreatedAt = 0, u_UpdatedAt = 0\<rparr>"

definition sample_event :: OutboxEvent where
  "sample_event =
     new_event 5 UserCreated
       (UserInfoJSON \<lparr>ui_UserID = 7, ui_Email = ''a@b'', ui_Username = [], ui_Verified = False,
          ui_CreatedAt = 0\<rparr>) StatusPending 0 0"

definition sample_tenant :: tenant_row where
  "sample_tenant =
     \<lparr>tn_tenant_id = 3, tn_tenant_name = ''acme'', tn_name = None, tn_url = [], tn_email = [],
      tn_status = ''active'', tn_public_key = [], tn_api_key_hash = [], tn_allowed_origins = None,
      tn_created_at = 0, tn_updated_at = 0\<rparr>"

definition sample_db :: db where
  "sample_db = empty_db\<lparr>users := [sample_user], tenants := [sample_tenant]\<rparr>"

definition sample_world :: world where
  "sample_world = mk_world sample_db 1000 [10, 11, 12, 13, 14, 15] [[1], [2], [3], [4], [5], [6]]"

definition outbox_world :: "OutboxEvent \<Rightarrow> world" where
  "outbox_world e = mk_world (sample_db\<lparr>outbox_events := [e]\<rparr>) 1000 [10, 11, 12] [[1], [2]]"

lemmas sample_defs =
  sample_user_def sample_event_def sample_tenant_def sample_db_def sample_world_def
  outbox_world_def mk_world_def empty_db_def new_event_def tenant_statuses_def

lemma sample_db_wf: "db_wf sample_db"
  by (simp add: db_wf_def sample_defs user_ids_def)

lemma sample_world_simps [simp]:
  "w_db sample_world = sample_db" "w_tx sample_world = None" "w_now sample_world = 1000"
  "w_ticks sample_world = []" "w_faults sample_world = []"
  "w_uuids sample_world = [10, 11, 12, 13, 14, 15]"
  "w_rand sample_world = [[1], [2], [3], [4], [5], [6]]" "w_redis sample_world = Map.empty"
  "w_redis_faults sample_world = []" "w_mail_faults sample_world = []" "w_mail sample_world = []"
  by (simp_all add: sample_world_def mk_world_def)

lemma outbox_world_simps [simp]:
  "w_db (outbox_world e) = sample_db\<lparr>outbox_events := [e]\<rparr>" "w_tx (outbox_world e) = None"
  "w_now (outbox_world e) = 1000" "w_ticks (outbox_world e) = []" "w_faults (outbox_world e) = []"
  "w_pub (outbox_world e) = []" "w_delivered (outbox_world e) = []"
  "w_broker_closed (outbox_world e) = False"
  by (simp_all add: outbox_world_def mk_world_def)

lemma outbox_world_wf: "oe_Status e \<in> outbox_statuses \<Longrightarrow> db_wf (sample_db\<lparr>outbox_events := [e]\<rparr>)"
  by (simp add: db_wf_def sample_defs user_ids_def)

end
