(* ===== verification/Tokens.thy ===== *)
theory Tokens
  imports World Samples
begin

text \<open>
  \<^verbatim>\<open>internal/crypto/hash.go\<close> and \<^verbatim>\<open>internal/auth/jwt.go\<close>: password and token hashes,
  access tokens, the random tokens handed to users (refresh, e-mail verification, password
  reset) and signed client identifiers.
\<close>

section \<open>crypto/hash.go\<close>

definition bcryptCost :: nat where "bcryptCost = 12"

definition HashPassword :: "lib \<Rightarrow> string \<Rightarrow> string M" where
  "HashPassword L password =
     bindM (rand_Read 16) (\<lambda>salt. ret_sum (bcrypt_Generate L salt (bytes_of password) bcryptCost))"

definition HashToken :: "string \<Rightarrow> string \<Rightarrow> string" where
  "HashToken token secret = hex_EncodeToString (hmac_sha256 (bytes_of secret) (bytes_of token))"

definition ComparePassword :: "lib \<Rightarrow> string \<Rightarrow> string \<Rightarrow> err option" where
  "ComparePassword L hash password = bcrypt_Compare L hash (bytes_of password)"

section \<open>Access tokens (jwt.go)\<close>

definition accessTokenTTL :: duration where "accessTokenTTL = 15 * Minute"

definition GenerateAccessToken :: "lib \<Rightarrow> uuid \<Rightarrow> string \<Rightarrow> privkey \<Rightarrow> string M" where
  "GenerateAccessToken L userID email privateKey =
     bindM time_Now (\<lambda>iat. bindM time_Now (\<lambda>now.
       ret_sum (jwt_Sign L SigningMethodRSA
         \<lparr>c_UserID = userID, c_Email = email, c_Subject = uuid_String L userID,
          c_Issuer = ''auth-service'', c_IssuedAt = iat, c_ExpiresAt = now + accessTokenTTL\<rparr>
         privateKey)))"

definition accessKeyFunc :: "pubkey \<Rightarrow> SigningMethod \<Rightarrow> err + pubkey" where
  "accessKeyFunc pub m =
     (if m = SigningMethodRSA then Inr pub else Inl (ErrOther ''key is of invalid type''))"

definition ParseAccessToken :: "lib \<Rightarrow> string \<Rightarrow> pubkey \<Rightarrow> Claims M" where
  "ParseAccessToken L tokenStr pub =
     bindM time_Now (\<lambda>now.
     bindM (ret_sum (jwt_ParseWithClaims L tokenStr (accessKeyFunc pub) now)) (\<lambda>(claims, valid).
     if \<not> valid then throw (ErrOther ''token has invalid claims'') else ret claims))"

section \<open>Random tokens (jwt.go)\<close>

definition refreshTTL :: duration where "refreshTTL = 30 * 24 * Hour"
definition verificationTTL :: duration where "verificationTTL = 24 * Hour"
definition resetTTL :: duration where "resetTTL = 1 * Hour"

definition GenerateRefreshToken ::
  "uuid \<Rightarrow> uuid \<Rightarrow> uuid \<Rightarrow> uuid \<Rightarrow> string \<Rightarrow> string \<Rightarrow> (string \<times> RefreshToken) M"
where
  "GenerateRefreshToken userID familyID parentToken tenantID clientID secret =
     bindM (rand_Read 32) (\<lambda>raw.
     let plain = base64_RawURL raw; hash = HashToken plain secret in
     bindM time_Now (\<lambda>now. bindM uuid_NewV7 (\<lambda>rtid.
     ret (plain,
       \<lparr>rt_ID = rtid, rt_UserID = userID, rt_TenantID = tenantID, rt_TokenHash = hash,
        rt_ClientID = clientID, rt_ParentToken = parentToken, rt_FamilyID = familyID,
        rt_ExpiresAt = now + refreshTTL, rt_RevokedAt = None, rt_CreatedAt = now\<rparr>))))"

definition GenerateEmailVerificationToken ::
  "uuid \<Rightarrow> string \<Rightarrow> (string \<times> EmailVerificationToken) M"
where
  "GenerateEmailVerificationToken userID secret =
     bindM (rand_Read 32) (\<lambda>raw.
     let plain = base64_RawURL raw; hash = HashToken plain secret in
     bindM time_Now (\<lambda>now. bindM uuid_NewV7 (\<lambda>i.
     ret (plain,
       \<lparr>ev_ID = i, ev_UserID = userID, ev_TokenHash = hash, ev_ExpiresAt = now + verificationTTL,
        ev_UsedAt = None, ev_CreatedAt = now\<rparr>))))"

definition GeneratePasswordResetToken ::
  "uuid \<Rightarrow> uuid \<Rightarrow> string \<Rightarrow> (string \<times> PasswordResetToken) M"
where
  "GeneratePasswordResetToken userID tenantID secret =
     bindM (rand_Read 32) (\<lambda>raw.
     let plain = base64_RawURL raw; hash = HashToken plain secret in
     bindM time_Now (\<lambda>now. bindM uuid_NewV7 (\<lambda>i.
     ret (plain,
       \<lparr>pr_ID = i, pr_UserID = userID, pr_TenantID = tenantID, pr_TokenHash = hash,
        pr_ExpiresAt = now + resetTTL, pr_UsedAt = None, pr_CreatedAt = now\<rparr>))))"

section \<open>Client identifiers (jwt.go)\<close>

definition GenerateClientID :: "lib \<Rightarrow> string M" where
  "GenerateClientID L = uuid_NewString L"

definition client_sig :: "uuid \<Rightarrow> byte list \<Rightarrow> string" where
  "client_sig i secret = take 16 (hex_EncodeToString (hmac_sha256 secret (uuid_bytes i)))"

definition signClientID :: "lib \<Rightarrow> uuid \<Rightarrow> byte list \<Rightarrow> string" where
  "signClientID L i secret = uuid_String L i @ ''.'' @ client_sig i secret"

definition verifyClientID :: "lib \<Rightarrow> string \<Rightarrow> byte list \<Rightarrow> uuid \<times> bool" where
  "verifyClientID L s secret =
     (let (raw, sig, ok) = CutChar CHR ''.'' s in
      if \<not> ok then (uuid_Nil, False)
      else case uuid_Parse L raw of
             None \<Rightarrow> (uuid_Nil, False)
           | Some i \<Rightarrow> (if client_sig i secret \<noteq> sig then (uuid_Nil, False) else (i, True)))"

section \<open>Running the generators\<close>

lemmas ttl_defs = refreshTTL_def verificationTTL_def resetTTL_def accessTokenTTL_def duration_defs

lemma GenerateRefreshToken_Ok_iff:
  "GenerateRefreshToken u f p tn cl sec w = (Ok (plain, t), w') \<longleftrightarrow>
     (\<exists>raw rs i us. w_rand w = raw # rs \<and> w_uuids w = i # us \<and>
        plain = base64_RawURL (take 32 (raw @ replicate 32 0)) \<and>
        t = \<lparr>rt_ID = i, rt_UserID = u, rt_TenantID = tn, rt_TokenHash = HashToken plain sec,
             rt_ClientID = cl, rt_ParentToken = p, rt_FamilyID = f,
             rt_ExpiresAt = w_now w + refreshTTL, rt_RevokedAt = None, rt_CreatedAt = w_now w\<rparr> \<and>
        w' = (tick (w\<lparr>w_rand := rs\<rparr>))\<lparr>w_uuids := us\<rparr>)"
  by (auto simp: GenerateRefreshToken_def bindM_Ok_iff rand_Read_Ok_iff uuid_NewV7_Ok_iff Let_def
      time_Now_eq)

lemma GenerateEmailVerificationToken_Ok_iff:
  "GenerateEmailVerificationToken u sec w = (Ok (plain, t), w') \<longleftrightarrow>
     (\<exists>raw rs i us. w_rand w = raw # rs \<and> w_uuids w = i # us \<and>
        plain = base64_RawURL (take 32 (raw @ replicate 32 0)) \<and>
        t = \<lparr>ev_ID = i, ev_UserID = u, ev_TokenHash = HashToken plain sec,
             ev_ExpiresAt = w_now w + verificationTTL, ev_UsedAt = None, ev_CreatedAt = w_now w\<rparr> \<and>
        w' = (tick (w\<lparr>w_rand := rs\<rparr>))\<lparr>w_uuids := us\<rparr>)"
  by (auto simp: GenerateEmailVerificationToken_def bindM_Ok_iff rand_Read_Ok_iff
      uuid_NewV7_Ok_iff Let_def time_Now_eq)

lemma GeneratePasswordResetToken_Ok_iff:
  "GeneratePasswordResetToken u tn sec w = (Ok (plain, t), w') \<longleftrightarrow>
     (\<exists>raw rs i us. w_rand w = raw # rs \<and> w_uuids w = i # us \<and>
        plain = base64_RawURL (take 32 (raw @ replicate 32 0)) \<and>
        t = \<lparr>pr_ID = i, pr_UserID = u, pr_TenantID = tn, pr_TokenHash = HashToken plain sec,
             pr_ExpiresAt = w_now w + resetTTL, pr_UsedAt = None, pr_CreatedAt = w_now w\<rparr> \<and>
        w' = (tick (w\<lparr>w_rand := rs\<rparr>))\<lparr>w_uuids := us\<rparr>)"
  by (auto simp: GeneratePasswordResetToken_def bindM_Ok_iff rand_Read_Ok_iff
      uuid_NewV7_Ok_iff Let_def time_Now_eq)

text \<open>A frame for calls that only consume the clock, the random bytes and the identifiers.\<close>

definition same_stores :: "world \<Rightarrow> world \<Rightarrow> bool" where
  "same_stores w0 w \<longleftrightarrow> w_db w = w_db w0 \<and> w_tx w = w_tx w0 \<and> w_faults w = w_faults w0 \<and>
     w_redis w = w_redis w0 \<and> w_metrics w = w_metrics w0 \<and> w_mail w = w_mail w0"

lemma same_stores_refl [simp]: "same_stores w w"
  by (simp add: same_stores_def)

lemma keeps_same_stores [keeps_intros]:
  "keeps (same_stores w0) time_Now"
  "keeps (same_stores w0) uuid_NewV7"
  "keeps (same_stores w0) (rand_Read n)"
  by (auto simp: keeps_def same_stores_def time_Now_eq uuid_NewV7_def rand_Read_def split: list.splits)

lemma keeps_generators [keeps_intros]:
  assumes "keeps I time_Now" "keeps I uuid_NewV7" "keeps I (rand_Read 32)"
  shows "keeps I (GenerateRefreshToken u f p tn cl sec)"
    "keeps I (GenerateEmailVerificationToken u sec)" "keeps I (GeneratePasswordResetToken u tn sec)"
  unfolding GenerateRefreshToken_def GenerateEmailVerificationToken_def GeneratePasswordResetToken_def
  by (intro keeps_intros assms)+

lemma keeps_GenerateAccessToken [keeps_intros]:
  assumes "keeps I time_Now"
  shows "keeps I (GenerateAccessToken L u em k)"
  unfolding GenerateAccessToken_def by (intro keeps_intros assms)

lemma keeps_HashPassword [keeps_intros]:
  assumes "keeps I (rand_Read 16)"
  shows "keeps I (HashPassword L p)"
  unfolding HashPassword_def by (intro keeps_intros assms)

lemma keeps_GenerateClientID [keeps_intros]:
  assumes "keeps I uuid_NewV7"
  shows "keeps I (GenerateClientID L)"
  unfolding GenerateClientID_def uuid_NewString_def by (intro keeps_intros assms)

section \<open>Properties\<close>

text \<open>
  A client identifier signed by the service verifies, and yields the identifier that was
  signed, provided the identifier's text form parses back and contains no dot.
\<close>

lemma client_id_roundtrip:
  assumes "uuid_Parse L (uuid_String L i) = Some i" "CHR ''.'' \<notin> set (uuid_String L i)"
  shows "verifyClientID L (signClientID L i secret) secret = (i, True)"
  using assms CutChar_append[of "CHR ''.''" "uuid_String L i" "client_sig i secret"]
  by (simp add: verifyClientID_def signClientID_def)

lemma client_id_roundtrip_witness:
  "verifyClientID sample_lib (signClientID sample_lib 42 [1, 2, 3]) [1, 2, 3] = (42, True)"
  using client_id_roundtrip[of sample_lib 42 "[1, 2, 3]"]
  by (simp add: sample_uuid_roundtrip sample_uuid_no_dot)

text \<open>
  Only a text that carries, after its first dot, the 16 hex digits of the keyed hash of the
  identifier before the dot is accepted; everything else is refused with the zero identifier.
\<close>

lemma verify_client_id_sound:
  "(verifyClientID L s secret = (i, True) \<longleftrightarrow>
     (\<exists>raw. s = raw @ ''.'' @ client_sig i secret \<and> CHR ''.'' \<notin> set raw \<and> uuid_Parse L raw = Some i)) \<and>
   (snd (verifyClientID L s secret) \<or> verifyClientID L s secret = (uuid_Nil, False))"
proof (cases "CHR ''.'' \<in> set s")
  case False
  then show ?thesis by (auto simp: verifyClientID_def CutChar_def)
next
  case True
  then obtain raw sig where s: "s = raw @ CHR ''.'' # sig" "CHR ''.'' \<notin> set raw"
    by (metis split_list_first)
  then have cut: "CutChar CHR ''.'' s = (raw, sig, True)" by (simp add: CutChar_append)
  have "raw' = raw \<and> client_sig i secret = sig"
    if "s = raw' @ CHR ''.'' # client_sig i secret" "CHR ''.'' \<notin> set raw'" for raw'
    using that cut CutChar_append[of "CHR ''.''" raw' "client_sig i secret"] by simp
  then have "(\<exists>raw. s = raw @ ''.'' @ client_sig i secret \<and> CHR ''.'' \<notin> set raw \<and> uuid_Parse L raw = Some i)
      \<longleftrightarrow> client_sig i secret = sig \<and> uuid_Parse L raw = Some i"
    using s by auto
  then show ?thesis by (auto simp: verifyClientID_def cut split: option.splits)
qed

text \<open>
  What is stored of a token is 64 lower-case hexadecimal digits, and two tokens hash alike
  under a secret exactly when their HMACs are equal: nothing is lost by the text encoding.
\<close>

lemma hash_token_format:
  "length (HashToken token secret) = 64 \<and>
   (HashToken token secret = HashToken token' secret \<longleftrightarrow>
      hmac_sha256 (bytes_of secret) (bytes_of token) = hmac_sha256 (bytes_of secret) (bytes_of token'))"
  by (auto simp: HashToken_def dest: hex_inj)

text \<open>
  A refresh token is 43 characters of URL-safe base64 made of 32 random bytes (different bytes
  give different tokens), only its hash is stored, it is not revoked, and it expires thirty days
  after its creation.
\<close>

lemma refresh_token_generated:
  assumes "GenerateRefreshToken u f p tn cl sec w = (Ok (plain, t), w')"
  shows "length plain = 43 \<and> rt_TokenHash t = HashToken plain sec \<and> rt_RevokedAt t = None \<and>
    rt_ExpiresAt t = rt_CreatedAt t + 30 * 24 * Hour \<and> rt_CreatedAt t = w_now w \<and>
    rt_UserID t = u \<and> rt_FamilyID t = f \<and> rt_ParentToken t = p \<and> rt_TenantID t = tn \<and>
    (\<exists>raw. length raw = 32 \<and> plain = base64_RawURL raw \<and>
       (\<forall>raw'. length raw' = 32 \<and> base64_RawURL raw' = plain \<longrightarrow> raw' = raw)) \<and> w_db w' = w_db w"
proof -
  from assms obtain raw where raw: "plain = base64_RawURL (take 32 (raw @ replicate 32 0))"
    by (auto simp: GenerateRefreshToken_Ok_iff)
  have len: "length (take 32 (raw @ replicate 32 (0::byte))) = 32" by simp
  let ?raw = "take 32 (raw @ replicate 32 (0::byte))"
  have "raw' = ?raw" if "length raw' = 32 \<and> base64_RawURL raw' = plain" for raw'
    by (rule base64_RawURL_inj) (use that raw len in \<open>simp_all only:\<close>)
  then have ex: "\<exists>raw. length raw = 32 \<and> plain = base64_RawURL raw \<and>
       (\<forall>raw'. length raw' = 32 \<and> base64_RawURL raw' = plain \<longrightarrow> raw' = raw)"
    by (intro exI[of _ ?raw] conjI len raw) blast
  have len43: "length plain = 43"
    unfolding raw length_base64_RawURL len by simp
  have "rt_TokenHash t = HashToken plain sec \<and> rt_RevokedAt t = None \<and>
    rt_ExpiresAt t = rt_CreatedAt t + 30 * 24 * Hour \<and> rt_CreatedAt t = w_now w \<and>
    rt_UserID t = u \<and> rt_FamilyID t = f \<and> rt_ParentToken t = p \<and> rt_TenantID t = tn \<and> w_db w' = w_db w"
    using assms by (auto simp: GenerateRefreshToken_Ok_iff refreshTTL_def)
  with ex len43 show ?thesis by blast
qed

lemma refresh_token_generated_witness:
  "\<exists>plain t w'. GenerateRefreshToken 7 8 0 3 ''c'' ''s'' sample_world = (Ok (plain, t), w') \<and>
    length plain = 43"
proof -
  have "\<exists>plain t w'. GenerateRefreshToken 7 8 0 3 ''c'' ''s'' sample_world = (Ok (plain, t), w')"
    by (simp add: GenerateRefreshToken_Ok_iff)
  then show ?thesis using refresh_token_generated by blast
qed

text \<open>
  \<^verbatim>\<open>ParseAccessToken\<close> accepts only what the JWT library verified with the service's RSA
  public key: the library is asked with a key function that refuses every other signing method
  (the classic algorithm-confusion attack), and an accepted token was reported valid.
\<close>

lemma parse_access_token_rsa_only:
  assumes "ParseAccessToken L s pub w = (Ok claims, w')"
  shows "jwt_ParseWithClaims L s (accessKeyFunc pub) (w_now w) = Inr (claims, True) \<and>
    (\<forall>m k. accessKeyFunc pub m = Inr k \<longrightarrow> m = SigningMethodRSA \<and> k = pub)"
  using assms
  by (auto simp: ParseAccessToken_def bindM_Ok_iff time_Now_eq ret_sum_Ok_iff accessKeyFunc_def
      split: if_splits)

lemma parse_access_token_rsa_only_witness:
  "\<exists>claims w'. ParseAccessToken sample_lib ''jwt.a@b'' 1 sample_world = (Ok claims, w') \<and>
    jwt_ParseWithClaims sample_lib ''jwt.a@b'' (accessKeyFunc 1) 1000 = Inr (claims, True)"
proof -
  obtain claims w' where p: "ParseAccessToken sample_lib ''jwt.a@b'' 1 sample_world = (Ok claims, w')"
    by (simp add: ParseAccessToken_def bindM_def attempt_def time_Now_eq accessKeyFunc_def sample_lib_def
        HasPrefix_def)
  with parse_access_token_rsa_only[OF p] show ?thesis by auto
qed

end
