(* ===== verification/Rate_Limiter.thy ===== *)
theory Rate_Limiter
  imports World Samples
begin

text \<open>
  \<^verbatim>\<open>internal/auth/ratelimiter\<close> and the six Lua scripts of \<^verbatim>\<open>internal/auth/luascripts\<close>.
  A script runs atomically on the Redis server, whose clock does not advance meanwhile. The
  scripts receive the caller's time in whole seconds; keys expire by the server's clock.
\<close>

section \<open>Redis hashes\<close>

type_synonym hash = "string \<rightharpoonup> int"

text \<open>The hash stored under a key, empty when the key is absent or has expired.\<close>

definition live :: "time \<Rightarrow> redis \<Rightarrow> string \<Rightarrow> hash" where
  "live t st k =
     (case st k of
        None \<Rightarrow> Map.empty
      | Some (h, None) \<Rightarrow> h
      | Some (h, Some e) \<Rightarrow> if e < t then Map.empty else h)"

definition live_expiry :: "time \<Rightarrow> redis \<Rightarrow> string \<Rightarrow> time option" where
  "live_expiry t st k =
     (case st k of Some (h, Some e) \<Rightarrow> if e < t then None else Some e | _ \<Rightarrow> None)"

definition HGET :: "time \<Rightarrow> string \<Rightarrow> string \<Rightarrow> redis \<Rightarrow> int option" where
  "HGET t k f st = live t st k f"

definition HSET :: "time \<Rightarrow> string \<Rightarrow> (string \<times> int) list \<Rightarrow> redis \<Rightarrow> redis" where
  "HSET t k fvs st = st(k \<mapsto> (live t st k ++ map_of fvs, live_expiry t st k))"

definition HINCRBY :: "time \<Rightarrow> string \<Rightarrow> string \<Rightarrow> int \<Rightarrow> redis \<Rightarrow> int \<times> redis" where
  "HINCRBY t k f d st =
     (let v = (case HGET t k f st of None \<Rightarrow> 0 | Some n \<Rightarrow> n) + d in (v, HSET t k [(f, v)] st))"

definition EXPIRE :: "time \<Rightarrow> string \<Rightarrow> int \<Rightarrow> redis \<Rightarrow> redis" where
  "EXPIRE t k secs st =
     (if st k = None then st else st(k \<mapsto> (live t st k, Some (t + secs * Second))))"

section \<open>The scripts\<close>

text \<open>The loop shared by the scripts: some key is blocked at \<open>now\<close>.\<close>

definition key_blocked :: "time \<Rightarrow> int \<Rightarrow> redis \<Rightarrow> string \<Rightarrow> bool" where
  "key_blocked t now st k = (case HGET t k ''next_try'' st of None \<Rightarrow> False | Some n \<Rightarrow> n > now)"

definition login_check :: "time \<Rightarrow> string list \<Rightarrow> int \<Rightarrow> redis \<Rightarrow> int" where
  "login_check t KEYS now st = (if list_ex (key_blocked t now st) KEYS then 1 else 0)"

definition penalty :: "int \<Rightarrow> int \<Rightarrow> int" where
  "penalty now failures =
     (if failures \<ge> 11 then now + 3600 else if failures \<ge> 6 then now + 300 else 0)"

definition record_key :: "time \<Rightarrow> int \<Rightarrow> string \<Rightarrow> redis \<Rightarrow> int \<times> redis" where
  "record_key t now k st =
     (let (failures, st1) = HINCRBY t k ''failures'' 1 st;
          st2 = HSET t k [(''last_try'', now), (''next_try'', penalty now failures)] st1
      in (failures, EXPIRE t k 3600 st2))"

fun record_keys :: "time \<Rightarrow> int \<Rightarrow> int \<Rightarrow> bool \<Rightarrow> string list \<Rightarrow> redis \<Rightarrow> bool \<times> redis" where
  "record_keys t now notify_attempt notify [] st = (notify, st)"
| "record_keys t now notify_attempt notify (k # ks) st =
     (let (failures, st') = record_key t now k st
      in record_keys t now notify_attempt (notify \<or> failures = notify_attempt) ks st')"

definition login_recordfailure :: "time \<Rightarrow> string list \<Rightarrow> int \<Rightarrow> int \<Rightarrow> redis \<Rightarrow> int \<times> redis" where
  "login_recordfailure t KEYS now notify_attempt st =
     (if list_ex (key_blocked t now st) KEYS then (1, st)
      else let (notify, st') = record_keys t now notify_attempt False KEYS st
           in (if notify then 2 else 0, st'))"

definition signup_check :: "time \<Rightarrow> string list \<Rightarrow> int \<Rightarrow> redis \<Rightarrow> int" where
  "signup_check t KEYS now st = (if key_blocked t now st (KEYS ! 0) then 1 else 0)"

definition signup_recordfailure :: "time \<Rightarrow> string list \<Rightarrow> int \<Rightarrow> redis \<Rightarrow> int \<times> redis" where
  "signup_recordfailure t KEYS now st = (let (failures, st') = record_key t now (KEYS ! 0) st in (0, st'))"

definition window_full :: "time \<Rightarrow> int \<Rightarrow> int \<Rightarrow> redis \<Rightarrow> string \<Rightarrow> bool" where
  "window_full t now len st k =
     (let attempts = (case HGET t k ''attempts'' st of None \<Rightarrow> 0 | Some n \<Rightarrow> n)
      in case HGET t k ''window_start'' st of
           None \<Rightarrow> False
         | Some s \<Rightarrow> now - s < len \<and> attempts \<ge> 3)"

definition resetpasswordrequest_check :: "time \<Rightarrow> string list \<Rightarrow> int \<Rightarrow> redis \<Rightarrow> int" where
  "resetpasswordrequest_check t KEYS now st =
     (if list_ex (key_blocked t now st) KEYS then 1
      else if window_full t now 60 st (KEYS ! 0) then 1
      else if window_full t now 3600 st (KEYS ! 1) then 1
      else 0)"

definition record_window :: "time \<Rightarrow> int \<Rightarrow> int \<Rightarrow> string \<Rightarrow> redis \<Rightarrow> redis" where
  "record_window t now len k st =
     (let fresh = (case HGET t k ''window_start'' st of None \<Rightarrow> True | Some s \<Rightarrow> now - s \<ge> len);
          st' = (if fresh
                 then HSET t k [(''attempts'', 1), (''window_start'', now), (''last_try'', now),
                                (''next_try'', now + 300)] st
                 else HSET t k [(''last_try'', now), (''next_try'', now + 300)]
                        (snd (HINCRBY t k ''attempts'' 1 st)))
      in EXPIRE t k 3600 st')"

definition resetpasswordrequest_recordfailure :: "time \<Rightarrow> string list \<Rightarrow> int \<Rightarrow> redis \<Rightarrow> int \<times> redis" where
  "resetpasswordrequest_recordfailure t KEYS now st =
     (0, record_window t now 3600 (KEYS ! 1) (record_window t now 60 (KEYS ! 0) st))"

section \<open>The limiter (ratelimiters.go)\<close>

definition RedisKeyBuilder :: "string \<Rightarrow> string \<Rightarrow> string \<Rightarrow> string list" where
  "RedisKeyBuilder endpoint ip email =
     (let prefix = ''auth:'' @ endpoint
      in [prefix @ '':ip:'' @ ip, prefix @ '':account:'' @ email,
          prefix @ '':pair:'' @ ip @ '':'' @ email])"

text \<open>\<^verbatim>\<open>script.Run(..)\<close>: a round trip that may fail before the script has run.\<close>

definition RunScript :: "(time \<Rightarrow> redis \<Rightarrow> int \<times> redis) \<Rightarrow> int M" where
  "RunScript s w =
     (case w_redis_faults w of
        Some e # fs \<Rightarrow> (Err (ErrOther e), w\<lparr>w_redis_faults := fs\<rparr>)
      | fs \<Rightarrow> (case s (w_now w) (w_redis w) of
                (v, st) \<Rightarrow> (Ok v, w\<lparr>w_redis := st, w_redis_faults := drop 1 fs\<rparr>)))"

definition limiter_CheckLogin :: "string \<Rightarrow> string \<Rightarrow> unit M" where
  "limiter_CheckLogin ip email =
     bindM time_Now (\<lambda>now.
     bindM (RunScript (\<lambda>t st. (login_check t (RedisKeyBuilder ''login'' ip email) (Unix now) st, st)))
     (\<lambda>blocked. if blocked = 1 then throw LimiterRateLimited else ret ()))"

definition limiter_RecordLoginFailure :: "string \<Rightarrow> string \<Rightarrow> int \<Rightarrow> int M" where
  "limiter_RecordLoginFailure ip email notifyAttempt =
     bindM time_Now (\<lambda>now.
     RunScript (\<lambda>t. login_recordfailure t (RedisKeyBuilder ''login'' ip email) (Unix now) notifyAttempt))"

definition limiter_CheckSignup :: "string \<Rightarrow> unit M" where
  "limiter_CheckSignup ip =
     bindM time_Now (\<lambda>now.
     bindM (RunScript (\<lambda>t st. (signup_check t [RedisKeyBuilder ''signup'' ip [] ! 0] (Unix now) st, st)))
     (\<lambda>result. if result = 1 then throw LimiterRateLimited else ret ()))"

definition limiter_RecordSignupAttempt :: "string \<Rightarrow> unit M" where
  "limiter_RecordSignupAttempt ip =
     bindM time_Now (\<lambda>now.
     bindM (RunScript (\<lambda>t. signup_recordfailure t [RedisKeyBuilder ''signup'' ip [] ! 0] (Unix now)))
     (\<lambda>_. ret ()))"

definition limiter_CheckPasswordResetRequest :: "string \<Rightarrow> string \<Rightarrow> unit M" where
  "limiter_CheckPasswordResetRequest ip email =
     bindM time_Now (\<lambda>now.
     bindM (RunScript (\<lambda>t st.
        (resetpasswordrequest_check t (take 2 (RedisKeyBuilder ''reset'' ip email)) (Unix now) st, st)))
     (\<lambda>result. if result = 1 then throw LimiterRateLimited else ret ()))"

definition limiter_RecordPasswordResetRequest :: "string \<Rightarrow> string \<Rightarrow> unit M" where
  "limiter_RecordPasswordResetRequest ip email =
     bindM time_Now (\<lambda>now.
     bindM (RunScript (\<lambda>t.
        resetpasswordrequest_recordfailure t (take 2 (RedisKeyBuilder ''reset'' ip email)) (Unix now)))
     (\<lambda>_. ret ()))"

lemmas limiter_defs [call_defs] =
  limiter_CheckLogin_def limiter_RecordLoginFailure_def limiter_CheckSignup_def
  limiter_RecordSignupAttempt_def limiter_CheckPasswordResetRequest_def
  limiter_RecordPasswordResetRequest_def

lemma keeps_RunScript [keeps_intros]:
  "keeps (db_inv J) (RunScript s)" "keeps (committed_is d) (RunScript s)"
  by (auto simp: keeps_def RunScript_def split: list.splits option.splits prod.splits)

lemma keeps_limiter [keeps_intros]:
  assumes "keeps I time_Now" "\<And>s. keeps I (RunScript s)"
  shows "keeps I (limiter_CheckLogin ip em)" "keeps I (limiter_RecordLoginFailure ip em n)"
    "keeps I (limiter_CheckSignup ip)" "keeps I (limiter_RecordSignupAttempt ip)"
    "keeps I (limiter_CheckPasswordResetRequest ip em)"
    "keeps I (limiter_RecordPasswordResetRequest ip em)"
  unfolding limiter_defs by (intro keeps_intros assms)+

section \<open>What the commands change\<close>

lemma frame_cmds [simp]:
  "k' \<noteq> k \<Longrightarrow> HSET t k fvs st k' = st k'"
  "k' \<noteq> k \<Longrightarrow> EXPIRE t k s st k' = st k'"
  by (auto simp: HSET_def EXPIRE_def)

lemma record_key_frame: "k' \<noteq> k \<Longrightarrow> snd (record_key t now k st) k' = st k'"
  by (simp add: record_key_def HINCRBY_def Let_def)

lemma record_keys_frame: "k' \<notin> set ks \<Longrightarrow> snd (record_keys t now na n ks st) k' = st k'"
proof (induction ks arbitrary: n st)
  case (Cons k ks)
  obtain f st1 where r: "record_key t now k st = (f, st1)" by fastforce
  with Cons record_key_frame[of k' k t now st] show ?case by simp
qed simp

lemma record_window_frame: "k' \<noteq> k \<Longrightarrow> record_window t now len k st k' = st k'"
  by (simp add: record_window_def HINCRBY_def Let_def)

definition failures_of :: "time \<Rightarrow> redis \<Rightarrow> string \<Rightarrow> int" where
  "failures_of t st k = (case HGET t k ''failures'' st of None \<Rightarrow> 0 | Some n \<Rightarrow> n)"

lemma live_HSET: "live t (HSET t k fvs st) k = live t st k ++ map_of fvs"
  by (auto simp: HSET_def live_def live_expiry_def split: option.splits)

lemma EXPIRE_key: "st k \<noteq> None \<Longrightarrow> EXPIRE t k s st k = Some (live t st k, Some (t + s * Second))"
  by (simp add: EXPIRE_def)

lemma HSET_not_None [simp]: "HSET t k fvs st k \<noteq> None"
  by (simp add: HSET_def)

text \<open>The hash of one key after a recorded failure.\<close>

definition recorded :: "time \<Rightarrow> int \<Rightarrow> redis \<Rightarrow> string \<Rightarrow> hash" where
  "recorded t now st k =
     (live t st k)(''failures'' \<mapsto> failures_of t st k + 1,
       ''next_try'' \<mapsto> penalty now (failures_of t st k + 1), ''last_try'' \<mapsto> now)"

lemma record_key_spec:
  assumes "record_key t now k st = (n, st')"
  shows "n = failures_of t st k + 1"
    and "st' k = Some (recorded t now st k, Some (t + 3600 * Second))"
  using assms
  by (auto simp: record_key_def HINCRBY_def Let_def failures_of_def HGET_def recorded_def EXPIRE_key
      live_HSET)

lemma recorded_cong: "st k = st' k \<Longrightarrow> recorded t now st k = recorded t now st' k"
  by (simp add: recorded_def failures_of_def HGET_def live_def)

lemma failures_cong: "st k = st' k \<Longrightarrow> failures_of t st k = failures_of t st' k"
  by (simp add: failures_of_def HGET_def live_def)

lemma record_keys_spec:
  assumes "distinct ks" "record_keys t now na n ks st = (b, st')"
  shows "b = (n \<or> (\<exists>k \<in> set ks. failures_of t st k + 1 = na)) \<and>
    (\<forall>k \<in> set ks. st' k = Some (recorded t now st k, Some (t + 3600 * Second)))"
  using assms
proof (induction ks arbitrary: n st)
  case (Cons x ks)
  obtain f st1 where r: "record_key t now x st = (f, st1)" by fastforce
  note spec = record_key_spec[OF r]
  have same: "st1 y = st y" if "y \<in> set ks" for y
    using record_key_frame[of y x t now st] r that Cons.prems(1) by auto
  have rest: "record_keys t now na (n \<or> f = na) ks st1 = (b, st')" using Cons.prems(2) r by simp
  have x: "st' x = st1 x"
    using record_keys_frame[of x ks t now na "n \<or> f = na" st1] rest Cons.prems(1) by simp
  have eqs: "failures_of t st1 y = failures_of t st y" "recorded t now st1 y = recorded t now st y"
    if "y \<in> set ks" for y
    using failures_cong[of st1 y st] recorded_cong[of st1 y st] same[OF that] by simp_all
  have "distinct ks" using Cons.prems(1) by simp
  from Cons.IH[OF this rest] have ih: "b = ((n \<or> f = na) \<or> (\<exists>k \<in> set ks. failures_of t st k + 1 = na))"
    "\<forall>k \<in> set ks. st' k = Some (recorded t now st k, Some (t + 3600 * Second))"
    by (simp_all add: eqs cong: bex_cong_simp ball_cong_simp)
  have "st' x = Some (recorded t now st x, Some (t + 3600 * Second))" using x spec(2) by simp
  moreover have "(f = na) = (failures_of t st x + 1 = na)" using spec(1) by simp
  ultimately show ?case using ih by (simp only: list.set ball_simps bex_simps) blast
qed simp

lemma builder_distinct: "distinct (RedisKeyBuilder e ip em)"
  by (simp add: RedisKeyBuilder_def Let_def)

lemma login_recordfailure_spec:
  assumes "distinct ks" "login_recordfailure t ks now na st = (v, st')"
    and "\<not> list_ex (key_blocked t now st) ks"
  shows "v = (if \<exists>k \<in> set ks. failures_of t st k + 1 = na then 2 else 0)"
    and "k \<in> set ks \<Longrightarrow> st' k = Some (recorded t now st k, Some (t + 3600 * Second))"
    and "k \<notin> set ks \<Longrightarrow> st' k = st k"
proof -
  obtain b st1 where r: "record_keys t now na False ks st = (b, st1)" by fastforce
  with assms(2,3) have v: "v = (if b then 2 else 0)" "st' = st1"
    by (auto simp: login_recordfailure_def)
  note spec = record_keys_spec[OF assms(1) r]
  from spec v show "v = (if \<exists>k \<in> set ks. failures_of t st k + 1 = na then 2 else 0)" by simp
  from spec v show "k \<in> set ks \<Longrightarrow> st' k = Some (recorded t now st k, Some (t + 3600 * Second))" by simp
  show "k \<notin> set ks \<Longrightarrow> st' k = st k"
    using record_keys_frame[of k ks t now na False st] r v(2) by simp
qed

text \<open>What is read of a key within the hour after its last recorded failure.\<close>

lemma read_recorded:
  assumes "st' k = Some (h, Some (t + 3600 * Second))" "t' \<le> t + 3600 * Second"
  shows "HGET t' k f st' = h f" "failures_of t' st' k = (case h ''failures'' of None \<Rightarrow> 0 | Some n \<Rightarrow> n)"
  using assms by (auto simp: HGET_def live_def failures_of_def)

section \<open>Isolation of clients\<close>

text \<open>
  The contract shared by the three limiters: recording touches only the given keys, and checking
  depends only on the given keys. Hence clients with different keys do not affect each other.
\<close>

locale keyed_limiter =
  fixes check :: "time \<Rightarrow> string list \<Rightarrow> int \<Rightarrow> redis \<Rightarrow> int"
    and record_try :: "time \<Rightarrow> string list \<Rightarrow> int \<Rightarrow> redis \<Rightarrow> redis"
    and width :: nat
  assumes record_frame: "k \<notin> set ks \<Longrightarrow> length ks = width \<Longrightarrow> record_try t ks now st k = st k"
    and check_local: "length ks = width \<Longrightarrow> (\<And>k. k \<in> set ks \<Longrightarrow> st k = st' k) \<Longrightarrow>
      check t ks now st = check t ks now st'"
begin

lemma isolation:
  assumes "set ks \<inter> set js = {}" "length ks = width" "length js = width"
  shows "check t' js now' (record_try t ks now st) = check t' js now' st"
  using assms by (intro check_local) (auto intro: record_frame)

end

lemma key_blocked_local: "st k = st' k \<Longrightarrow> key_blocked t now st k = key_blocked t now st' k"
  by (simp add: key_blocked_def HGET_def live_def)

lemma list_ex_blocked_local:
  "(\<And>k. k \<in> set ks \<Longrightarrow> st k = st' k) \<Longrightarrow>
     list_ex (key_blocked t now st) ks = list_ex (key_blocked t now st') ks"
  by (intro list_ex_cong refl key_blocked_local) auto

interpretation login_limiter: keyed_limiter login_check
  "\<lambda>t ks now st. snd (login_recordfailure t ks now na st)" 3
proof (unfold_locales, goal_cases)
  case (1 k ks t now st)
  then show ?case
    using record_keys_frame[of k ks t now na False st]
    by (auto simp: login_recordfailure_def split: prod.splits)
next
  case (2 ks st st' t now)
  then show ?case using list_ex_blocked_local[of ks st st' t now] by (simp add: login_check_def)
qed

interpretation signup_limiter: keyed_limiter signup_check
  "\<lambda>t ks now st. snd (signup_recordfailure t ks now st)" 1
proof (unfold_locales, goal_cases)
  case (1 k ks t now st)
  then have "k \<noteq> ks ! 0" using nth_mem[of 0 ks] by auto
  from record_key_frame[OF this, of t now st] show ?case
    by (auto simp: signup_recordfailure_def split: prod.splits)
next
  case (2 ks st st' t now)
  then have "ks ! 0 \<in> set ks" by simp
  with 2 key_blocked_local[of st "ks ! 0" st' t now] show ?case by (simp add: signup_check_def)
qed

interpretation reset_limiter: keyed_limiter resetpasswordrequest_check
  "\<lambda>t ks now st. snd (resetpasswordrequest_recordfailure t ks now st)" 2
proof (unfold_locales, goal_cases)
  case (1 k ks t now st)
  then have "k \<noteq> ks ! 0" "k \<noteq> ks ! 1" using nth_mem[of 0 ks] nth_mem[of 1 ks] by auto
  then show ?case by (simp add: resetpasswordrequest_recordfailure_def record_window_frame)
next
  case (2 ks st st' t now)
  then have e: "st (ks ! 0) = st' (ks ! 0)" "st (ks ! 1) = st' (ks ! 1)" by simp_all
  then have "window_full t now n st (ks ! 0) = window_full t now n st' (ks ! 0)"
    "window_full t now n st (ks ! 1) = window_full t now n st' (ks ! 1)" for n
    by (simp_all add: window_full_def HGET_def live_def)
  with 2 list_ex_blocked_local[of ks st st' t now] show ?case
    by (simp add: resetpasswordrequest_check_def)
qed

section \<open>Bursts\<close>

text \<open>\<open>n\<close> failed logins recorded one after the other at the same moment.\<close>

primrec login_burst :: "time \<Rightarrow> string list \<Rightarrow> int \<Rightarrow> int \<Rightarrow> nat \<Rightarrow> redis \<Rightarrow> redis" where
  "login_burst t ks now na 0 st = st"
| "login_burst t ks now na (Suc n) st = snd (login_recordfailure t ks now na (login_burst t ks now na n st))"

definition burst_state :: "time \<Rightarrow> int \<Rightarrow> nat \<Rightarrow> redis \<Rightarrow> string \<Rightarrow> bool" where
  "burst_state t now n st k \<longleftrightarrow>
     failures_of t st k = int (min n 6) \<and>
     (if n = 0 then st k = None
      else HGET t k ''next_try'' st = Some (if n < 6 then 0 else now + 300))"

lemma burst_blocked: "burst_state t now n st k \<Longrightarrow> 0 \<le> now \<Longrightarrow> key_blocked t now st k = (6 \<le> n)"
  by (auto simp: burst_state_def key_blocked_def HGET_def live_def split: if_splits)

lemma burst_step:
  assumes "st' k = Some (recorded t now st k, Some (t + 3600 * Second))" "burst_state t now n st k" "n < 6"
  shows "burst_state t now (Suc n) st' k"
proof -
  have f: "failures_of t st k = int n" using assms(2,3) by (simp add: burst_state_def)
  have t: "t \<le> t + 3600 * Second" by (simp add: Second_def)
  have "penalty now (int n + 1) = (if Suc n < 6 then 0 else now + 300)"
    using assms(3) by (simp add: penalty_def)
  moreover have "int (min (Suc n) 6) = int n + 1" using assms(3) by simp
  ultimately show ?thesis
    unfolding burst_state_def read_recorded[of st' k, OF assms(1) t] by (simp add: recorded_def f)
qed

lemma burst_invariant:
  assumes "distinct ks" "ks \<noteq> []" "0 \<le> now" "\<forall>k \<in> set ks. st k = None"
  shows "\<forall>k \<in> set ks. burst_state t now n (login_burst t ks now na n st) k"
proof (induction n)
  case 0
  then show ?case using assms(4) by (auto simp: burst_state_def failures_of_def HGET_def live_def)
next
  case (Suc n)
  let ?st = "login_burst t ks now na n st"
  obtain v st' where r: "login_recordfailure t ks now na ?st = (v, st')" by fastforce
  have ex: "list_ex (key_blocked t now ?st) ks = (6 \<le> n)"
    using Suc assms(2,3) burst_blocked[of t now n ?st] by (cases ks) (auto simp: list_ex_iff)
  show ?case
  proof (cases "6 \<le> n")
    case True
    with ex r have "st' = ?st" by (simp add: login_recordfailure_def)
    with Suc True r show ?thesis by (auto simp: burst_state_def min_def)
  next
    case False
    with ex have nb: "\<not> list_ex (key_blocked t now ?st) ks" by simp
    from False login_recordfailure_spec(2)[OF assms(1) r nb] Suc r show ?thesis
      using burst_step[of st' _ t now ?st n] by simp
  qed
qed

section \<open>Properties\<close>

text \<open>
  Login throttling: of any number of failed logins of a client not seen before, recorded in one
  moment, the first five leave the client free, the sixth blocks it for 300 seconds, and
  attempts while it is blocked count no further; the failure that reaches \<^verbatim>\<open>notifyAttempt\<close> is
  answered with 2 (notify), a blocked one with 1, every other one with 0.
\<close>

lemma login_burst_throttled:
  assumes "0 \<le> now" "\<forall>k \<in> set (RedisKeyBuilder ''login'' ip email). st k = None"
    and "st' = login_burst t (RedisKeyBuilder ''login'' ip email) now na n st"
  shows "login_check t (RedisKeyBuilder ''login'' ip email) now st' = (if n < 6 then 0 else 1) \<and>
    (\<forall>k \<in> set (RedisKeyBuilder ''login'' ip email). failures_of t st' k = int (min n 6)) \<and>
    fst (login_recordfailure t (RedisKeyBuilder ''login'' ip email) now na st') =
      (if 6 \<le> n then 1 else if int n + 1 = na then 2 else 0)"
proof (intro conjI)
  let ?ks = "RedisKeyBuilder ''login'' ip email"
  have ne: "?ks \<noteq> []" by (simp add: RedisKeyBuilder_def Let_def)
  have inv: "\<forall>k \<in> set ?ks. burst_state t now n st' k"
    unfolding assms(3) by (rule burst_invariant[OF builder_distinct ne assms(1,2)])
  then have ex: "list_ex (key_blocked t now st') ?ks = (6 \<le> n)"
    using ne assms(1) burst_blocked[of t now n st'] by (cases ?ks) (auto simp: list_ex_iff)
  then show "login_check t ?ks now st' = (if n < 6 then 0 else 1)" by (simp add: login_check_def)
  show "\<forall>k \<in> set ?ks. failures_of t st' k = int (min n 6)" using inv by (simp add: burst_state_def)
  show "fst (login_recordfailure t ?ks now na st') = (if 6 \<le> n then 1 else if int n + 1 = na then 2 else 0)"
  proof (cases "6 \<le> n")
    case False
    obtain v s where r: "login_recordfailure t ?ks now na st' = (v, s)" by fastforce
    have "\<forall>k \<in> set ?ks. failures_of t st' k = int n" using inv False by (simp add: burst_state_def)
    then have "(\<exists>k \<in> set ?ks. failures_of t st' k + 1 = na) = (int n + 1 = na)"
      using ne by (cases ?ks) auto
    with login_recordfailure_spec(1)[OF builder_distinct r] ex False r show ?thesis by simp
  qed (simp add: login_recordfailure_def ex)
qed

lemma login_burst_throttled_witness:
  "login_check 0 (RedisKeyBuilder ''login'' ''1.2.3.4'' ''a@b'') 100
     (login_burst 0 (RedisKeyBuilder ''login'' ''1.2.3.4'' ''a@b'') 100 5 6 Map.empty) = 1"
  using login_burst_throttled[of 100 "''1.2.3.4''" "''a@b''" Map.empty _ 0 5 6] by simp

lemma RunScript_Ok:
  "RunScript s w = (Ok v, w') \<Longrightarrow> s (w_now w) (w_redis w) = (v, w_redis w')"
  by (auto simp: RunScript_def split: list.splits option.splits prod.splits)

lemma RunScript_quiet:
  "w_redis_faults w = [] \<Longrightarrow> RunScript s w = (Ok (fst (s (w_now w) (w_redis w))),
     w\<lparr>w_redis := snd (s (w_now w) (w_redis w)), w_redis_faults := []\<rparr>)"
  by (simp add: RunScript_def split: prod.splits)

text \<open>
  C30: When a failed login has been recorded and one of the client's three counters (address,
  account, address and account) has thereby reached six, every check of that client in the next
  300 seconds is refused; from eleven on, in the next 3600 seconds. The counter's key has not
  expired before that time, whenever in that time the check is made.
\<close>

theorem login_failure_blocks:
  assumes "limiter_RecordLoginFailure ip email na w = (Ok v, w1)" "v \<noteq> 1"
    and "k \<in> set (RedisKeyBuilder ''login'' ip email)"
    and "n = failures_of (w_now (tick w)) (w_redis w) k + 1"
    and "Unix (w_now w2) < Unix (w_now w) + (if n \<ge> 11 then 3600 else if n \<ge> 6 then 300 else 0)"
    and "6 \<le> n" "w_redis w2 = w_redis w1" "w_redis_faults w2 = []" "w_now (tick w2) \<le> w_now (tick w) + 3600 * Second"
  shows "fst (limiter_CheckLogin ip email w2) = Err LimiterRateLimited"
proof -
  let ?ks = "RedisKeyBuilder ''login'' ip email" and ?t = "w_now (tick w)"
  have run: "login_recordfailure ?t ?ks (Unix (w_now w)) na (w_redis w) = (v, w_redis w1)"
    using assms(1) RunScript_Ok by (fastforce simp: limiter_RecordLoginFailure_def bindM_Ok_iff time_Now_eq)
  with assms(2) have nb: "\<not> list_ex (key_blocked ?t (Unix (w_now w)) (w_redis w)) ?ks"
    by (auto simp: login_recordfailure_def)
  from login_recordfailure_spec(2)[OF builder_distinct run nb assms(3)] have
    st: "w_redis w1 k = Some (recorded ?t (Unix (w_now w)) (w_redis w) k, Some (?t + 3600 * Second))" .
  have "HGET (w_now (tick w2)) k ''next_try'' (w_redis w1) = Some (penalty (Unix (w_now w)) n)"
    using read_recorded(1)[of "w_redis w1" k, OF st assms(9)] assms(4) by (simp add: recorded_def)
  then have "key_blocked (w_now (tick w2)) (Unix (w_now w2)) (w_redis w1) k"
    using assms(5,6) by (simp add: key_blocked_def penalty_def split: if_splits)
  with assms(3) have "list_ex (key_blocked (w_now (tick w2)) (Unix (w_now w2)) (w_redis w1)) ?ks"
    by (auto simp: list_ex_iff)
  then show ?thesis
    using assms(7,8)
    by (simp add: limiter_CheckLogin_def bindM_def attempt_def time_Now_eq RunScript_quiet login_check_def)
qed

definition six_failures :: world where
  "six_failures = sample_world\<lparr>w_redis := [''auth:login:account:a@b'' \<mapsto> ([''failures'' \<mapsto> 5], None)]\<rparr>"

lemma login_failure_blocks_witness:
  "\<exists>v w1. limiter_RecordLoginFailure ''ip'' ''a@b'' 5 six_failures = (Ok v, w1) \<and>
    fst (limiter_CheckLogin ''ip'' ''a@b'' w1) = Err LimiterRateLimited"
proof -
  let ?ks = "RedisKeyBuilder ''login'' ''ip'' ''a@b''" and ?w = "six_failures"
  have t: "tick ?w = ?w" by (rule tick_quiet) (simp add: six_failures_def)
  have nf: "w_redis_faults ?w = []" by (simp add: six_failures_def)
  have run: "limiter_RecordLoginFailure ''ip'' ''a@b'' 5 ?w =
      (Ok (fst (login_recordfailure (w_now ?w) ?ks (Unix (w_now ?w)) 5 (w_redis ?w))),
       ?w\<lparr>w_redis := snd (login_recordfailure (w_now ?w) ?ks (Unix (w_now ?w)) 5 (w_redis ?w)), w_redis_faults := []\<rparr>)"
    by (simp add: limiter_RecordLoginFailure_def bindM_def attempt_def time_Now_eq t
        RunScript_quiet[of ?w] nf)
  have f: "failures_of (w_now (tick ?w)) (w_redis ?w) (?ks ! 1) = 5"
    by (simp add: t six_failures_def RedisKeyBuilder_def Let_def failures_of_def HGET_def live_def)
  have "\<not> list_ex (key_blocked (w_now ?w) (Unix (w_now ?w)) (w_redis ?w)) ?ks"
    by (simp add: six_failures_def RedisKeyBuilder_def Let_def key_blocked_def HGET_def live_def)
  then have nb: "fst (login_recordfailure (w_now ?w) ?ks (Unix (w_now ?w)) 5 (w_redis ?w)) \<noteq> 1"
    by (auto simp: login_recordfailure_def split: prod.splits)
  have k: "?ks ! 1 \<in> set ?ks" by (simp add: RedisKeyBuilder_def Let_def)
  let ?w1 = "?w\<lparr>w_redis := snd (login_recordfailure (w_now ?w) ?ks (Unix (w_now ?w)) 5 (w_redis ?w)), w_redis_faults := []\<rparr>"
  have "tick ?w1 = ?w1" by (rule tick_quiet) (simp add: six_failures_def)
  with login_failure_blocks[OF run nb k refl, of ?w1] run f t show ?thesis
    by (simp add: Second_def)
qed

text \<open>
  One client's failed logins do not throttle another: with another address, another account and
  another pair text, the outcome of a login check is what it was; and failed logins never change
  the outcome of the sign-up or the password-reset check of anybody.
\<close>

lemma limiter_isolation:
  assumes "ip \<noteq> ip'" "email \<noteq> email'" "ip @ '':'' @ email \<noteq> ip' @ '':'' @ email'"
    and "st' = snd (login_recordfailure t (RedisKeyBuilder ''login'' ip email) now na st)"
  shows "login_check t' (RedisKeyBuilder ''login'' ip' email') now' st' =
      login_check t' (RedisKeyBuilder ''login'' ip' email') now' st \<and>
    signup_check t' [RedisKeyBuilder ''signup'' ip'' [] ! 0] now' st' =
      signup_check t' [RedisKeyBuilder ''signup'' ip'' [] ! 0] now' st \<and>
    resetpasswordrequest_check t' (take 2 (RedisKeyBuilder ''reset'' ip'' email'')) now' st' =
      resetpasswordrequest_check t' (take 2 (RedisKeyBuilder ''reset'' ip'' email'')) now' st"
proof -
  let ?ks = "RedisKeyBuilder ''login'' ip email"
  have len: "length (RedisKeyBuilder e i m) = 3" for e i m by (simp add: RedisKeyBuilder_def Let_def)
  have frame: "st' k = st k" if "k \<notin> set ?ks" for k
    using login_limiter.record_frame[OF that len] assms(4) by simp
  have "set ?ks \<inter> set (RedisKeyBuilder ''login'' ip' email') = {}"
    using assms(1-3) by (auto simp: RedisKeyBuilder_def Let_def)
  then have "login_check t' (RedisKeyBuilder ''login'' ip' email') now' st' =
      login_check t' (RedisKeyBuilder ''login'' ip' email') now' st"
    using login_limiter.isolation[OF _ len len] assms(4) by simp
  moreover have "signup_check t' [RedisKeyBuilder ''signup'' ip'' [] ! 0] now' st' =
      signup_check t' [RedisKeyBuilder ''signup'' ip'' [] ! 0] now' st"
    by (rule signup_limiter.check_local) (auto intro!: frame simp: RedisKeyBuilder_def Let_def)
  moreover have "resetpasswordrequest_check t' (take 2 (RedisKeyBuilder ''reset'' ip'' email'')) now' st' =
      resetpasswordrequest_check t' (take 2 (RedisKeyBuilder ''reset'' ip'' email'')) now' st"
    by (rule reset_limiter.check_local) (auto intro!: frame simp: RedisKeyBuilder_def Let_def)
  ultimately show ?thesis by blast
qed

lemma limiter_isolation_witness:
  "login_check 0 (RedisKeyBuilder ''login'' ''2.2.2.2'' ''c@d'') 100
     (snd (login_recordfailure 0 (RedisKeyBuilder ''login'' ''1.1.1.1'' ''a@b'') 100 5 Map.empty)) =
   login_check 0 (RedisKeyBuilder ''login'' ''2.2.2.2'' ''c@d'') 100 Map.empty"
  using limiter_isolation[of "''1.1.1.1''" "''2.2.2.2''" "''a@b''" "''c@d''" _ 0 100 5 Map.empty 0 100 "[]" "[]"]
  by simp

end
