(* ===== verification/Service.thy ===== *)
theory Service
  imports Refresh_Repo Email_Repo Tenants_Repo Outbox_Repo Tokens Rate_Limiter
begin

text \<open>
  \<^verbatim>\<open>internal/auth/service.go\<close> and \<^verbatim>\<open>context.go\<close>: the operations of the service, each as one
  definition that makes the calls of the Go method in the same order. The service is wired to the
  PostgreSQL repositories (\<^verbatim>\<open>cmd/server/main.go\<close>: the outbox exists only there). Marshalling
  the payload structs cannot fail, and the mailer and repositories are never nil.
\<close>

section \<open>Context and configuration (context.go)\<close>

record request_ctx =
  ctx_UserID :: "string option"
  ctx_Email :: "string option"
  ctx_Tenant :: "Tenant option"
  ctx_RequestID :: "string option"

definition background :: request_ctx where
  "background = \<lparr>ctx_UserID = None, ctx_Email = None, ctx_Tenant = None, ctx_RequestID = None\<rparr>"

definition UserIDFromContext :: "request_ctx \<Rightarrow> string option" where
  "UserIDFromContext ctx = ctx_UserID ctx"

definition EmailFromContext :: "request_ctx \<Rightarrow> string option" where
  "EmailFromContext ctx = ctx_Email ctx"

definition TenantFromContext :: "request_ctx \<Rightarrow> Tenant option" where
  "TenantFromContext ctx = ctx_Tenant ctx"

record Service =
  sv_lib :: lib
  sv_privateKey :: privkey
  sv_publicKey :: pubkey
  sv_tokenSecret :: string
  sv_app_url :: string

definition suspiciousLoginNotifyAt :: int where "suspiciousLoginNotifyAt = 5"

section \<open>Register\<close>

definition Register :: "Service \<Rightarrow> string \<Rightarrow> string \<Rightarrow> unit M" where
  "Register S email password =
     bindM (HashPassword (sv_lib S) password) (\<lambda>hash.
     bindM time_Now (\<lambda>now.
     bindM uuid_NewV7 (\<lambda>userid.
     bindM (mapErr wrapUserCreateError (users_Create
       \<lparr>u_ID = userid, u_Email = email, u_Username = None, u_PasswordHash = Some hash,
        u_EmailVerified = False, u_IsActive = False, u_LockedAt = None, u_Tenant_ID = uuid_Nil,
        u_CreatedAt = now, u_UpdatedAt = now\<rparr>)) (\<lambda>_.
     bindM (uuid_NewString (sv_lib S)) (\<lambda>rawToken.
     bindM uuid_NewV7 (\<lambda>tokenid.
     bindM (email_Create
       \<lparr>ev_ID = tokenid, ev_UserID = userid, ev_TokenHash = HashToken rawToken (sv_tokenSecret S),
        ev_ExpiresAt = now + 24 * Hour, ev_UsedAt = None, ev_CreatedAt = now\<rparr>) (\<lambda>_.
     attempt (SendVerificationEmail email rawToken) (\<lambda>_. ret ()) (\<lambda>_. ret ()))))))))"

section \<open>Sign-up\<close>

record SignUpDataBundle =
  sd_User :: User
  sd_EmailVerificationToken :: EmailVerificationToken
  sd_RefreshToken :: RefreshToken
  sd_UserCreatedEvent :: OutboxEvent
  sd_EmailVerificationEvent :: OutboxEvent
  sd_UserInfoDTO :: UserInfo
  sd_PlainRefreshToken :: string
  sd_PlainEmailToken :: string

definition VerifyEmailURLConstructor :: "string \<Rightarrow> string \<Rightarrow> string" where
  "VerifyEmailURLConstructor BaseURL token = BaseURL @ ''/verify-email?t='' @ token"

definition signUpDataBuilder ::
  "Service \<Rightarrow> string \<Rightarrow> string \<Rightarrow> string \<Rightarrow> string \<Rightarrow> string \<Rightarrow> uuid \<Rightarrow> SignUpDataBundle M"
where
  "signUpDataBuilder S email username password clientID tenantN tenantID =
     bindM time_Now (\<lambda>now.
     bindM (HashPassword (sv_lib S) password) (\<lambda>hash.
     bindM uuid_NewV7 (\<lambda>userID.
     let user = \<lparr>u_ID = userID, u_Email = email, u_Username = None, u_PasswordHash = Some hash,
        u_EmailVerified = False, u_IsActive = False, u_LockedAt = None, u_Tenant_ID = tenantID,
        u_CreatedAt = now, u_UpdatedAt = now\<rparr> in
     bindM (GenerateEmailVerificationToken userID (sv_tokenSecret S))
       (\<lambda>(emailPlainToken, emailVerificationToken).
     bindM uuid_NewV7 (\<lambda>familyID.
     bindM (GenerateRefreshToken (u_ID user) familyID uuid_Nil tenantID clientID (sv_tokenSecret S))
       (\<lambda>(plainRefreshToken, refreshToken).
     let userInfo = \<lparr>ui_UserID = u_ID user, ui_Email = email, ui_Username = username,
        ui_Verified = False, ui_CreatedAt = now\<rparr> in
     bindM uuid_NewV7 (\<lambda>userCreatedEventID.
     let userCreatedEvent =
       new_event userCreatedEventID UserCreated (UserInfoJSON userInfo) StatusPending now now in
     bindM uuid_NewV7 (\<lambda>emailVerificationEventID.
     let emailPayload = \<lparr>ep_Tenant = tenantN, ep_UserID = u_ID user, ep_Email = email,
        ep_Username = u_Username user, ep_EventID = emailVerificationEventID, ep_IP = [],
        ep_PayloadData = EmailVerificationRequestPayload
          (VerifyEmailURLConstructor (sv_app_url S) emailPlainToken)
          (ev_ExpiresAt emailVerificationToken)\<rparr>;
       emailVerificationEvent = new_event emailVerificationEventID EmailVerificationRequested
         (EmailContextJSON emailPayload) StatusPending now now in
     ret \<lparr>sd_User = user, sd_EmailVerificationToken = emailVerificationToken,
          sd_RefreshToken = refreshToken, sd_UserCreatedEvent = userCreatedEvent,
          sd_EmailVerificationEvent = emailVerificationEvent, sd_UserInfoDTO = userInfo,
          sd_PlainRefreshToken = plainRefreshToken, sd_PlainEmailToken = emailPlainToken\<rparr>))))))))"

definition signUpTransaction ::
  "User \<Rightarrow> EmailVerificationToken \<Rightarrow> RefreshToken \<Rightarrow> OutboxEvent \<Rightarrow> OutboxEvent \<Rightarrow> unit M"
where
  "signUpTransaction user emailtoken refresh outbox outbox_mail =
     withTx (
       bindM (mapErr wrapUserCreateError (users_CreateTx Tx user)) (\<lambda>_.
       bindM (email_CreateTx Tx emailtoken) (\<lambda>_.
       bindM (refresh_CreateTx Tx refresh) (\<lambda>_.
       bindM (outbox_CreateTx Tx outbox) (\<lambda>_.
       bindM (outbox_CreateTx Tx outbox_mail) (\<lambda>_.
       Commit))))))"

record SignupResponse =
  sr_AccessToken :: string
  sr_RefreshToken :: string
  sr_TokenType :: string
  sr_UserInfo :: UserInfo

definition signupResponseBuilder :: "Service \<Rightarrow> User \<Rightarrow> UserInfo \<Rightarrow> string \<Rightarrow> SignupResponse M" where
  "signupResponseBuilder S user userinfo refreshToken =
     bindM (GenerateAccessToken (sv_lib S) (u_ID user) (u_Email user) (sv_privateKey S)) (\<lambda>accessToken.
     ret \<lparr>sr_AccessToken = accessToken, sr_RefreshToken = refreshToken, sr_TokenType = ''bearer'',
          sr_UserInfo = userinfo\<rparr>)"

definition inc_signups :: "world \<Rightarrow> world" where
  "inc_signups w = w\<lparr>w_metrics := (w_metrics w)\<lparr>m_signups_success := m_signups_success (w_metrics w) + 1\<rparr>\<rparr>"

definition SignupService ::
  "Service \<Rightarrow> request_ctx \<Rightarrow> string \<Rightarrow> string \<Rightarrow> string \<Rightarrow> uuid \<Rightarrow> SignupResponse M"
where
  "SignupService S ctx email username password tenant =
     bindM uuid_NewV7 (\<lambda>cId.
     let clientID = signClientID (sv_lib S) cId (bytes_of (sv_tokenSecret S)) in
     case TenantFromContext ctx of
       None \<Rightarrow> throw (ErrOther ''couldnt get tenant'')
     | Some tenant_model \<Rightarrow>
         bindM (signUpDataBuilder S email username password clientID (t_TenantName tenant_model) tenant)
           (\<lambda>sud.
         bindM (signUpTransaction (sd_User sud) (sd_EmailVerificationToken sud) (sd_RefreshToken sud)
             (sd_UserCreatedEvent sud) (sd_EmailVerificationEvent sud)) (\<lambda>_.
         bindM (modify inc_signups) (\<lambda>_.
         signupResponseBuilder S (sd_User sud) (sd_UserInfoDTO sud) (sd_PlainRefreshToken sud)))))"

section \<open>E-mail verification\<close>

definition VerifyEmail :: "Service \<Rightarrow> string \<Rightarrow> unit M" where
  "VerifyEmail S rawToken =
     attempt (email_FindValidByHash (HashToken rawToken (sv_tokenSecret S)))
       (\<lambda>_. throw ErrInvalidVerificationToken)
       (\<lambda>token.
         if ev_UsedAt token \<noteq> None then throw ErrInvalidVerificationToken
         else bindM time_Now (\<lambda>t.
           if t > ev_ExpiresAt token then throw ErrInvalidVerificationToken
           else bindM time_Now (\<lambda>now.
             bindM (email_MarkUsed (ev_ID token) now) (\<lambda>_.
             users_ActivateUser (ev_UserID token)))))"

definition ResendVerification :: "Service \<Rightarrow> request_ctx \<Rightarrow> string \<Rightarrow> unit M" where
  "ResendVerification S ctx email =
     (case TenantFromContext ctx of
        None \<Rightarrow> throw ErrTenantNotFound
      | Some tenant \<Rightarrow>
          attempt (users_FindByEmail email (t_ID tenant)) (\<lambda>_. ret ()) (\<lambda>user.
            if u_IsActive user then ret ()
            else
              bindM (attempt (email_DeleteByUserID (u_ID user)) (\<lambda>_. ret ()) (\<lambda>_. ret ())) (\<lambda>_.
              bindM (uuid_NewString (sv_lib S)) (\<lambda>rawToken.
              bindM uuid_NewV7 (\<lambda>tokenid.
              bindM time_Now (\<lambda>t1. bindM time_Now (\<lambda>t2.
              bindM (email_Create
                \<lparr>ev_ID = tokenid, ev_UserID = u_ID user,
                 ev_TokenHash = HashToken rawToken (sv_tokenSecret S),
                 ev_ExpiresAt = t1 + 24 * Hour, ev_UsedAt = None, ev_CreatedAt = t2\<rparr>) (\<lambda>_.
              SendVerificationEmail (u_Email user) rawToken))))))))"

section \<open>Login\<close>

definition susloginfailure :: "User \<Rightarrow> Tenant \<Rightarrow> string \<Rightarrow> OutboxEvent M" where
  "susloginfailure user tenant req_ip =
     bindM uuid_NewV7 (\<lambda>susloginEventID.
     bindM time_Now (\<lambda>created. bindM time_Now (\<lambda>now.
     ret (new_event susloginEventID UserLoginSucceeded
       (EmailContextJSON \<lparr>ep_Tenant = t_TenantName tenant, ep_UserID = u_ID user,
          ep_Email = u_Email user, ep_Username = u_Username user, ep_EventID = susloginEventID,
          ep_IP = req_ip, ep_PayloadData = NoPayloadData\<rparr>)
       StatusPending (now + 1 * Minute) created))))"

definition inc_login_failure :: "world \<Rightarrow> world" where
  "inc_login_failure w =
     w\<lparr>w_metrics := (w_metrics w)\<lparr>m_login_failure := m_login_failure (w_metrics w) + 1\<rparr>\<rparr>"

definition inc_login_success :: "world \<Rightarrow> world" where
  "inc_login_success w =
     w\<lparr>w_metrics := (w_metrics w)\<lparr>m_login_success := m_login_success (w_metrics w) + 1\<rparr>\<rparr>"

definition loginFailed :: "'a M" where
  "loginFailed = bindM (modify inc_login_failure) (\<lambda>_. throw ErrInvalidCredentials)"

text \<open>\<^verbatim>\<open>FindByEmail\<close> as \<^verbatim>\<open>Login\<close> uses it: no row means a nil user, not an error.\<close>

definition find_user :: "string \<Rightarrow> uuid \<Rightarrow> User option M" where
  "find_user email tenant =
     attempt (users_FindByEmail email tenant)
       (\<lambda>e. if e \<noteq> ErrNoRows then throw e else ret None) (\<lambda>u. ret (Some u))"

text \<open>
  The branch of an unknown account; comparing the password with the dummy hash has no effect on
  the result.
\<close>

definition login_unknown :: "string \<Rightarrow> string \<Rightarrow> 'a M" where
  "login_unknown email req_ip =
     bindM (limiter_RecordLoginFailure req_ip email suspiciousLoginNotifyAt) (\<lambda>_. loginFailed)"

text \<open>
  The branch of a wrong password. The transaction is only ever rolled back: by the deferred call,
  or, when an error returns before that call is deferred, at the end of the request.
\<close>

definition login_wrong_password :: "User \<Rightarrow> Tenant \<Rightarrow> string \<Rightarrow> string \<Rightarrow> 'a M" where
  "login_wrong_password user tenant email req_ip =
     bindM (limiter_RecordLoginFailure req_ip email suspiciousLoginNotifyAt) (\<lambda>send.
     if send = 2
     then bindM BeginTx (\<lambda>_.
          attempt (susloginfailure user tenant req_ip) (\<lambda>_. loginFailed) (\<lambda>susloginevent.
          bindM (outbox_CreateTx Tx susloginevent) (\<lambda>_.
          deferM Rollback loginFailed)))
     else loginFailed)"

text \<open>The tokens and the event of a successful login, built before the transaction.\<close>

definition login_prepare ::
  "Service \<Rightarrow> User \<Rightarrow> Tenant \<Rightarrow> string \<Rightarrow> ((string \<times> string \<times> string) \<times> RefreshToken \<times> OutboxEvent) M"
where
  "login_prepare S user tenant req_ip =
     bindM (GenerateAccessToken (sv_lib S) (u_ID user) (u_Email user) (sv_privateKey S)) (\<lambda>access.
     bindM uuid_NewV7 (\<lambda>cId.
     let clientID = signClientID (sv_lib S) cId (bytes_of (sv_tokenSecret S)) in
     bindM uuid_NewV7 (\<lambda>familyID.
     bindM (GenerateRefreshToken (u_ID user) familyID uuid_Nil (u_Tenant_ID user) clientID
         (sv_tokenSecret S)) (\<lambda>(refreshPlain, refreshModel).
     bindM uuid_NewV7 (\<lambda>loginEventID.
     bindM time_Now (\<lambda>created. bindM time_Now (\<lambda>now.
     let LoginOutbox = new_event loginEventID UserLoginSucceeded
       (EmailContextJSON \<lparr>ep_Tenant = t_TenantName tenant, ep_UserID = u_ID user,
          ep_Email = u_Email user, ep_Username = u_Username user, ep_EventID = loginEventID,
          ep_IP = req_ip, ep_PayloadData = NoPayloadData\<rparr>)
       StatusPending (now + 1 * Minute) created in
     ret ((access, refreshPlain, clientID), refreshModel, LoginOutbox))))))))"

definition login_succeed :: "Service \<Rightarrow> User \<Rightarrow> Tenant \<Rightarrow> string \<Rightarrow> (string \<times> string \<times> string) M" where
  "login_succeed S user tenant req_ip =
     bindM (login_prepare S user tenant req_ip) (\<lambda>(tokens, refreshModel, LoginOutbox).
     withTx (
       bindM (outbox_CreateTx Tx LoginOutbox) (\<lambda>_.
       bindM (refresh_CreateTx Tx refreshModel) (\<lambda>_.
       bindM Commit (\<lambda>_.
       bindM (modify inc_login_success) (\<lambda>_.
       ret tokens))))))"

definition login_found ::
  "Service \<Rightarrow> Tenant \<Rightarrow> string \<Rightarrow> string \<Rightarrow> string \<Rightarrow> User \<Rightarrow> (string \<times> string \<times> string) M"
where
  "login_found S tenant email password req_ip user =
     (case u_PasswordHash user of
        None \<Rightarrow> login_unknown email req_ip
      | Some hash \<Rightarrow>
          if ComparePassword (sv_lib S) hash password \<noteq> None
          then login_wrong_password user tenant email req_ip
          else if u_LockedAt user \<noteq> None then throw ErrUserLockedout
          else login_succeed S user tenant req_ip)"

definition Login ::
  "Service \<Rightarrow> request_ctx \<Rightarrow> string \<Rightarrow> string \<Rightarrow> string \<Rightarrow> (string \<times> string \<times> string) M"
where
  "Login S ctx email password req_ip =
     (case TenantFromContext ctx of
        None \<Rightarrow> throw ErrTenantNotFound
      | Some tenant \<Rightarrow>
          bindM (find_user email (t_ID tenant)) (\<lambda>found.
          case found of
            None \<Rightarrow> login_unknown email req_ip
          | Some user \<Rightarrow> login_found S tenant email password req_ip user))"

record DeviceInfo =
  dev_ID :: string
  dev_UserAgent :: string
  dev_IP :: string

definition enqueueNewDeviceEmailTx :: "Service \<Rightarrow> exec \<Rightarrow> User \<Rightarrow> Tenant \<Rightarrow> DeviceInfo \<Rightarrow> unit M" where
  "enqueueNewDeviceEmailTx S tx user tenant dev =
     bindM uuid_NewV7 (\<lambda>eventID.
     bindM time_Now (\<lambda>now.
     outbox_CreateTx tx
       ((new_event eventID EmailNewDeviceLogin
           (EmailContextJSON \<lparr>ep_Tenant = t_TenantName tenant, ep_UserID = u_ID user,
              ep_Email = u_Email user, ep_Username = None, ep_EventID = eventID, ep_IP = dev_IP dev,
              ep_PayloadData = NewDeviceLoginPayload (dev_UserAgent dev) (dev_IP dev) now
                (sv_app_url S @ ''/forgot-password'')\<rparr>)
           StatusPending now now)
         \<lparr>oe_AggregateType := ''user'', oe_AggregateID := u_ID user\<rparr>)))"

section \<open>Refresh tokens\<close>

definition inc_reuse :: "world \<Rightarrow> world" where
  "inc_reuse w = w\<lparr>w_metrics := (w_metrics w)\<lparr>m_refresh_reuse := m_refresh_reuse (w_metrics w) + 1\<rparr>\<rparr>"

definition rotate_reuse :: "RefreshToken \<Rightarrow> uuid \<Rightarrow> 'a M" where
  "rotate_reuse old tenantID =
     bindM (refresh_RevokeAllForFamily Tx (rt_FamilyID old) tenantID) (\<lambda>_.
     bindM Commit (\<lambda>_.
     bindM (modify inc_reuse) (\<lambda>_.
     throw ErrRefreshReuse)))"

definition rotate_live :: "Service \<Rightarrow> RefreshToken \<Rightarrow> uuid \<Rightarrow> (string \<times> RefreshToken) M" where
  "rotate_live S old tenantID =
     bindM (refresh_Revoke Tx (rt_ID old) tenantID) (\<lambda>_.
     bindM (GenerateRefreshToken (rt_UserID old) (rt_FamilyID old) (rt_ID old) tenantID
         (rt_ClientID old) (sv_tokenSecret S)) (\<lambda>(plain, model).
     bindM (refresh_CreateTx Tx model) (\<lambda>_.
     bindM Commit (\<lambda>_.
     ret (plain, model)))))"

definition rotateHelper :: "Service \<Rightarrow> request_ctx \<Rightarrow> string \<Rightarrow> (string \<times> RefreshToken) M" where
  "rotateHelper S ctx refreshToken =
     (case TenantFromContext ctx of
        None \<Rightarrow> throw ErrTenantNotFound
      | Some tenant \<Rightarrow>
          withTx (
            attempt (refresh_FindbyHash Tx (HashToken refreshToken (sv_tokenSecret S)) (t_ID tenant))
              (\<lambda>_. throw ErrInvalidToken)
              (\<lambda>old. bindM time_Now (\<lambda>now.
                 if rt_ExpiresAt old < now then throw ErrInvalidToken
                 else if rt_RevokedAt old \<noteq> None then rotate_reuse old (t_ID tenant)
                 else rotate_live S old (t_ID tenant)))))"

definition Refresh :: "Service \<Rightarrow> request_ctx \<Rightarrow> string \<Rightarrow> (string \<times> string \<times> time) M" where
  "Refresh S ctx refreshToken =
     bindM (rotateHelper S ctx refreshToken) (\<lambda>(newPlain, newModel).
     bindM (users_FindByID (rt_UserID newModel)) (\<lambda>user.
     bindM (GenerateAccessToken (sv_lib S) (u_ID user) (u_Email user) (sv_privateKey S)) (\<lambda>access.
     ret (access, newPlain, rt_ExpiresAt newModel))))"

definition Logout :: "Service \<Rightarrow> request_ctx \<Rightarrow> string \<Rightarrow> unit M" where
  "Logout S ctx refreshToken =
     (case TenantFromContext ctx of
        None \<Rightarrow> throw ErrTenantNotFound
      | Some tenant \<Rightarrow>
          attempt (refresh_FindValidByHash (HashToken refreshToken (sv_tokenSecret S)) (t_ID tenant))
            (\<lambda>_. throw ErrInvalidToken)
            (\<lambda>rt. withTx (
               bindM (refresh_Revoke Tx (rt_ID rt) (t_ID tenant)) (\<lambda>_. Commit))))"

definition RevokeAll :: "request_ctx \<Rightarrow> uuid \<Rightarrow> unit M" where
  "RevokeAll ctx userID =
     (case TenantFromContext ctx of
        None \<Rightarrow> throw ErrTenantNotFound
      | Some tenant \<Rightarrow> refresh_RevokeAllForUser userID (t_ID tenant))"

section \<open>Passwords\<close>

record ChangePasswordRequest =
  cp_Email :: string
  cp_OldPassword :: string
  cp_NewPassword :: string
  cp_NewConfirm :: string

text \<open>A user without a password makes \<^verbatim>\<open>*user.PasswordHash\<close> a nil dereference.\<close>

definition ChangePassword :: "Service \<Rightarrow> request_ctx \<Rightarrow> ChangePasswordRequest \<Rightarrow> string \<Rightarrow> unit M" where
  "ChangePassword S ctx req ip =
     (case TenantFromContext ctx of
        None \<Rightarrow> throw ErrTenantNotFound
      | Some tenant \<Rightarrow>
          bindM (mapErr (\<lambda>e. if e = ErrNoRows then ErrInvalidCredentials else e)
            (users_FindByEmail (cp_Email req) (t_ID tenant))) (\<lambda>user.
          case u_PasswordHash user of
            None \<Rightarrow> panic ''runtime error: invalid memory address or nil pointer dereference''
          | Some hash \<Rightarrow>
              if ComparePassword (sv_lib S) hash (cp_OldPassword req) \<noteq> None
              then throw ErrInvalidCredentials
              else
                bindM (HashPassword (sv_lib S) (cp_NewPassword req)) (\<lambda>hashedpassword.
                withTx (
                  bindM (mapErr (\<lambda>e. if e = ErrNoRows then ErrInvalidCredentials else e)
                    (users_ChangePassword Tx (u_ID user) hashedpassword)) (\<lambda>_.
                  bindM uuid_NewV7 (\<lambda>evID.
                  bindM time_Now (\<lambda>now.
                  bindM (outbox_CreateTx Tx (new_event evID EmailPasswordResetRequested
                    (EmailContextJSON \<lparr>ep_Tenant = t_TenantName tenant, ep_UserID = u_ID user,
                       ep_Email = u_Email user, ep_Username = u_Username user, ep_EventID = evID,
                       ep_IP = ip, ep_PayloadData = NoPayloadData\<rparr>)
                    StatusPending (now + 5 * Minute) now)) (\<lambda>_.
                  Commit))))))))"

definition RequestResetPassword :: "Service \<Rightarrow> request_ctx \<Rightarrow> string \<Rightarrow> string \<Rightarrow> unit M" where
  "RequestResetPassword S ctx email ip =
     (case TenantFromContext ctx of
        None \<Rightarrow> throw ErrTenantNotFound
      | Some tenant \<Rightarrow>
          attempt (users_FindByEmail email (t_ID tenant))
            (\<lambda>e. if e = ErrNoRows then ret () else throw e)
            (\<lambda>user.
              bindM (GeneratePasswordResetToken (u_ID user) (t_ID tenant) (sv_tokenSecret S))
                (\<lambda>(plainToken, resetModel).
              let resetLink = sv_app_url S @ ''/auth/reset-password?t='' @ plainToken in
              bindM uuid_NewV7 (\<lambda>evID.
              bindM time_Now (\<lambda>now.
              let newoutbox = new_event evID EmailPasswordResetRequested
                (EmailContextJSON \<lparr>ep_Tenant = t_TenantName tenant, ep_UserID = u_ID user,
                   ep_Email = u_Email user, ep_Username = None, ep_EventID = evID, ep_IP = ip,
                   ep_PayloadData = PasswordResetRequestedPayload resetLink\<rparr>)
                StatusPending (now + 5 * Minute) now in
              withTx (
                bindM (refresh_CreateResetTokenTx Tx resetModel) (\<lambda>_.
                bindM (outbox_CreateTx Tx newoutbox) (\<lambda>_.
                bindM (refresh_RevokePreviousResetTokens Tx (t_ID tenant) (u_ID user)) (\<lambda>_.
                attempt Commit (\<lambda>_. ret ()) (\<lambda>_. ret ()))))))))))"

definition ResetPassword :: "Service \<Rightarrow> request_ctx \<Rightarrow> string \<Rightarrow> string \<Rightarrow> string \<Rightarrow> unit M" where
  "ResetPassword S ctx rawToken newPassword ip =
     (case TenantFromContext ctx of
        None \<Rightarrow> throw ErrTenantNotFound
      | Some tenant \<Rightarrow>
          withTx (
            bindM (mapErr (\<lambda>e. if e = ErrNoRows then ErrInvalidToken else e)
              (refresh_FindValidResetTokenTx Tx (HashToken rawToken (sv_tokenSecret S)) (t_ID tenant)))
              (\<lambda>resetToken.
            bindM (HashPassword (sv_lib S) newPassword) (\<lambda>hashedPassword.
            bindM (users_ChangePassword Tx (pr_UserID resetToken) hashedPassword) (\<lambda>_.
            bindM (refresh_MarkResetTokenUsedTx Tx (pr_ID resetToken)) (\<lambda>_.
            bindM (refresh_RevokeAllForUser (pr_UserID resetToken) (t_ID tenant)) (\<lambda>_.
            bindM (users_FindByID (pr_UserID resetToken)) (\<lambda>user.
            bindM uuid_NewV7 (\<lambda>evID.
            bindM time_Now (\<lambda>now.
            bindM (outbox_CreateTx Tx (new_event evID UserPasswordResetSucceeded
              (EmailContextJSON \<lparr>ep_Tenant = t_TenantName tenant, ep_UserID = u_ID user,
                 ep_Email = u_Email user, ep_Username = u_Username user, ep_EventID = evID,
                 ep_IP = ip, ep_PayloadData = NoPayloadData\<rparr>)
              StatusPending (now + 5 * Minute) now)) (\<lambda>_.
            Commit)))))))))))"

lemmas service_defs [call_defs] =
  Register_def SignupService_def VerifyEmail_def ResendVerification_def Login_def Refresh_def
  Logout_def RevokeAll_def ChangePassword_def RequestResetPassword_def ResetPassword_def

end
