(* ===== verification/Http.thy ===== *)
theory Http
  imports Json Net Service
begin

text \<open>
  Requests and responses of \<^verbatim>\<open>net/http\<close> as the handlers see them, and the helpers of
  \<^verbatim>\<open>internal/auth\<close> that read and write them: \<^verbatim>\<open>ClientIP\<close>, \<^verbatim>\<open>writeJSON\<close>,
  \<^verbatim>\<open>respondJSONError\<close>, \<^verbatim>\<open>respondTextError\<close> and the validations. Header names are in
  canonical form; the query is the parsed one; the body is its text together with whether reading
  it ends in an error (the limit on its size) instead of at its end, or nil.
\<close>

section \<open>Requests and responses\<close>

record request =
  rq_Method :: string
  rq_Path :: string
  rq_RemoteAddr :: string
  rq_Header :: "(string \<times> string) list"
  rq_Query :: "(string \<times> string) list"
  rq_Cookies :: "(string \<times> string) list"
  rq_Body :: "(string \<times> bool) option"
  rq_ctx :: request_ctx

definition lookup_first :: "(string \<times> string) list \<Rightarrow> string \<Rightarrow> string" where
  "lookup_first kvs k = (case map_of kvs k of None \<Rightarrow> [] | Some v \<Rightarrow> v)"

definition Header_Get :: "request \<Rightarrow> string \<Rightarrow> string" where
  "Header_Get r k = lookup_first (rq_Header r) k"

definition Query_Get :: "request \<Rightarrow> string \<Rightarrow> string" where
  "Query_Get r k = lookup_first (rq_Query r) k"

record LoginResponse =
  lr_AccessToken :: string
  lr_RefreshToken :: string
  lr_ClientID :: string

record RefreshResponse =
  fr_AccessToken :: string
  fr_RefreshToken :: string
  fr_RefreshExpiresAt :: string

text \<open>
  What is written as the body; the JSON bodies are kept as the Go value that is encoded
  (\<^verbatim>\<open>ErrorResponse\<close>, the response structs, and maps of strings).
\<close>

datatype body =
    NoBody
  | TextBody string
  | ErrorResponse string
  | SignupBody SignupResponse
  | LoginBody LoginResponse
  | RefreshBody RefreshResponse
  | MapBody "(string \<times> string) list"
  | OtherBody string

text \<open>
  \<open>rs_Code\<close> is 0 while nothing has been written: the server then sends 200, but the wrapped
  writer of the middleware reports 0.
\<close>

record response =
  rs_Code :: nat
  rs_Header :: "(string \<times> string) list"
  rs_Body :: body

definition untouched :: response where
  "untouched = \<lparr>rs_Code = 0, rs_Header = [], rs_Body = NoBody\<rparr>"

definition sent_status :: "response \<Rightarrow> nat" where
  "sent_status rs = (if rs_Code rs = 0 then StatusOK else rs_Code rs)"

definition set_header :: "string \<Rightarrow> string \<Rightarrow> response \<Rightarrow> response" where
  "set_header k v rs = rs\<lparr>rs_Header := (k, v) # filter (\<lambda>(k', _). k' \<noteq> k) (rs_Header rs)\<rparr>"

definition WriteHeader :: "nat \<Rightarrow> response" where
  "WriteHeader status = \<lparr>rs_Code = status, rs_Header = [], rs_Body = NoBody\<rparr>"

definition http_Error :: "string \<Rightarrow> nat \<Rightarrow> response" where
  "http_Error msg status =
     \<lparr>rs_Code = status,
      rs_Header = [(''Content-Type'', ''text/plain; charset=utf-8''), (''X-Content-Type-Options'', ''nosniff'')],
      rs_Body = TextBody (msg @ [CHR 0x0A])\<rparr>"

definition writeJSON :: "nat \<Rightarrow> body \<Rightarrow> response" where
  "writeJSON status b =
     \<lparr>rs_Code = status, rs_Header = [(''Content-Type'', ''application/json'')], rs_Body = b\<rparr>"

text \<open>A body that is encoded without a status before it is sent with 200.\<close>

definition encode_only :: "body \<Rightarrow> response" where
  "encode_only b = \<lparr>rs_Code = StatusOK, rs_Header = [], rs_Body = b\<rparr>"

definition respondJSONError :: "err \<Rightarrow> response" where
  "respondJSONError e = (case mapAuthError e of (status, message) \<Rightarrow> writeJSON status (ErrorResponse message))"

definition respondTextError :: "err \<Rightarrow> response" where
  "respondTextError e = (case mapAuthError e of (status, message) \<Rightarrow> http_Error message status)"

type_synonym handler = "request \<Rightarrow> response M"

section \<open>Reading a request\<close>

definition ClientIP :: "request \<Rightarrow> string" where
  "ClientIP r =
     (case ParseIP (TrimSpace (Header_Get r ''X-Real-Ip'')) of
        Some ip \<Rightarrow> IP_String ip
      | None \<Rightarrow>
          (case SplitHostPort (rq_RemoteAddr r) of
             None \<Rightarrow> rq_RemoteAddr r
           | Some (host, _) \<Rightarrow> host))"

definition validateEmail :: "lib \<Rightarrow> string \<Rightarrow> err option" where
  "validateEmail L email =
     (let email = TrimSpace email in
      if email = [] then Some ErrInvalidEmail
      else if mail_ParseAddress L email then None else Some ErrInvalidEmail)"

definition validatePassword :: "string \<Rightarrow> err option" where
  "validatePassword password = (if length password \<le> 9 then Some ErrShortPassword else None)"

text \<open>
  \<^verbatim>\<open>json.NewDecoder(r.Body).Decode(&req)\<close> with what follows an error and a success; a nil
  body is a nil dereference.
\<close>

definition nil_deref :: string where
  "nil_deref = ''runtime error: invalid memory address or nil pointer dereference''"

definition withBody ::
  "bool \<Rightarrow> string list \<Rightarrow> request \<Rightarrow> response M \<Rightarrow> (fields \<Rightarrow> response M) \<Rightarrow> response M"
where
  "withBody strict names r bad good =
     (case rq_Body r of
        None \<Rightarrow> panic nil_deref
      | Some b \<Rightarrow> (case Decode strict names b of None \<Rightarrow> bad | Some f \<Rightarrow> good f))"

section \<open>time.RFC3339\<close>

text \<open>
  The civil date of a day number since 1970-01-01 (proleptic Gregorian calendar, by the usual
  computation with 400-year eras that start in March).
\<close>

definition civil :: "int \<Rightarrow> int \<times> int \<times> int" where
  "civil days =
     (let z = days + 719468; era = z div 146097; doe = z mod 146097;
          yoe = (doe - doe div 1460 + doe div 36524 - doe div 146096) div 365;
          doy = doe - (365 * yoe + yoe div 4 - yoe div 100);
          mp = (5 * doy + 2) div 153;
          d = doy - (153 * mp + 2) div 5 + 1;
          m = (if mp < 10 then mp + 3 else mp - 9)
      in (yoe + era * 400 + (if m \<le> 2 then 1 else 0), m, d))"

definition two :: "int \<Rightarrow> string" where
  "two n = [hex_digit (nat (n div 10 mod 10)), hex_digit (nat (n mod 10))]"

definition four :: "int \<Rightarrow> string" where
  "four n = two (n div 100) @ two (n mod 100)"

text \<open>\<^verbatim>\<open>t.UTC().Format(time.RFC3339)\<close> for the years 0 to 9999.\<close>

definition RFC3339 :: "time \<Rightarrow> string" where
  "RFC3339 t =
     (let s = Unix t; (y, m, d) = civil (s div 86400); r = s mod 86400
      in four y @ ''-'' @ two m @ ''-'' @ two d @ ''T'' @ two (r div 3600) @ '':'' @ two (r div 60 mod 60)
         @ '':'' @ two (r mod 60) @ ''Z'')"

section \<open>Frame of the request helpers\<close>

lemma keeps_withBody [keeps_intros]:
  "keeps I bad \<Longrightarrow> (\<And>f. keeps I (good f)) \<Longrightarrow> keeps I (withBody strict names r bad good)"
  unfolding withBody_def by (intro keeps_intros)

text \<open>
  An address from the header is in canonical dotted form, so one address has one spelling.
\<close>

lemma ClientIP_dotted:
  assumes "a < 256" "b < 256" "c < 256" "d < 256"
    and "TrimSpace (Header_Get r ''X-Real-Ip'') = join ''.'' (map dec_digits [a, b, c, d])"
  shows "ClientIP r = join ''.'' (map dec_digits [a, b, c, d])"
proof -
  have "ParseIP (join ''.'' (map dec_digits [a, b, c, d])) = Some (v4_in_v6 @ [a, b, c, d])"
    by (rule ParseIP_dotted[OF assms(1-4)])
  with assms(5) show ?thesis by (simp add: ClientIP_def IP_String_def v4_in_v6_def)
qed

end
