(* ===== verification/Handlers.thy ===== *)
theory Handlers
  imports Http
begin

text \<open>
  The handlers of \<^verbatim>\<open>internal/auth/handlers.go\<close>: each reads the request, makes at most one
  call of the service and turns its outcome into a response. Sending the bytes of the response is
  outside the model, so the branches for a failed write do not appear.
\<close>

definition registerHandler :: "Service \<Rightarrow> handler" where
  "registerHandler S r =
     withBody False [''email'', ''password''] r (ret (http_Error ''invalid payload'' StatusBadRequest)) (\<lambda>req.
     attempt (Register S (req ''email'') (req ''password''))
       (\<lambda>e. ret (respondJSONError e)) (\<lambda>_. ret (WriteHeader StatusCreated)))"

definition signupHandler :: "Service \<Rightarrow> handler" where
  "signupHandler S r =
     withBody True [''username'', ''email'', ''password''] r
       (ret (writeJSON StatusBadRequest (ErrorResponse ''invalid request body''))) (\<lambda>req.
     case validateEmail (sv_lib S) (req ''email'') of
       Some e \<Rightarrow> ret (writeJSON StatusBadRequest (ErrorResponse (err_Error e)))
     | None \<Rightarrow>
     (case validatePassword (req ''password'') of
       Some e \<Rightarrow> ret (writeJSON StatusBadRequest (ErrorResponse (err_Error e)))
     | None \<Rightarrow>
     (case TenantFromContext (rq_ctx r) of
       None \<Rightarrow> ret (writeJSON StatusBadRequest (ErrorResponse ''no tenant header''))
     | Some tenant \<Rightarrow>
     attempt (SignupService S (rq_ctx r) (req ''email'') (req ''username'') (req ''password'') (t_ID tenant))
       (\<lambda>e. ret (respondJSONError e))
       (\<lambda>resp. ret (writeJSON StatusCreated (SignupBody resp))))))"

definition verifyEmailHandler :: "Service \<Rightarrow> handler" where
  "verifyEmailHandler S r =
     (let rawToken = Query_Get r ''t'' in
      if rawToken = [] then ret (respondJSONError ErrMissingToken)
      else attempt (VerifyEmail S rawToken) (\<lambda>e. ret (respondJSONError e))
        (\<lambda>_. ret ((WriteHeader StatusOK)
           \<lparr>rs_Body := TextBody ''Email verified successfully, You can close this tab now''\<rparr>)))"

definition resendVerificationHandler :: "Service \<Rightarrow> handler" where
  "resendVerificationHandler S r =
     withBody False [''email''] r (ret (http_Error ''invalid JSON body'' StatusBadRequest)) (\<lambda>req.
     if req ''email'' = [] then ret (http_Error ''email required'' StatusBadRequest)
     else attempt (ResendVerification S (rq_ctx r) (req ''email''))
       (\<lambda>e. ret (respondTextError e)) (\<lambda>_. ret (WriteHeader StatusNoContent)))"

definition loginHandler :: "Service \<Rightarrow> handler" where
  "loginHandler S r =
     withBody True [''email'', ''password''] r (ret (http_Error ''invalid JSON body'' StatusBadRequest)) (\<lambda>req.
     case validateEmail (sv_lib S) (req ''email'') of
       Some e \<Rightarrow> ret (writeJSON StatusBadRequest (ErrorResponse (err_Error e)))
     | None \<Rightarrow>
     (case validatePassword (req ''password'') of
       Some e \<Rightarrow> ret (writeJSON StatusBadRequest (ErrorResponse (err_Error e)))
     | None \<Rightarrow>
     attempt (Login S (rq_ctx r) (req ''email'') (req ''password'') (ClientIP r))
       (\<lambda>e. ret (respondJSONError e))
       (\<lambda>(token, refresh_token, clientID).
          ret (writeJSON StatusOK (LoginBody
            \<lparr>lr_AccessToken = token, lr_RefreshToken = refresh_token, lr_ClientID = clientID\<rparr>)))))"

definition refreshHandler :: "Service \<Rightarrow> handler" where
  "refreshHandler S r =
     withBody False [''refresh_token''] r (ret (http_Error ''invalid request'' StatusBadRequest)) (\<lambda>req.
     if req ''refresh_token'' = []
     then ret (writeJSON StatusBadRequest (ErrorResponse ''refresh token required''))
     else attempt (Refresh S (rq_ctx r) (req ''refresh_token''))
       (\<lambda>e. ret (respondJSONError e))
       (\<lambda>(accessToken, refreshToken, expiresAt).
          ret (writeJSON StatusOK (RefreshBody
            \<lparr>fr_AccessToken = accessToken, fr_RefreshToken = refreshToken,
             fr_RefreshExpiresAt = RFC3339 expiresAt\<rparr>))))"

definition logoutHandler :: "Service \<Rightarrow> handler" where
  "logoutHandler S r =
     withBody False [''refresh_token''] r (ret (http_Error ''invalid request'' StatusBadRequest)) (\<lambda>req.
     attempt (Logout S (rq_ctx r) (req ''refresh_token''))
       (\<lambda>e. ret (respondJSONError e)) (\<lambda>_. ret (WriteHeader StatusNoContent)))"

definition revokeAllHandler :: "Service \<Rightarrow> handler" where
  "revokeAllHandler S r =
     (case UserIDFromContext (rq_ctx r) of
        None \<Rightarrow> ret (http_Error ''unauthorized'' StatusUnauthorized)
      | Some userID \<Rightarrow>
          (case uuid_Parse (sv_lib S) userID of
             None \<Rightarrow> ret (http_Error ''Invalid ID'' StatusInternalServerError)
           | Some parseID \<Rightarrow>
               attempt (RevokeAll (rq_ctx r) parseID)
                 (\<lambda>e. ret (respondJSONError e)) (\<lambda>_. ret (WriteHeader StatusNoContent))))"

definition changePasswordHandler :: "Service \<Rightarrow> handler" where
  "changePasswordHandler S r =
     withBody True [''email'', ''old_password'', ''new_password'', ''new_confirm''] r
       (ret (writeJSON StatusBadRequest (ErrorResponse ''invalid JSON body''))) (\<lambda>req.
     if validateEmail (sv_lib S) (req ''email'') \<noteq> None
     then ret (writeJSON StatusBadRequest (ErrorResponse (err_Error ErrInvalidEmail)))
     else if req ''new_password'' \<noteq> req ''new_confirm''
     then ret (writeJSON StatusBadRequest (ErrorResponse (err_Error ErrPasswordsNotMatch)))
     else if req ''old_password'' = req ''new_password''
     then ret (writeJSON StatusBadRequest (ErrorResponse (err_Error ErrUnchangedPassword)))
     else attempt (ChangePassword S (rq_ctx r)
         \<lparr>cp_Email = req ''email'', cp_OldPassword = req ''old_password'',
          cp_NewPassword = req ''new_password'', cp_NewConfirm = req ''new_confirm''\<rparr> (ClientIP r))
       (\<lambda>e. ret (writeJSON StatusBadRequest (ErrorResponse (err_Error e)))) (\<lambda>_. ret untouched))"

definition sendResetPasswordEmailHandler :: "Service \<Rightarrow> handler" where
  "sendResetPasswordEmailHandler S r =
     withBody True [''email''] r
       (ret (writeJSON StatusBadRequest (ErrorResponse ''invalid JSON body''))) (\<lambda>req.
     if validateEmail (sv_lib S) (req ''email'') \<noteq> None
     then ret (writeJSON StatusBadRequest (ErrorResponse (err_Error ErrInvalidEmail)))
     else attempt (RequestResetPassword S (rq_ctx r) (req ''email'') (ClientIP r))
       (\<lambda>_. ret (writeJSON StatusBadRequest (ErrorResponse (err_Error ErrInvalidEmail))))
       (\<lambda>_. ret untouched))"

definition resetPasswordHandler :: "Service \<Rightarrow> handler" where
  "resetPasswordHandler S r =
     withBody True [''new_password''] r
       (ret (writeJSON StatusBadRequest (ErrorResponse ''invalid JSON body''))) (\<lambda>req.
     if req ''new_password'' = []
     then ret (writeJSON StatusBadRequest (ErrorResponse ''new_password is required''))
     else if Query_Get r ''t'' = []
     then ret (writeJSON StatusBadRequest (ErrorResponse ''reset token is required''))
     else attempt (ResetPassword S (rq_ctx r) (Query_Get r ''t'') (req ''new_password'') (ClientIP r))
       (\<lambda>_. ret (writeJSON StatusBadRequest (ErrorResponse ''invalid or expired reset token'')))
       (\<lambda>_. ret (WriteHeader StatusNoContent)))"

text \<open>The type assertions of \<^verbatim>\<open>meHandler\<close> panic when a value is absent.\<close>

definition conversion_panic :: string where
  "conversion_panic = ''interface conversion: interface {} is nil, not string''"

definition meHandler :: handler where
  "meHandler r =
     (case ctx_UserID (rq_ctx r) of
        None \<Rightarrow> panic conversion_panic
      | Some userID \<Rightarrow>
          (case ctx_Email (rq_ctx r) of
             None \<Rightarrow> panic conversion_panic
           | Some email \<Rightarrow> ret (encode_only (MapBody [(''email'', email), (''user_id'', userID)]))))"

definition healthhandler :: handler where
  "healthhandler r =
     attempt db_roundtrip
       (\<lambda>_. ret ((WriteHeader StatusServiceUnavailable)\<lparr>rs_Body := MapBody [(''status'', ''error'')]\<rparr>))
       (\<lambda>_. ret (encode_only (MapBody [(''status'', ''ok'')])))"

lemmas handler_defs =
  registerHandler_def signupHandler_def verifyEmailHandler_def resendVerificationHandler_def
  loginHandler_def refreshHandler_def logoutHandler_def revokeAllHandler_def
  changePasswordHandler_def sendResetPasswordEmailHandler_def resetPasswordHandler_def
  meHandler_def healthhandler_def

section \<open>Handlers return a response\<close>

text \<open>A handler has no error result: it answers, or it panics.\<close>

definition answers :: "'a M \<Rightarrow> bool" where
  "answers m \<longleftrightarrow> (\<forall>w e. fst (m w) \<noteq> Err e)"

named_theorems answers_intros \<open>calls that never return an error\<close>

lemma answers_ret [answers_intros]: "answers (ret a)" by (simp add: answers_def)

lemma answers_panic [answers_intros]: "answers (panic s)" by (simp add: answers_def)

lemma answers_attempt [answers_intros]:
  "(\<And>e. answers (h e)) \<Longrightarrow> (\<And>a. answers (k a)) \<Longrightarrow> answers (attempt m h k)"
  by (auto simp: answers_def attempt_def split: prod.splits res.splits)

lemma answers_if [answers_intros]: "answers m \<Longrightarrow> answers n \<Longrightarrow> answers (if b then m else n)" by simp

lemma answers_case_option [answers_intros]:
  "answers m \<Longrightarrow> (\<And>x. answers (k x)) \<Longrightarrow> answers (case z of None \<Rightarrow> m | Some x \<Rightarrow> k x)"
  by (cases z) auto

lemma answers_case_prod [answers_intros]: "(\<And>a b. answers (k a b)) \<Longrightarrow> answers (case z of (a, b) \<Rightarrow> k a b)"
  by (cases z) auto

lemma answers_Let [answers_intros]: "(\<And>a. answers (k a)) \<Longrightarrow> answers (let x = z in k x)" by simp

lemma answers_withBody [answers_intros]:
  "answers bad \<Longrightarrow> (\<And>f. answers (good f)) \<Longrightarrow> answers (withBody strict names r bad good)"
  unfolding withBody_def by (intro answers_intros)

lemma handlers_answer [answers_intros]:
  "answers (registerHandler S r)" "answers (signupHandler S r)" "answers (verifyEmailHandler S r)"
  "answers (resendVerificationHandler S r)" "answers (loginHandler S r)" "answers (refreshHandler S r)"
  "answers (logoutHandler S r)" "answers (revokeAllHandler S r)" "answers (changePasswordHandler S r)"
  "answers (sendResetPasswordEmailHandler S r)" "answers (resetPasswordHandler S r)"
  "answers (meHandler r)" "answers (healthhandler r)"
  unfolding handler_defs by (intro answers_intros)+

end
