(* ===== verification/Middleware.thy ===== *)
theory Middleware
  imports Handlers Config
begin

text \<open>
  \<^verbatim>\<open>internal/auth/middleware.go\<close> and \<^verbatim>\<open>metrics/metrics.go\<close>: each middleware takes the next
  handler and gives a handler. A header that a middleware sets before it calls the next handler
  is part of the final response unless the next handler sets it again.
\<close>

section \<open>Logging\<close>

definition LevelDebug :: int where "LevelDebug = -4"
definition LevelInfo :: int where "LevelInfo = 0"
definition LevelWarn :: int where "LevelWarn = 4"
definition LevelError :: int where "LevelError = 8"

definition log_at :: "int \<Rightarrow> string \<Rightarrow> (string \<times> string) list \<Rightarrow> world \<Rightarrow> world" where
  "log_at level msg attrs w =
     w\<lparr>w_log := w_log w @ [\<lparr>lg_Level = level, lg_Message = msg, lg_Attrs = attrs\<rparr>]\<rparr>"

section \<open>Request identifiers\<close>

definition RequestIDFromContext :: "request_ctx \<Rightarrow> string" where
  "RequestIDFromContext ctx = (case ctx_RequestID ctx of Some i \<Rightarrow> i | None \<Rightarrow> [])"

definition preset_header :: "string \<Rightarrow> string \<Rightarrow> response \<Rightarrow> response" where
  "preset_header k v rs =
     (if k \<in> fst ` set (rs_Header rs) then rs else rs\<lparr>rs_Header := (k, v) # rs_Header rs\<rparr>)"

definition RequestIDMiddleware :: "lib \<Rightarrow> handler \<Rightarrow> handler" where
  "RequestIDMiddleware L next' r =
     (let go = (\<lambda>reqID.
        bindM (next' (r\<lparr>rq_ctx := (rq_ctx r)\<lparr>ctx_RequestID := Some reqID\<rparr>\<rparr>)) (\<lambda>rs.
        ret (preset_header ''X-Request-Id'' reqID rs))) in
      if Header_Get r ''X-Request-Id'' \<noteq> [] then go (Header_Get r ''X-Request-Id'')
      else attempt uuid_NewV7
        (\<lambda>_. bindM (uuid_NewString L) go)
        (\<lambda>i. go (uuid_String L i)))"

section \<open>Access log and metrics\<close>

text \<open>\<^verbatim>\<open>strconv.Itoa\<close> of a status.\<close>

definition status_text :: "nat \<Rightarrow> string" where
  "status_text n = dec_digits n"

text \<open>The number of bytes written and the duration the log line carries are not modelled.\<close>

definition LoggingMiddleware :: "handler \<Rightarrow> handler" where
  "LoggingMiddleware next' r =
     bindM time_Now (\<lambda>start.
     bindM (next' r) (\<lambda>rs.
     bindM time_Now (\<lambda>_.
     bindM (modify (log_at LevelInfo ''HTTP request''
       [(''request_id'', RequestIDFromContext (rq_ctx r)), (''method'', rq_Method r),
        (''route'', rq_Path r), (''status'', status_text (rs_Code rs))])) (\<lambda>_.
     ret rs))))"

definition count_request :: "string \<Rightarrow> string \<Rightarrow> nat \<Rightarrow> world \<Rightarrow> world" where
  "count_request route meth status w =
     w\<lparr>w_metrics := (w_metrics w)\<lparr>m_http_requests := (route, meth, status) # m_http_requests (w_metrics w)\<rparr>\<rparr>"

definition observe_duration :: "string \<Rightarrow> string \<Rightarrow> duration \<Rightarrow> world \<Rightarrow> world" where
  "observe_duration route meth dur w =
     w\<lparr>w_metrics := (w_metrics w)\<lparr>m_http_durations := (route, meth, dur) # m_http_durations (w_metrics w)\<rparr>\<rparr>"

text \<open>\<open>pattern\<close> is the route pattern chi reports for the request, empty when no route matched.\<close>

definition MetricsMiddleware :: "(request \<Rightarrow> string) \<Rightarrow> handler \<Rightarrow> handler" where
  "MetricsMiddleware pattern next' r =
     bindM time_Now (\<lambda>start.
     bindM (next' r) (\<lambda>rs.
     let route = (if pattern r = [] then ''unmatched'' else pattern r) in
     bindM (modify (count_request route (rq_Method r) (rs_Code rs))) (\<lambda>_.
     bindM time_Now (\<lambda>now.
     bindM (modify (observe_duration route (rq_Method r) (now - start))) (\<lambda>_.
     ret rs)))))"

definition RecovererMiddleware :: "handler \<Rightarrow> handler" where
  "RecovererMiddleware next' r w =
     (case next' r w of
        (Panic p, w') \<Rightarrow>
          (Ok (writeJSON StatusInternalServerError (MapBody [(''error'', ''internal server error'')])),
           log_at LevelError ''panic recovered''
             [(''request_id'', RequestIDFromContext (rq_ctx r)), (''route'', rq_Path r),
              (''method'', rq_Method r), (''panic'', p)] w')
      | res \<Rightarrow> res)"

section \<open>Authentication\<close>

definition jwtKeyFunc :: "pubkey \<Rightarrow> SigningMethod \<Rightarrow> err + pubkey" where
  "jwtKeyFunc pub m = (if m = SigningMethodRSA then Inr pub else Inl (ErrOther ''unexpected signing method''))"

text \<open>
  The claims are parsed into a \<^verbatim>\<open>*Claims\<close>, so the type assertion on them, and with it the branch
  for other claims, always succeeds.
\<close>

definition JWTMiddleware :: "lib \<Rightarrow> pubkey \<Rightarrow> handler \<Rightarrow> handler" where
  "JWTMiddleware L pub next' r =
     (let auth = Header_Get r ''Authorization'' in
      if \<not> HasPrefix auth ''Bearer '' then ret (http_Error ''missing token'' StatusUnauthorized)
      else bindM time_Now (\<lambda>now.
        case jwt_ParseWithClaims L (TrimPrefix auth ''Bearer '') (jwtKeyFunc pub) now of
          Inl _ \<Rightarrow> ret (http_Error ''invalid token'' StatusUnauthorized)
        | Inr (claims, valid) \<Rightarrow>
            if \<not> valid then ret (http_Error ''invalid token'' StatusUnauthorized)
            else next' (r\<lparr>rq_ctx := (rq_ctx r)\<lparr>ctx_UserID := Some (uuid_String L (c_UserID claims)),
                                               ctx_Email := Some (c_Email claims)\<rparr>\<rparr>)))"

definition TenantHeader :: string where "TenantHeader = ''X-Tenant''"

definition TenantMiddleware :: "handler \<Rightarrow> handler" where
  "TenantMiddleware next' r =
     (let tenantName = TrimSpace (Header_Get r TenantHeader) in
      if tenantName = [] then ret (http_Error (err_Error ErrTenantHeaderMissing) StatusBadRequest)
      else attempt (tenants_FindByTenantName tenantName)
        (\<lambda>_. ret (http_Error (err_Error ErrTenantNotFound) StatusUnauthorized))
        (\<lambda>tenant.
          if \<not> Tenant_IsActive tenant then ret (http_Error (err_Error ErrTenantInactive) StatusForbidden)
          else next' (r\<lparr>rq_ctx := (rq_ctx r)\<lparr>ctx_Tenant := Some tenant\<rparr>\<rparr>)))"

section \<open>Rate limits\<close>

text \<open>
  The e-mail address in the body, and the request with its body put back. A body that was cut at
  the size limit reads as no address, and is afterwards a complete (shorter) one.
\<close>

definition peekEmail :: "request \<Rightarrow> string \<times> request" where
  "peekEmail r =
     (case rq_Body r of
        None \<Rightarrow> ([], r)
      | Some (text, trunc) \<Rightarrow>
          let r' = r\<lparr>rq_Body := Some (text, False)\<rparr> in
          if trunc then ([], r') else (Unmarshal [''email''] text ''email'', r'))"

definition too_many :: response where
  "too_many = writeJSON StatusTooManyRequests (ErrorResponse ''too many attempts, try again later'')"

definition limited :: "unit M \<Rightarrow> handler \<Rightarrow> handler" where
  "limited chk next' r =
     attempt chk
       (\<lambda>checkErr.
         if checkErr = LimiterRateLimited then ret too_many
         else bindM (modify (log_at LevelError ''rate limiter check failed''
                [(''path'', rq_Path r), (''error'', err_Error checkErr)])) (\<lambda>_. next' r))
       (\<lambda>_. next' r)"

definition RateLimitMiddleware :: "handler \<Rightarrow> handler" where
  "RateLimitMiddleware next' r =
     (let ip = ClientIP r in
      if rq_Path r = ''/auth/login'' then
        (case peekEmail r of (email, r') \<Rightarrow> limited (limiter_CheckLogin ip email) next' r')
      else if rq_Path r = ''/auth/signup'' then limited (limiter_CheckSignup ip) next' r
      else if rq_Path r = ''/auth/send-resetemail'' then
        (case peekEmail r of (email, r') \<Rightarrow> limited (limiter_CheckPasswordResetRequest ip email) next' r')
      else next' r)"

section \<open>Devices\<close>

text \<open>
  \<^verbatim>\<open>deviceFromRequest\<close>: the device and the cookie that is set, if any. \<^verbatim>\<open>r.UserAgent()\<close> is the
  header of that name.
\<close>

definition deviceCookie :: string where "deviceCookie = ''device_id''"

record cookie =
  ck_Name :: string
  ck_Value :: string
  ck_Path :: string
  ck_MaxAge :: int
  ck_HttpOnly :: bool
  ck_Secure :: bool
  ck_SameSiteLax :: bool

definition deviceFromRequest :: "lib \<Rightarrow> request \<Rightarrow> (DeviceInfo \<times> cookie option) M" where
  "deviceFromRequest L r =
     (let hid = TrimSpace (Header_Get r ''X-Device-Id'');
          ident = (if hid = [] then (case map_of (rq_Cookies r) deviceCookie of Some v \<Rightarrow> v | None \<Rightarrow> hid) else hid);
          ua = take 256 (Header_Get r ''User-Agent'') in
      if uuid_Parse L ident = None then
        bindM (uuid_NewString L) (\<lambda>i.
        ret (\<lparr>dev_ID = i, dev_UserAgent = ua, dev_IP = ClientIP r\<rparr>,
             Some \<lparr>ck_Name = deviceCookie, ck_Value = i, ck_Path = ''/'', ck_MaxAge = 400 * 24 * 3600,
                   ck_HttpOnly = True, ck_Secure = True, ck_SameSiteLax = True\<rparr>))
      else ret (\<lparr>dev_ID = ident, dev_UserAgent = ua, dev_IP = ClientIP r\<rparr>, None))"

section \<open>Middlewares and invariants\<close>

lemma log_at_simps [simp]:
  "w_db (log_at l m a w) = w_db w" "w_tx (log_at l m a w) = w_tx w" "w_uuids (log_at l m a w) = w_uuids w"
  "w_now (log_at l m a w) = w_now w" "w_faults (log_at l m a w) = w_faults w"
  "w_redis (log_at l m a w) = w_redis w" "w_metrics (log_at l m a w) = w_metrics w"
  "db_inv J (log_at l m a w) = db_inv J w"
  by (simp_all add: log_at_def)

lemma count_request_simps [simp]:
  "w_db (count_request p m s w) = w_db w" "w_tx (count_request p m s w) = w_tx w"
  "w_uuids (count_request p m s w) = w_uuids w" "w_now (count_request p m s w) = w_now w"
  "db_inv J (count_request p m s w) = db_inv J w"
  by (simp_all add: count_request_def)

lemma observe_duration_simps [simp]:
  "w_db (observe_duration p m d w) = w_db w" "w_tx (observe_duration p m d w) = w_tx w"
  "w_uuids (observe_duration p m d w) = w_uuids w" "w_now (observe_duration p m d w) = w_now w"
  "m_http_requests (w_metrics (observe_duration p m d w)) = m_http_requests (w_metrics w)"
  "db_inv J (observe_duration p m d w) = db_inv J w"
  by (simp_all add: observe_duration_def)

lemma RecovererMiddleware_answers:
  "answers (next' r) \<Longrightarrow> \<exists>rs w'. RecovererMiddleware next' r w = (Ok rs, w')"
  by (auto simp: RecovererMiddleware_def answers_def split: prod.splits res.splits) (metis fst_conv)+

lemma answers_bind [answers_intros]: "answers m \<Longrightarrow> (\<And>a. answers (k a)) \<Longrightarrow> answers (bindM m k)"
  by (auto simp: answers_def bindM_def attempt_def split: prod.splits res.splits) (metis fst_conv)+

lemma answers_modify [answers_intros]: "answers (modify f)" by (simp add: answers_def)

lemma answers_gets [answers_intros]: "answers (gets f)" by (simp add: answers_def)

lemma answers_now [answers_intros]: "answers time_Now" by (simp add: answers_def time_Now_eq)

lemma answers_TenantMiddleware [answers_intros]:
  "(\<And>r. answers (next' r)) \<Longrightarrow> answers (TenantMiddleware next' r)"
  unfolding TenantMiddleware_def by (intro answers_intros)

lemma answers_JWTMiddleware [answers_intros]:
  "(\<And>r. answers (next' r)) \<Longrightarrow> answers (JWTMiddleware L pub next' r)"
  unfolding JWTMiddleware_def Let_def
  by (intro answers_intros) (auto split: sum.splits intro!: answers_intros)

lemma answers_limited [answers_intros]: "(\<And>r. answers (next' r)) \<Longrightarrow> answers (limited chk next' r)"
  unfolding limited_def by (intro answers_intros)

lemma answers_RateLimitMiddleware [answers_intros]:
  "(\<And>r. answers (next' r)) \<Longrightarrow> answers (RateLimitMiddleware next' r)"
  unfolding RateLimitMiddleware_def by (intro answers_intros)

end
