(* ===== verification/Router.thy ===== *)
theory Router
  imports Middleware
begin

text \<open>
  The wiring of the HTTP server: \<^verbatim>\<open>RegisterRoutes\<close> (\<^verbatim>\<open>internal/auth/handlers.go\<close>) and
  \<^verbatim>\<open>InitRouter\<close> (\<^verbatim>\<open>internal/config/router.go\<close>). The chi router, the CORS handler, the
  Prometheus handler and the Swagger handler are libraries, hence parameters: chi picks the
  registered route for a method and a path or answers itself (404, 405), the CORS handler answers
  preflight requests itself and otherwise adds headers.
\<close>

record web =
  chi_match :: "(string \<times> string) list \<Rightarrow> string \<Rightarrow> string \<Rightarrow> response + nat"
  chi_pattern :: "(string \<times> string) list \<Rightarrow> string \<Rightarrow> string \<Rightarrow> string"
  cors_preflight :: "cors_Options \<Rightarrow> request \<Rightarrow> response option"
  cors_headers :: "cors_Options \<Rightarrow> request \<Rightarrow> (string \<times> string) list"
  promhttp_Handler :: "metrics \<Rightarrow> response"
  httpSwagger_Handler :: "request \<Rightarrow> response"

text \<open>
  What chi documents for static patterns (no parameter, no wildcard) that are registered once: the
  request with that method and path goes to that route.
\<close>

definition static_pattern :: "string \<Rightarrow> bool" where
  "static_pattern p \<longleftrightarrow> CHR ''*'' \<notin> set p \<and> CHR ''{'' \<notin> set p"

definition chi_static :: "web \<Rightarrow> bool" where
  "chi_static X \<longleftrightarrow>
     (\<forall>routes i m p. i < length routes \<longrightarrow> routes ! i = (m, p) \<longrightarrow> distinct (map snd routes) \<longrightarrow>
        static_pattern p \<longrightarrow> chi_match X routes m p = Inr i)"

type_synonym route = "string \<times> string \<times> handler"

section \<open>RegisterRoutes\<close>

definition tenant_group :: "handler \<Rightarrow> handler" where
  "tenant_group h = TenantMiddleware (RateLimitMiddleware h)"

definition jwt_group :: "Service \<Rightarrow> handler \<Rightarrow> handler" where
  "jwt_group S h = JWTMiddleware (sv_lib S) (sv_publicKey S) h"

definition tenant_routes :: "Service \<Rightarrow> route list" where
  "tenant_routes S =
     [(''POST'', ''/auth/password-change'', tenant_group (changePasswordHandler S)),
      (''GET'', ''/auth/send-resetemail'', tenant_group (sendResetPasswordEmailHandler S)),
      (''POST'', ''/auth/reset-password'', tenant_group (resetPasswordHandler S)),
      (''POST'', ''/auth/signup'', tenant_group (signupHandler S)),
      (''POST'', ''/auth/login'', tenant_group (loginHandler S)),
      (''POST'', ''/auth/refresh'', tenant_group (refreshHandler S)),
      (''POST'', ''/auth/logout'', tenant_group (logoutHandler S)),
      (''GET'', ''/auth/verify-email'', tenant_group (verifyEmailHandler S)),
      (''POST'', ''/auth/resend-verification'', tenant_group (resendVerificationHandler S))]"

definition RegisterRoutes :: "web \<Rightarrow> Service \<Rightarrow> route list" where
  "RegisterRoutes X S =
     tenant_routes S @
     [(''GET'', ''/auth/me'', jwt_group S meHandler),
      (''POST'', ''/auth/revoke-all'', jwt_group S (revokeAllHandler S)),
      (''GET'', ''/auth/health'', healthhandler),
      (''GET'', ''/auth/swagger/*'', (\<lambda>r. ret (httpSwagger_Handler X r)))]"

section \<open>InitRouter\<close>

definition all_routes :: "web \<Rightarrow> Service \<Rightarrow> route list" where
  "all_routes X S =
     (''*'', ''/metrics'', (\<lambda>r. bindM (gets w_metrics) (\<lambda>m. ret (promhttp_Handler X m)))) # RegisterRoutes X S"

definition patterns :: "web \<Rightarrow> Service \<Rightarrow> (string \<times> string) list" where
  "patterns X S = map (\<lambda>(m, p, _). (m, p)) (all_routes X S)"

definition dispatch :: "web \<Rightarrow> Service \<Rightarrow> handler" where
  "dispatch X S r =
     (case chi_match X (patterns X S) (rq_Method r) (rq_Path r) of
        Inl answer \<Rightarrow> ret answer
      | Inr i \<Rightarrow>
          if i < length (all_routes X S) then snd (snd (all_routes X S ! i)) r
          else ret (http_Error ''404 page not found'' 404))"

definition MaxBytesReader :: "nat \<Rightarrow> string \<times> bool \<Rightarrow> string \<times> bool" where
  "MaxBytesReader n b = (take n (fst b), snd b \<or> n < length (fst b))"

definition limit_body :: "handler \<Rightarrow> handler" where
  "limit_body next' r = next' (r\<lparr>rq_Body := map_option (MaxBytesReader 1048576) (rq_Body r)\<rparr>)"

definition cors_Handler :: "web \<Rightarrow> cors_Options \<Rightarrow> handler \<Rightarrow> handler" where
  "cors_Handler X opts next' r =
     (case cors_preflight X opts r of
        Some answer \<Rightarrow> ret answer
      | None \<Rightarrow>
          bindM (next' r) (\<lambda>rs.
          ret (fold (\<lambda>(k, v). preset_header k v) (cors_headers X opts r) rs)))"

definition InitRouter :: "Config \<Rightarrow> web \<Rightarrow> Service \<Rightarrow> handler" where
  "InitRouter cfg X S =
     limit_body
       (cors_Handler X (LoadCors cfg)
         (RequestIDMiddleware (sv_lib S)
           (MetricsMiddleware (\<lambda>r. chi_pattern X (patterns X S) (rq_Method r) (rq_Path r))
             (LoggingMiddleware
               (RecovererMiddleware (dispatch X S))))))"

text \<open>The server's part: when the request is over its context is cancelled, which rolls an open transaction back.\<close>

definition ServeHTTP :: "Config \<Rightarrow> web \<Rightarrow> Service \<Rightarrow> handler" where
  "ServeHTTP cfg X S r = deferM Rollback (InitRouter cfg X S r)"

section \<open>Routing\<close>

lemma all_routes_length [simp]: "length (all_routes X S) = 14"
  by (simp add: all_routes_def RegisterRoutes_def tenant_routes_def)

lemma length_patterns [simp]: "length (patterns X S) = 14"
  by (simp add: patterns_def)

lemma patterns_distinct: "distinct (map snd (patterns X S))"
  by (simp add: patterns_def all_routes_def RegisterRoutes_def tenant_routes_def)

lemma dispatch_route:
  assumes "chi_static X" "i < 14" "all_routes X S ! i = (rq_Method r, rq_Path r, h)" "static_pattern (rq_Path r)"
  shows "dispatch X S r = h r"
proof -
  have "patterns X S ! i = (rq_Method r, rq_Path r)" using assms(2,3) by (simp add: patterns_def)
  with assms(1,2,4) patterns_distinct[of X S]
  have "chi_match X (patterns X S) (rq_Method r) (rq_Path r) = Inr i" by (simp add: chi_static_def)
  with assms(2,3) show ?thesis by (simp add: dispatch_def)
qed

text \<open>What holds of every endpoint holds of the dispatched request, wherever chi sends it.\<close>

definition tenant_handlers :: "Service \<Rightarrow> handler list" where
  "tenant_handlers S =
     [changePasswordHandler S, sendResetPasswordEmailHandler S, resetPasswordHandler S, signupHandler S,
      loginHandler S, refreshHandler S, logoutHandler S, verifyEmailHandler S, resendVerificationHandler S]"

lemma dispatch_endpoints:
  assumes "\<And>rs. Q (ret rs)" "\<And>h. h \<in> set (tenant_handlers S) \<Longrightarrow> Q (tenant_group h r)"
    and "Q (jwt_group S meHandler r)" "Q (jwt_group S (revokeAllHandler S) r)" "Q (healthhandler r)"
    and "Q (bindM (gets w_metrics) (\<lambda>m. ret (promhttp_Handler X m)))"
  shows "Q (dispatch X S r)"
proof -
  have "\<forall>h \<in> set (map (snd \<circ> snd) (all_routes X S)). Q (h r)"
    using assms
    by (simp add: all_routes_def RegisterRoutes_def tenant_routes_def tenant_handlers_def)
  then have "Q (snd (snd (all_routes X S ! i)) r)" if "i < length (all_routes X S)" for i
    using that by (simp only: list.set_map) (auto simp: nth_mem)
  with assms(1) show ?thesis
    unfolding dispatch_def by (auto split: sum.splits)
qed

lemma answers_tenant_handlers: "h \<in> set (tenant_handlers S) \<Longrightarrow> answers (h r)"
  by (auto simp: tenant_handlers_def intro: answers_intros)

lemma answers_dispatch: "answers (dispatch X S r)"
proof (rule dispatch_endpoints)
  show "answers (tenant_group h r)" if "h \<in> set (tenant_handlers S)" for h
    unfolding tenant_group_def by (intro answers_intros answers_tenant_handlers[OF that])
  show "answers (jwt_group S meHandler r)" "answers (jwt_group S (revokeAllHandler S) r)"
    unfolding jwt_group_def by (intro answers_intros)+
qed (intro answers_intros)+

end
