(* ===== verification/Service_Samples.thy ===== *)
theory Service_Samples
  imports Service Samples
begin

text \<open>
  Concrete services, contexts and worlds on which the properties of the service layer are
  exercised. Token hashes stay symbolic: the tables hold the hash of the text that is presented.
\<close>

definition sample_S :: Service where
  "sample_S = \<lparr>sv_lib = sample_lib, sv_privateKey = 1, sv_publicKey = 1, sv_tokenSecret = ''s'',
     sv_app_url = ''http://x''\<rparr>"

definition acme :: Tenant where
  "acme = \<lparr>t_ID = 3, t_TenantName = ''acme'', t_Name = [], t_URL = [], t_Email = [],
     t_Status = ''active'', t_PublicKey = [], t_APIKeyHash = [], t_AllowedOrigins = [],
     t_CreatedAt = 0, t_UpdatedAt = 0\<rparr>"

definition acme_ctx :: request_ctx where
  "acme_ctx = background\<lparr>ctx_Tenant := Some acme\<rparr>"

lemma sample_S_simps [simp]:
  "sv_lib sample_S = sample_lib" "sv_privateKey sample_S = 1" "sv_publicKey sample_S = 1"
  "sv_tokenSecret sample_S = ''s''" "sv_app_url sample_S = ''http://x''"
  by (simp_all add: sample_S_def)

lemma acme_simps [simp]:
  "t_ID acme = 3" "t_TenantName acme = ''acme''" "TenantFromContext acme_ctx = Some acme"
  by (simp_all add: acme_def acme_ctx_def TenantFromContext_def)

text \<open>The session of a user: one refresh token, live or already revoked.\<close>

definition session_row :: "time option \<Rightarrow> refresh_row" where
  "session_row ro =
     \<lparr>rr_token_id = 20, rr_user_id = 7, rr_tenant_id = Some 3, rr_token_hash = HashToken ''tok'' ''s'',
      rr_client_id = ''c'', rr_family_id = 21, rr_ptoken_id = None, rr_expires_at = 5000,
      rr_revoked_at = ro, rr_created_at = 0\<rparr>"

definition session_world :: "time option \<Rightarrow> world" where
  "session_world ro = sample_world\<lparr>w_db := sample_db\<lparr>refresh_tokens := [session_row ro]\<rparr>\<rparr>"

lemma session_row_simps [simp]:
  "rr_token_id (session_row ro) = 20" "rr_user_id (session_row ro) = 7"
  "rr_tenant_id (session_row ro) = Some 3" "rr_token_hash (session_row ro) = HashToken ''tok'' ''s''"
  "rr_family_id (session_row ro) = 21" "rr_expires_at (session_row ro) = 5000"
  "rr_revoked_at (session_row ro) = ro"
  by (simp_all add: session_row_def)

lemma session_world_simps [simp]:
  "w_db (session_world ro) = sample_db\<lparr>refresh_tokens := [session_row ro]\<rparr>"
  "w_tx (session_world ro) = None" "w_now (session_world ro) = 1000" "w_ticks (session_world ro) = []"
  "w_faults (session_world ro) = []" "w_uuids (session_world ro) = [10, 11, 12, 13, 14, 15]"
  "w_rand (session_world ro) = [[1], [2], [3], [4], [5], [6]]"
  "w_metrics (session_world ro) = init_metrics"
  by (simp_all add: session_world_def) (simp add: sample_world_def mk_world_def)

lemma session_world_wf: "db_wf (w_db (session_world ro))"
  by (simp add: db_wf_def sample_defs user_ids_def)

text \<open>More identifiers and random bytes, for operations that use many.\<close>

definition big_world :: world where
  "big_world = sample_world\<lparr>w_uuids := [10, 11, 12, 13, 14, 15, 16, 17, 18, 19, 20, 21, 22, 23, 24, 25]\<rparr>"

lemma big_world_simps [simp]:
  "w_db big_world = sample_db" "w_tx big_world = None" "w_now big_world = 1000" "w_ticks big_world = []"
  "w_faults big_world = []" "w_uuids big_world = [10, 11, 12, 13, 14, 15, 16, 17, 18, 19, 20, 21, 22, 23, 24, 25]"
  "w_rand big_world = [[1], [2], [3], [4], [5], [6]]" "w_mail_faults big_world = []" "w_mail big_world = []"
  by (simp_all add: big_world_def)

end
