(* ===== verification/Service_Session.thy ===== *)
theory Service_Session
  imports Service_Samples
begin

text \<open>
  Sessions: rotation of refresh tokens with reuse detection, log-out, and login. The properties
  here are about single operations; \<^verbatim>\<open>Reachable\<close> has those about all histories.
\<close>

section \<open>Frames of the calls inside a transaction\<close>

lemma keeps_committed_calls [keeps_intros]:
  "keeps (committed_is d) (users_CreateTx Tx u)"
  "keeps (committed_is d) (users_FindByEmail em tn)"
  "keeps (committed_is d) (users_FindByID i)"
  "keeps (committed_is d) (users_ChangePassword Tx i h)"
  "keeps (committed_is d) (email_CreateTx Tx e)"
  "keeps (committed_is d) (email_FindValidByHash h)"
  "keeps (committed_is d) (refresh_CreateTx Tx t)"
  "keeps (committed_is d) (refresh_FindbyHash ex h tn)"
  "keeps (committed_is d) (refresh_FindValidByHash h tn)"
  "keeps (committed_is d) (refresh_Revoke Tx i tn)"
  "keeps (committed_is d) (refresh_RevokeAllForFamily Tx i tn)"
  "keeps (committed_is d) (refresh_CreateResetTokenTx Tx p)"
  "keeps (committed_is d) (refresh_FindValidResetTokenTx ex h tn)"
  "keeps (committed_is d) (refresh_RevokePreviousResetTokens Tx tn i)"
  "keeps (committed_is d) (refresh_MarkResetTokenUsedTx Tx i)"
  "keeps (committed_is d) (outbox_CreateTx Tx oe)"
  unfolding users_psql_defs email_defs refresh_psql_defs outbox_defs by (intro keeps_intros)+

lemma keeps_committed_metrics [keeps_intros]:
  "keeps (committed_is d) (modify inc_login_failure)" "keeps (committed_is d) (modify inc_login_success)"
  "keeps (committed_is d) (modify inc_reuse)" "keeps (committed_is d) (modify inc_signups)"
  by (auto intro!: keeps_modify simp: committed_is_def inc_login_failure_def inc_login_success_def
      inc_reuse_def inc_signups_def)

lemma keeps_committed_loginFailed [keeps_intros]: "keeps (committed_is d) loginFailed"
  unfolding loginFailed_def by (intro keeps_intros)

section \<open>Rotation\<close>

definition find_refresh :: "string \<Rightarrow> uuid \<Rightarrow> db \<Rightarrow> refresh_row option" where
  "find_refresh h tn d =
     List.find (\<lambda>r. rr_token_hash r = h \<and> rr_tenant_id r = Some tn) (refresh_tokens d)"

definition revoke_rows :: "(refresh_row \<Rightarrow> bool) \<Rightarrow> time \<Rightarrow> db \<Rightarrow> db" where
  "revoke_rows p at d =
     d\<lparr>refresh_tokens := update_where p (\<lambda>r. r\<lparr>rr_revoked_at := Some at\<rparr>) (refresh_tokens d)\<rparr>"

definition add_refresh :: "refresh_row \<Rightarrow> db \<Rightarrow> db" where
  "add_refresh r d = d\<lparr>refresh_tokens := refresh_tokens d @ [r]\<rparr>"

lemma revoke_rows_simps [simp]:
  "users (revoke_rows p at d) = users d" "outbox_events (revoke_rows p at d) = outbox_events d"
  "email_tokens (revoke_rows p at d) = email_tokens d" "reset_tokens (revoke_rows p at d) = reset_tokens d"
  "user_ids (revoke_rows p at d) = user_ids d"
  "refresh_tokens (revoke_rows p at d) =
     update_where p (\<lambda>r. r\<lparr>rr_revoked_at := Some at\<rparr>) (refresh_tokens d)"
  by (simp_all add: revoke_rows_def user_ids_def)

lemma add_refresh_simps [simp]:
  "users (add_refresh r d) = users d" "refresh_tokens (add_refresh r d) = refresh_tokens d @ [r]"
  by (simp_all add: add_refresh_def)

lemma find_refresh_Some:
  "find_refresh h tn d = Some r \<Longrightarrow>
     r \<in> set (refresh_tokens d) \<and> rr_token_hash r = h \<and> rr_tenant_id r = Some tn"
  by (auto simp: find_refresh_def dest: find_Some_in)

lemma find_refresh_revoke_rows:
  "find_refresh h tn (revoke_rows p at d) =
     map_option (\<lambda>r. if p r then r\<lparr>rr_revoked_at := Some at\<rparr> else r) (find_refresh h tn d)"
  unfolding find_refresh_def revoke_rows_def by (simp add: find_upd_refresh)

lemma find_refresh_add:
  "find_refresh h tn (add_refresh r d) =
     (case find_refresh h tn d of
        None \<Rightarrow> if rr_token_hash r = h \<and> rr_tenant_id r = Some tn then Some r else None
      | Some x \<Rightarrow> Some x)"
  by (simp add: find_refresh_def add_refresh_def find_append split: option.split)

text \<open>What a successful rotation did, in terms of the committed tables.\<close>

definition rotated :: "Service \<Rightarrow> Tenant \<Rightarrow> string \<Rightarrow> world \<Rightarrow> string \<Rightarrow> RefreshToken \<Rightarrow> world \<Rightarrow> bool" where
  "rotated S tenant tok w plain model w' \<longleftrightarrow>
     (\<exists>r at. find_refresh (HashToken tok (sv_tokenSecret S)) (t_ID tenant) (w_db w) = Some r \<and>
        rr_revoked_at r = None \<and> w_now w \<le> rr_expires_at r \<and>
        rt_UserID model = rr_user_id r \<and> rt_FamilyID model = rr_family_id r \<and>
        rt_ParentToken model = rr_token_id r \<and> rt_ClientID model = rr_client_id r \<and>
        rt_TenantID model = t_ID tenant \<and> rt_TokenHash model = HashToken plain (sv_tokenSecret S) \<and>
        rt_ExpiresAt model = rt_CreatedAt model + refreshTTL \<and> rt_ID model \<in> set (w_uuids w) \<and>
        rt_ID model \<notin> rr_token_id ` set (refresh_tokens (w_db w)) \<and>
        w_db w' = add_refresh (refresh_row_of (Some (t_ID tenant)) model)
          (revoke_rows (\<lambda>x. rr_token_id x = rr_token_id r \<and> rr_tenant_id x = Some (t_ID tenant)) at (w_db w)) \<and>
        w_tx w' = None \<and> (\<exists>us. w_uuids w = us @ w_uuids w' \<and> rt_ID model \<in> set us))"

lemma FindbyHash_Tx_Ok:
  "refresh_FindbyHash Tx h tn w = (Ok t, w') \<longleftrightarrow>
     next_ok w \<and> w' = pop w \<and>
     (\<exists>ta d r. w_tx w = Some (ta, d) \<and> t = scan_refresh r \<and> find_refresh h tn d = Some r)"
  by (simp add: refresh_FindbyHash_Tx_Ok_iff find_refresh_def)

lemma Revoke_Tx_Ok:
  "refresh_Revoke Tx i tn w = (Ok x, w') \<longleftrightarrow>
     next_ok (tick w) \<and> (\<exists>ta d. w_tx w = Some (ta, d) \<and>
       w' = (pop (tick w))\<lparr>w_tx := Some (ta,
         revoke_rows (\<lambda>r. rr_token_id r = i \<and> rr_tenant_id r = Some tn) (w_now w) d)\<rparr>)"
  by (auto simp: refresh_Revoke_def bindM_def attempt_def time_Now_eq ExecContext_Tx_Ok_iff upd_refresh_def revoke_rows_def)

lemma RevokeFamily_Tx_Ok:
  "refresh_RevokeAllForFamily Tx f tn w = (Ok x, w') \<longleftrightarrow>
     next_ok w \<and> (\<exists>ta d. w_tx w = Some (ta, d) \<and>
       w' = (pop w)\<lparr>w_tx := Some (ta,
         revoke_rows (\<lambda>r. rr_family_id r = f \<and> rr_revoked_at r = None \<and> rr_tenant_id r = Some tn) ta d)\<rparr>)"
  by (auto simp: refresh_RevokeAllForFamily_def ExecContext_Tx_Ok_iff upd_refresh_def revoke_rows_def)

lemma CreateTx_Ok:
  "refresh_CreateTx Tx t w = (Ok x, w') \<longleftrightarrow>
     next_ok w \<and> (\<exists>ta d. w_tx w = Some (ta, d) \<and> rt_ID t \<notin> rr_token_id ` set (refresh_tokens d) \<and>
       rt_UserID t \<in> user_ids d \<and>
       w' = (pop w)\<lparr>w_tx := Some (ta, add_refresh (refresh_row_of (Some (rt_TenantID t)) t) d)\<rparr>)"
  by (auto simp: refresh_CreateTx_def ExecContext_Tx_Ok_iff insert_refresh_def add_refresh_def
      split: if_splits)

lemma token_ids_revoke_rows [simp]:
  "rr_token_id ` set (update_where p (\<lambda>r. r\<lparr>rr_revoked_at := x\<rparr>) rs) = rr_token_id ` set rs"
  by (induction rs) auto

lemma rotate_live_Ok:
  assumes "rotate_live S old tn w = (Ok (plain, model), w')" "w_tx w = Some (ta, d)"
  shows "\<exists>at us. rt_UserID model = rt_UserID old \<and> rt_FamilyID model = rt_FamilyID old \<and>
    rt_ParentToken model = rt_ID old \<and> rt_ClientID model = rt_ClientID old \<and> rt_TenantID model = tn \<and>
    rt_TokenHash model = HashToken plain (sv_tokenSecret S) \<and>
    rt_ExpiresAt model = rt_CreatedAt model + refreshTTL \<and>
    rt_ID model \<notin> rr_token_id ` set (refresh_tokens d) \<and>
    w_uuids w = rt_ID model # us \<and> w_uuids w' = us \<and>
    w_db w' = add_refresh (refresh_row_of (Some tn) model)
      (revoke_rows (\<lambda>x. rr_token_id x = rt_ID old \<and> rr_tenant_id x = Some tn) at d)"
  using assms
  by (auto simp: rotate_live_def bindM_Ok_iff Revoke_Tx_Ok CreateTx_Ok Commit_Ok_iff
      GenerateRefreshToken_Ok_iff split: prod.splits)

lemma rotateHelper_Ok:
  assumes "rotateHelper S ctx tok w = (Ok (plain, model), w')"
  shows "\<exists>tenant. TenantFromContext ctx = Some tenant \<and> rotated S tenant tok w plain model w'"
proof -
  obtain tenant where t: "TenantFromContext ctx = Some tenant"
    using assms by (auto simp: rotateHelper_def split: option.splits)
  let ?h = "HashToken tok (sv_tokenSecret S)" and ?wb = "(pop w)\<lparr>w_tx := Some (w_now w, w_db w)\<rparr>"
  from assms t obtain r w1 where r: "find_refresh ?h (t_ID tenant) (w_db w) = Some r"
    "rr_revoked_at r = None" "\<not> rr_expires_at r < w_now w"
    and live: "rotate_live S (scan_refresh r) (t_ID tenant) (tick (pop ?wb)) = (Ok (plain, model), w1)"
    and w': "w' = Rollback w1"
    by (auto simp: rotateHelper_def withTx_Ok_iff attempt_Ok_iff bindM_Ok_iff FindbyHash_Tx_Ok
        time_Now_eq rotate_reuse_def split: if_splits)
  have tx: "w_tx (tick (pop ?wb)) = Some (w_now w, w_db w)" by simp
  from rotate_live_Ok[OF live tx] r w' t show ?thesis
    by (auto simp: rotated_def Rollback_def)
qed

text \<open>
  Errors that come from the driver or from the system: none of the program's own error values.
\<close>

definition plain_errors :: "'a M \<Rightarrow> bool" where
  "plain_errors m \<longleftrightarrow> (\<forall>w r w'. m w = (r, w') \<longrightarrow> is_Ok r \<or> (\<exists>s. r = Err (ErrOther s)))"

lemma plain_errorsD: "plain_errors m \<Longrightarrow> m w = (r, w') \<Longrightarrow> is_Ok r \<or> (\<exists>s. r = Err (ErrOther s))"
  unfolding plain_errors_def by blast

lemma plain_bindM:
  assumes m: "plain_errors m" and k: "\<And>a. plain_errors (k a)"
  shows "plain_errors (bindM m k)"
  unfolding plain_errors_def
proof (intro allI impI)
  fix w r w' assume run: "bindM m k w = (r, w')"
  obtain r1 w1 where r1: "m w = (r1, w1)" by fastforce
  show "is_Ok r \<or> (\<exists>s. r = Err (ErrOther s))"
  proof (cases r1)
    case (Ok a)
    with r1 run have "k a w1 = (r, w')" by simp
    then show ?thesis by (rule plain_errorsD[OF k])
  next
    case (Err e)
    with r1 run have "r = Err e" by simp
    with plain_errorsD[OF m r1] Err show ?thesis by simp
  next
    case (Panic s)
    with plain_errorsD[OF m r1] show ?thesis by simp
  qed
qed

lemma plain_exec:
  assumes "\<And>t d e. s t d = Inl e \<Longrightarrow> \<exists>m. e = ErrOther m"
  shows "plain_errors (ExecContext Tx s)"
  using assms
  by (auto simp: plain_errors_def ExecContext_Tx exec_tx_def ErrTxDone_def next_err_def
      split: if_splits option.splits sum.splits)

lemma plain_basic:
  "plain_errors time_Now" "plain_errors uuid_NewV7" "plain_errors (rand_Read n)" "plain_errors Commit"
  "plain_errors (ret a)" "plain_errors (modify f)"
  by (auto simp: plain_errors_def time_Now_eq uuid_NewV7_def rand_Read_def Commit_eq ErrTxDone_def
      next_err_def split: list.splits option.splits if_splits)

lemma violations_plain:
  "unique_violation c = ErrOther (''ERROR: duplicate key value violates unique constraint '' @ dquote c @ '' (SQLSTATE 23505)'')"
  "\<exists>m. fk_violation tbl c = ErrOther m" "\<exists>m. check_violation tbl c = ErrOther m"
  by (simp_all add: unique_violation_def fk_violation_def check_violation_def)

lemma plain_refresh:
  "plain_errors (refresh_Revoke Tx i tn)" "plain_errors (refresh_RevokeAllForFamily Tx i tn)"
  "plain_errors (refresh_CreateTx Tx t)" "plain_errors (GenerateRefreshToken u f p tn cl sec)"
  unfolding refresh_psql_defs GenerateRefreshToken_def Let_def
  by (intro plain_bindM plain_basic plain_exec;
      auto simp: upd_refresh_def insert_refresh_def violations_plain split: if_splits)+

lemma rotate_live_plain: "plain_errors (rotate_live S old tn)"
  unfolding rotate_live_def case_prod_beta by (intro plain_bindM plain_refresh plain_basic)

lemma rotate_live_atomic: "atomic (rotate_live S old tn)"
  unfolding rotate_live_def case_prod_beta by (intro atomic_bindM atomic_intros keeps_intros) simp

definition in_family :: "uuid \<Rightarrow> uuid \<Rightarrow> refresh_row \<Rightarrow> bool" where
  "in_family fam tn =
     (\<lambda>r. rr_family_id r = fam \<and> rr_revoked_at r = None \<and> rr_tenant_id r = Some tn)"

lemma rotate_reuse_run:
  assumes "rotate_reuse old tn w = (r, w')" "w_tx w = Some (ta, d)"
  shows "(r = Err ErrRefreshReuse \<and> w_db w' = revoke_rows (in_family (rt_FamilyID old) tn) ta d \<and>
      m_refresh_reuse (w_metrics w') = m_refresh_reuse (w_metrics w) + 1) \<or>
    ((\<exists>s. r = Err (ErrOther s)) \<and> w_db w' = w_db w)"
  using assms
  by (auto simp: rotate_reuse_def bindM_def attempt_def refresh_RevokeAllForFamily_def ExecContext_Tx
      exec_tx_def upd_refresh_def Commit_eq inc_reuse_def next_err_def revoke_rows_def in_family_def
      split: if_splits)

text \<open>Every way a rotation can end.\<close>

lemma rotateHelper_cases:
  assumes "rotateHelper S ctx tok w = (r, w')"
  obtains (NoTenant) "TenantFromContext ctx = None" "r = Err ErrTenantNotFound" "w' = w"
    | (Rotated) tenant plain model where "TenantFromContext ctx = Some tenant" "r = Ok (plain, model)"
        "rotated S tenant tok w plain model w'"
    | (Reuse) tenant x where "TenantFromContext ctx = Some tenant" "r = Err ErrRefreshReuse"
        "find_refresh (HashToken tok (sv_tokenSecret S)) (t_ID tenant) (w_db w) = Some x"
        "rr_revoked_at x \<noteq> None" "w_now w \<le> rr_expires_at x"
        "w_db w' = revoke_rows (in_family (rr_family_id x) (t_ID tenant)) (w_now w) (w_db w)"
        "m_refresh_reuse (w_metrics w') = m_refresh_reuse (w_metrics w) + 1"
    | (Invalid) "r = Err ErrInvalidToken" "w_db w' = w_db w"
    | (System) s where "r = Err (ErrOther s)" "w_db w' = w_db w"
proof (cases "TenantFromContext ctx")
  case None
  with assms NoTenant show ?thesis by (simp add: rotateHelper_def)
next
  case (Some tenant)
  let ?h = "HashToken tok (sv_tokenSecret S)" and ?wb = "(pop w)\<lparr>w_tx := Some (w_now w, w_db w)\<rparr>"
  let ?wc = "tick (pop ?wb)"
  have tx: "w_tx ?wc = Some (w_now w, w_db w)" by simp
  show ?thesis
  proof (cases "next_ok w \<and> next_ok ?wb \<and> find_refresh ?h (t_ID tenant) (w_db w) \<noteq> None")
    case False
    with assms Some Invalid System show ?thesis
      by (auto simp: rotateHelper_def withTx_eq attempt_def refresh_FindbyHash_def QueryRow_Tx
          find_refresh_def Rollback_def next_err_def split: if_splits option.splits)
  next
    case True
    then obtain x where x: "find_refresh ?h (t_ID tenant) (w_db w) = Some x" by auto
    obtain r1 w1 where body: "(if rr_expires_at x < w_now w then throw ErrInvalidToken
        else if rr_revoked_at x \<noteq> None then rotate_reuse (scan_refresh x) (t_ID tenant)
        else rotate_live S (scan_refresh x) (t_ID tenant)) ?wc = (r1, w1)" by fastforce
    have run: "r = r1" "w' = Rollback w1"
      using assms Some True x body
      by (auto simp: rotateHelper_def withTx_eq attempt_def refresh_FindbyHash_def QueryRow_Tx
          find_refresh_def bindM_def time_Now_eq split: if_splits)
    consider "rr_expires_at x < w_now w" | "\<not> rr_expires_at x < w_now w" "rr_revoked_at x \<noteq> None"
      | "\<not> rr_expires_at x < w_now w" "rr_revoked_at x = None" by blast
    then show ?thesis
    proof cases
      case 1
      with body run Invalid show ?thesis by (auto simp: Rollback_def)
    next
      case 2
      with body rotate_reuse_run[OF _ tx, of "scan_refresh x" "t_ID tenant" r1 w1] run Reuse[OF Some _ x] System
      show ?thesis by (auto simp: Rollback_def)
    next
      case 3
      then have live: "rotate_live S (scan_refresh x) (t_ID tenant) ?wc = (r1, w1)" using body by simp
      show ?thesis
      proof (cases "is_Ok r1")
        case True
        then obtain plain model where "r = Ok (plain, model)" using run(1) by (auto simp: is_Ok_iff)
        with assms rotateHelper_Ok[of S ctx tok w plain model w'] Rotated show ?thesis by blast
      next
        case False
        with plain_errorsD[OF rotate_live_plain live] atomicD[OF rotate_live_atomic live] run System
        show ?thesis by (auto simp: Rollback_def)
      qed
    qed
  qed
qed

lemma rotateHelper_closes: "rotateHelper S ctx tok w = (r, w') \<Longrightarrow> w_tx w = None \<Longrightarrow> w_tx w' = None"
  by (auto simp: rotateHelper_def split: option.splits dest: withTx_closes)

section \<open>Log-out and login\<close>

lemma Logout_atomic: "atomic (Logout S ctx tok)"
  unfolding Logout_def
  by (cases "TenantFromContext ctx")
    (auto intro!: atomic_attempt atomic_bindM atomic_intros keeps_intros)

lemma Logout_Ok:
  assumes "Logout S ctx tok w = (Ok x, w')"
  shows "\<exists>tenant r at. TenantFromContext ctx = Some tenant \<and> r \<in> set (refresh_tokens (w_db w)) \<and>
    rr_token_hash r = HashToken tok (sv_tokenSecret S) \<and> rr_tenant_id r = Some (t_ID tenant) \<and>
    rr_revoked_at r = None \<and> w_now w < rr_expires_at r \<and>
    w_db w' = revoke_rows (\<lambda>y. rr_token_id y = rr_token_id r \<and> rr_tenant_id y = Some (t_ID tenant)) at (w_db w)"
  using assms
  by (fastforce simp: Logout_def attempt_Ok_iff bindM_Ok_iff withTx_Ok_iff Commit_Ok_iff Revoke_Tx_Ok
      refresh_FindValidByHash_def QueryRow_Conn_Ok_iff Rollback_def split: option.splits
      dest!: find_Some_in)

lemma keeps_login_prepare [keeps_intros]:
  assumes "keeps I time_Now" "keeps I uuid_NewV7" "keeps I (rand_Read 32)"
  shows "keeps I (login_prepare S user tenant ip)"
  unfolding login_prepare_def by (intro keeps_intros assms)

lemma login_succeed_atomic: "atomic (login_succeed S user tenant ip)"
  unfolding login_succeed_def case_prod_beta
  by (intro atomic_bindM atomic_intros keeps_intros) (simp add: bindM_def attempt_def)

lemma keeps_RecordLoginFailure: "keeps (committed_is d) (limiter_RecordLoginFailure ip em n)"
  by (intro keeps_intros)

lemma login_failures_committed:
  "keeps (committed_is d) (login_unknown email ip)"
  "keeps (committed_is d) (login_wrong_password user tenant email ip)"
  "keeps (committed_is d) (find_user email tn)"
  unfolding login_unknown_def login_wrong_password_def susloginfailure_def find_user_def
  by (intro keeps_intros keeps_RecordLoginFailure keeps_deferM; simp add: Rollback_def)+

lemma login_found_atomic: "atomic (login_found S tenant email password ip user)"
  unfolding login_found_def
  by (auto split: option.splits intro: committed_imp_atomic login_failures_committed atomic_throw
      login_succeed_atomic)

lemma Login_atomic: "atomic (Login S ctx email password ip)"
proof (cases "TenantFromContext ctx")
  case None
  then show ?thesis by (simp add: Login_def atomic_throw)
next
  case (Some tenant)
  have "atomic (case found of None \<Rightarrow> login_unknown email ip
      | Some user \<Rightarrow> login_found S tenant email password ip user)" for found
    by (auto split: option.splits intro: committed_imp_atomic login_failures_committed login_found_atomic)
  then show ?thesis
    unfolding Login_def Some option.case by (intro atomic_bindM login_failures_committed)
qed

text \<open>What a successful login added.\<close>

definition add_event :: "OutboxEvent \<Rightarrow> db \<Rightarrow> db" where
  "add_event e d = d\<lparr>outbox_events := outbox_events d @
     [e\<lparr>oe_LockedAt := None, oe_LockedUntil := None, oe_LockedBy := None\<rparr>]\<rparr>"

lemma add_event_simps [simp]:
  "users (add_event e d) = users d" "refresh_tokens (add_event e d) = refresh_tokens d"
  "reset_tokens (add_event e d) = reset_tokens d" "email_tokens (add_event e d) = email_tokens d"
  "user_ids (add_event e d) = user_ids d" "tenants (add_event e d) = tenants d"
  by (simp_all add: add_event_def user_ids_def)

lemma new_event_simps [simp]:
  "oe_ID (new_event i ty p st nx cr) = i" "oe_EventType (new_event i ty p st nx cr) = ty"
  "oe_Payload (new_event i ty p st nx cr) = p" "oe_Status (new_event i ty p st nx cr) = st"
  by (simp_all add: new_event_def)

lemma outbox_CreateTx_Ok:
  "outbox_CreateTx Tx e w = (Ok x, w') \<longleftrightarrow>
     next_ok w \<and> (\<exists>ta d. w_tx w = Some (ta, d) \<and> oe_ID e \<notin> oe_ID ` set (outbox_events d) \<and>
       oe_Status e \<in> outbox_statuses \<and> w' = (pop w)\<lparr>w_tx := Some (ta, add_event e d)\<rparr>)"
  by (auto simp: outbox_CreateTx_def ExecContext_Tx_Ok_iff insert_outbox_def add_event_def split: if_splits)

lemma login_tx_Ok:
  assumes "withTx (bindM (outbox_CreateTx Tx e) (\<lambda>_. bindM (refresh_CreateTx Tx t) (\<lambda>_. bindM Commit (\<lambda>_.
      bindM (modify inc_login_success) (\<lambda>_. ret x))))) w = (Ok y, w')"
  shows "y = x \<and> w_db w' = add_refresh (refresh_row_of (Some (rt_TenantID t)) t) (add_event e (w_db w)) \<and>
    w_tx w' = None \<and> w_uuids w' = w_uuids w \<and> rt_UserID t \<in> user_ids (w_db w) \<and>
    rt_ID t \<notin> rr_token_id ` set (refresh_tokens (w_db w))"
  using assms
  by (auto simp: withTx_Ok_iff bindM_Ok_iff outbox_CreateTx_Ok CreateTx_Ok Commit_Ok_iff Rollback_def
      inc_login_success_def)

definition login_event :: "User \<Rightarrow> Tenant \<Rightarrow> string \<Rightarrow> OutboxEvent \<Rightarrow> bool" where
  "login_event user tenant ip e \<longleftrightarrow> oe_EventType e = UserLoginSucceeded \<and> oe_Status e = StatusPending \<and>
     oe_Payload e = EmailContextJSON \<lparr>ep_Tenant = t_TenantName tenant, ep_UserID = u_ID user,
       ep_Email = u_Email user, ep_Username = u_Username user, ep_EventID = oe_ID e, ep_IP = ip,
       ep_PayloadData = NoPayloadData\<rparr>"

definition login_token :: "Service \<Rightarrow> User \<Rightarrow> string \<Rightarrow> RefreshToken \<Rightarrow> bool" where
  "login_token S user plain t \<longleftrightarrow> rt_UserID t = u_ID user \<and> rt_ParentToken t = uuid_Nil \<and>
     rt_TenantID t = u_Tenant_ID user \<and> rt_TokenHash t = HashToken plain (sv_tokenSecret S) \<and>
     rt_ExpiresAt t = rt_CreatedAt t + refreshTTL"

definition signs :: "Service \<Rightarrow> User \<Rightarrow> string \<Rightarrow> bool" where
  "signs S user access \<longleftrightarrow>
     (\<exists>iat ex. jwt_Sign (sv_lib S) SigningMethodRSA
        \<lparr>c_UserID = u_ID user, c_Email = u_Email user, c_Subject = uuid_String (sv_lib S) (u_ID user),
         c_Issuer = ''auth-service'', c_IssuedAt = iat, c_ExpiresAt = ex\<rparr> (sv_privateKey S) = Inr access)"

lemma GenerateAccessToken_Ok:
  "GenerateAccessToken (sv_lib S) (u_ID user) (u_Email user) (sv_privateKey S) w = (Ok a, w') \<Longrightarrow>
     signs S user a \<and> w' = tick (tick w)"
  by (auto simp: GenerateAccessToken_def bindM_Ok_iff time_Now_eq ret_sum_Ok_iff signs_def)

lemma login_prepare_Ok:
  assumes "login_prepare S user tenant ip w = (Ok ((access, refresh, client), t, e), w')"
  shows "\<exists>c us. w_uuids w = [c, rt_FamilyID t, rt_ID t, oe_ID e] @ us \<and> w_uuids w' = us \<and>
    login_token S user refresh t \<and> login_event user tenant ip e \<and> signs S user access \<and>
    w_db w' = w_db w"
  using assms
  by (auto simp: login_prepare_def bindM_Ok_iff Let_def time_Now_eq uuid_NewV7_Ok_iff
      GenerateRefreshToken_Ok_iff login_token_def login_event_def split: prod.splits
      dest!: GenerateAccessToken_Ok)

lemma login_succeed_Ok:
  assumes "login_succeed S user tenant ip w = (Ok (access, refresh, client), w')"
  shows "\<exists>t e c us. w_uuids w = [c, rt_FamilyID t, rt_ID t, oe_ID e] @ us \<and> w_uuids w' = us \<and>
    login_token S user refresh t \<and> login_event user tenant ip e \<and> signs S user access \<and>
    w_db w' = add_refresh (refresh_row_of (Some (u_Tenant_ID user)) t) (add_event e (w_db w)) \<and>
    rt_ID t \<notin> rr_token_id ` set (refresh_tokens (w_db w)) \<and> w_tx w' = None"
proof -
  from assms obtain x t e w1 where p: "login_prepare S user tenant ip w = (Ok (x, t, e), w1)"
    and tx: "withTx (bindM (outbox_CreateTx Tx e) (\<lambda>_. bindM (refresh_CreateTx Tx t) (\<lambda>_. bindM Commit (\<lambda>_.
      bindM (modify inc_login_success) (\<lambda>_. ret x))))) w1 = (Ok (access, refresh, client), w')"
    by (auto simp: login_succeed_def bindM_Ok_iff[of "login_prepare S user tenant ip"])
  from login_tx_Ok[OF tx] have x: "x = (access, refresh, client)" by simp
  from login_prepare_Ok[OF p[unfolded x]] login_tx_Ok[OF tx] show ?thesis
    by (intro exI[of _ t] exI[of _ e]) (auto simp: login_token_def)
qed

section \<open>Properties of sessions\<close>

lemma update_row_other:
  assumes "\<not> p x" "x \<in> set rs"
  shows "x \<in> set (update_where p f rs)"
  using assms by (induction rs) auto

lemma update_row_revoked:
  assumes "x \<in> set (update_where p (\<lambda>r. r\<lparr>rr_revoked_at := Some t\<rparr>) rs)" "p x \<or> rr_revoked_at x \<noteq> None"
    and "\<And>r at. p (r\<lparr>rr_revoked_at := at\<rparr>) = p r"
  shows "rr_revoked_at x \<noteq> None"
  using assms(1,2) by (cases "p x") (auto elim: update_where_hit)

text \<open>
  C1: A successful refresh consumed a token of this tenant that was neither revoked nor expired. In
  the committed tables that token is now revoked, exactly one token was added (it belongs to the
  same user, family, client and tenant, names the old token as its parent, is not revoked and
  expires thirty days after its creation), and every other token and every user is as before.
\<close>

theorem refresh_rotates:
  assumes "rotateHelper S ctx tok w = (Ok (plain, model), w')" "db_wf (w_db w)"
  shows "\<exists>tenant r. TenantFromContext ctx = Some tenant \<and> r \<in> set (refresh_tokens (w_db w)) \<and>
    rr_token_hash r = HashToken tok (sv_tokenSecret S) \<and> rr_tenant_id r = Some (t_ID tenant) \<and>
    rr_revoked_at r = None \<and> w_now w \<le> rr_expires_at r \<and>
    rt_UserID model = rr_user_id r \<and> rt_FamilyID model = rr_family_id r \<and> rt_ClientID model = rr_client_id r \<and>
    rt_ParentToken model = rr_token_id r \<and> rt_TokenHash model = HashToken plain (sv_tokenSecret S) \<and>
    rt_ExpiresAt model = rt_CreatedAt model + 30 * 24 * Hour \<and>
    users (w_db w') = users (w_db w) \<and>
    (\<exists>old. refresh_tokens (w_db w') = old @ [refresh_row_of (Some (t_ID tenant)) model] \<and>
       length old = length (refresh_tokens (w_db w)) \<and>
       (\<forall>x \<in> set old. rr_token_id x = rr_token_id r \<longrightarrow> rr_revoked_at x \<noteq> None) \<and>
       (\<forall>x \<in> set (refresh_tokens (w_db w)). rr_token_id x \<noteq> rr_token_id r \<longrightarrow> x \<in> set old))"
proof -
  from rotateHelper_Ok[OF assms(1)] obtain tenant r at where t: "TenantFromContext ctx = Some tenant"
    and r: "find_refresh (HashToken tok (sv_tokenSecret S)) (t_ID tenant) (w_db w) = Some r"
      "rr_revoked_at r = None" "w_now w \<le> rr_expires_at r"
    and m: "rt_UserID model = rr_user_id r" "rt_FamilyID model = rr_family_id r"
      "rt_ClientID model = rr_client_id r" "rt_ParentToken model = rr_token_id r"
      "rt_TokenHash model = HashToken plain (sv_tokenSecret S)"
      "rt_ExpiresAt model = rt_CreatedAt model + refreshTTL"
    and db: "w_db w' = add_refresh (refresh_row_of (Some (t_ID tenant)) model)
      (revoke_rows (\<lambda>x. rr_token_id x = rr_token_id r \<and> rr_tenant_id x = Some (t_ID tenant)) at (w_db w))"
    by (auto simp: rotated_def)
  from find_refresh_Some[OF r(1)] have mem: "r \<in> set (refresh_tokens (w_db w))"
    "rr_token_hash r = HashToken tok (sv_tokenSecret S)" "rr_tenant_id r = Some (t_ID tenant)" by auto
  let ?p = "\<lambda>x. rr_token_id x = rr_token_id r \<and> rr_tenant_id x = Some (t_ID tenant)"
  let ?old = "update_where ?p (\<lambda>x. x\<lparr>rr_revoked_at := Some at\<rparr>) (refresh_tokens (w_db w))"
  have rev: "rr_revoked_at x \<noteq> None" if x: "x \<in> set ?old" "rr_token_id x = rr_token_id r" for x
  proof -
    from x(1) obtain y where y: "y \<in> set (refresh_tokens (w_db w))"
      "x = (if ?p y then y\<lparr>rr_revoked_at := Some at\<rparr> else y)" by (rule update_whereE)
    with x(2) have "rr_token_id y = rr_token_id r" by (auto split: if_splits)
    with y(1) mem(1) assms(2) distinct_key_inj[of rr_token_id "refresh_tokens (w_db w)" y r]
    have "y = r" by (simp add: db_wf_def)
    with y(2) mem(3) show ?thesis by simp
  qed
  have "x \<in> set ?old" if "x \<in> set (refresh_tokens (w_db w))" "rr_token_id x \<noteq> rr_token_id r" for x
    using that by (intro update_row_other) auto
  with rev have "\<exists>old. refresh_tokens (w_db w') = old @ [refresh_row_of (Some (t_ID tenant)) model] \<and>
       length old = length (refresh_tokens (w_db w)) \<and>
       (\<forall>x \<in> set old. rr_token_id x = rr_token_id r \<longrightarrow> rr_revoked_at x \<noteq> None) \<and>
       (\<forall>x \<in> set (refresh_tokens (w_db w)). rr_token_id x \<noteq> rr_token_id r \<longrightarrow> x \<in> set old)"
    by (intro exI[of _ ?old]) (simp add: db)
  moreover have "users (w_db w') = users (w_db w)" by (simp add: db)
  ultimately show ?thesis using t mem r(2,3) m[unfolded refreshTTL_def] by blast
qed

lemma session_find: "find_refresh (HashToken ''tok'' ''s'') 3 (sample_db\<lparr>refresh_tokens := [session_row ro]\<rparr>) =
    Some (session_row ro)"
  by (simp add: find_refresh_def)

lemma session_rotates: "\<exists>plain model w'. rotateHelper sample_S acme_ctx ''tok'' (session_world None) = (Ok (plain, model), w')"
  by (simp add: rotateHelper_def withTx_eq attempt_def refresh_FindbyHash_def QueryRow_Tx next_ok_def
      bindM_def time_Now_eq tick_quiet rotate_live_def refresh_Revoke_def ExecContext_Tx exec_tx_def
      upd_refresh_def GenerateRefreshToken_def rand_Read_def uuid_NewV7_def refresh_CreateTx_def
      insert_refresh_def user_ids_def sample_defs Commit_eq Let_def)

lemma refresh_rotates_witness:
  "\<exists>plain model w'. rotateHelper sample_S acme_ctx ''tok'' (session_world None) = (Ok (plain, model), w') \<and>
     rt_UserID model = 7 \<and> rt_FamilyID model = 21 \<and> rt_ParentToken model = 20"
proof -
  obtain plain model w' where run: "rotateHelper sample_S acme_ctx ''tok'' (session_world None) = (Ok (plain, model), w')"
    using session_rotates by blast
  from refresh_rotates[OF run session_world_wf] run show ?thesis by auto
qed

lemma family_dead:
  assumes "d' = revoke_rows (in_family f tn) t d" "x \<in> set (refresh_tokens d')" "rr_family_id x = f" "rr_tenant_id x = Some tn"
  shows "rr_revoked_at x \<noteq> None"
proof
  assume none: "rr_revoked_at x = None"
  from assms(1,2) obtain y where "y \<in> set (refresh_tokens d)"
    "x = (if in_family f tn y then y\<lparr>rr_revoked_at := Some t\<rparr> else y)"
    by (auto simp: revoke_rows_def in_update_where_iff)
  with none assms(3,4) show False by (auto simp: in_family_def split: if_splits)
qed

lemma rotateHelper_reuse_quiet:
  assumes "TenantFromContext ctx = Some tenant" "find_refresh (HashToken tok (sv_tokenSecret S)) (t_ID tenant) (w_db w) = Some r"
    and "rr_revoked_at r \<noteq> None" "w_now w \<le> rr_expires_at r" "w_faults w = []"
  shows "fst (rotateHelper S ctx tok w) = Err ErrRefreshReuse"
  using assms
  by (simp add: rotateHelper_def withTx_eq attempt_def refresh_FindbyHash_def QueryRow_Tx next_ok_def find_refresh_def
      bindM_def time_Now_eq rotate_reuse_def refresh_RevokeAllForFamily_def ExecContext_Tx exec_tx_def upd_refresh_def Commit_eq)

text \<open>
  C2: Reuse detection. A stored refresh token of this tenant that has been revoked and is presented again before it
  expires never gets a new one; when the database does not fail the answer is the reuse error. Whenever the answer to
  a token is the reuse error, that token was revoked, and afterwards every token of its family in this tenant is
  revoked, and the reuse is counted. (An expired token, revoked or not, is answered as invalid.)
\<close>

theorem reuse_revokes_family:
  assumes "TenantFromContext ctx = Some tenant" "find_refresh (HashToken tok (sv_tokenSecret S)) (t_ID tenant) (w_db w) = Some r"
    and "w_now w \<le> rr_expires_at r" "rotateHelper S ctx tok w = (res, w')"
  shows "(rr_revoked_at r \<noteq> None \<longrightarrow> \<not> is_Ok res \<and> (w_faults w = [] \<longrightarrow> res = Err ErrRefreshReuse)) \<and>
    (res = Err ErrRefreshReuse \<longrightarrow> rr_revoked_at r \<noteq> None \<and>
      (\<forall>x \<in> set (refresh_tokens (w_db w')). rr_family_id x = rr_family_id r \<and>
         rr_tenant_id x = Some (t_ID tenant) \<longrightarrow> rr_revoked_at x \<noteq> None) \<and>
      m_refresh_reuse (w_metrics w') = m_refresh_reuse (w_metrics w) + 1)"
proof (intro conjI impI)
  assume rev: "rr_revoked_at r \<noteq> None"
  from assms(4) show "\<not> is_Ok res"
    by (cases rule: rotateHelper_cases) (use assms(1,2) rev in \<open>auto simp: rotated_def\<close>)
  show "res = Err ErrRefreshReuse" if "w_faults w = []"
    using rotateHelper_reuse_quiet[OF assms(1,2) rev assms(3) that] assms(4) by simp
next
  assume reuse: "res = Err ErrRefreshReuse"
  from assms(4) have "rr_revoked_at r \<noteq> None \<and> w_db w' = revoke_rows (in_family (rr_family_id r) (t_ID tenant)) (w_now w) (w_db w) \<and>
      m_refresh_reuse (w_metrics w') = m_refresh_reuse (w_metrics w) + 1"
    by (cases rule: rotateHelper_cases) (use assms(1,2) reuse in auto)
  then show "rr_revoked_at r \<noteq> None" "\<forall>x \<in> set (refresh_tokens (w_db w')). rr_family_id x = rr_family_id r \<and>
         rr_tenant_id x = Some (t_ID tenant) \<longrightarrow> rr_revoked_at x \<noteq> None"
    "m_refresh_reuse (w_metrics w') = m_refresh_reuse (w_metrics w) + 1"
    using family_dead by auto
qed

lemma session_reuse: "fst (rotateHelper sample_S acme_ctx ''tok'' (session_world (Some 900))) = Err ErrRefreshReuse"
  by (simp add: rotateHelper_def withTx_eq attempt_def refresh_FindbyHash_def QueryRow_Tx next_ok_def
      bindM_def time_Now_eq tick_quiet rotate_reuse_def refresh_RevokeAllForFamily_def ExecContext_Tx exec_tx_def
      upd_refresh_def Commit_eq)

lemma reuse_revokes_family_witness:
  "\<exists>w'. rotateHelper sample_S acme_ctx ''tok'' (session_world (Some 900)) = (Err ErrRefreshReuse, w') \<and>
     m_refresh_reuse (w_metrics w') = 1"
proof -
  obtain w' where run: "rotateHelper sample_S acme_ctx ''tok'' (session_world (Some 900)) = (Err ErrRefreshReuse, w')"
    using session_reuse by (metis prod.collapse)
  have f: "find_refresh (HashToken ''tok'' (sv_tokenSecret sample_S)) (t_ID acme) (w_db (session_world (Some 900))) =
      Some (session_row (Some 900))" by (simp add: find_refresh_def)
  from reuse_revokes_family[OF _ f _ run] run show ?thesis by (auto simp: init_metrics_def)
qed

text \<open>
  C4: Unless a refresh succeeds or reports reuse, it changes no table at all, whatever fails in
  the database on the way; in particular an unknown or expired token (even a revoked one) has no
  effect on its family.
\<close>

theorem refresh_failure_no_effect:
  assumes "rotateHelper S ctx tok w = (r, w')" "\<not> is_Ok r" "r \<noteq> Err ErrRefreshReuse"
  shows "w_db w' = w_db w"
  using assms by (cases rule: rotateHelper_cases) auto

lemma refresh_failure_no_effect_witness:
  "w_db (snd (rotateHelper sample_S background ''tok'' (session_world None))) = w_db (session_world None)"
proof (rule refresh_failure_no_effect)
  show "rotateHelper sample_S background ''tok'' (session_world None) =
      (Err ErrTenantNotFound, snd (rotateHelper sample_S background ''tok'' (session_world None)))"
    by (simp add: rotateHelper_def TenantFromContext_def background_def)
qed simp_all

lemma quiet_steps: "w_faults w = [] \<Longrightarrow> next_ok w" "w_faults w = [] \<Longrightarrow> w_faults (pop w) = []"
  by (simp_all add: next_ok_def)

lemma rotate_reuse_quiet:
  assumes "w_faults w = []" "TenantFromContext ctx = Some tenant"
    and "find_refresh (HashToken tok (sv_tokenSecret S)) (t_ID tenant) (w_db w) = Some x"
    and "rr_revoked_at x \<noteq> None" "w_now w \<le> rr_expires_at x"
  shows "fst (rotateHelper S ctx tok w) = Err ErrRefreshReuse"
  using assms
  by (auto simp: rotateHelper_def withTx_eq attempt_def refresh_FindbyHash_def QueryRow_Tx find_refresh_def
      bindM_def time_Now_eq rotate_reuse_def refresh_RevokeAllForFamily_def ExecContext_Tx exec_tx_def
      upd_refresh_def Commit_eq next_ok_def)

text \<open>
  C3: Theft of a refresh token is contained: if a token was rotated once and is then presented a
  second time (before it expires), the second presenter gets the reuse error, and from then on the
  token that the first presenter received is dead as well. (The hash of the new token is that of no
  stored token but the presented one.)
\<close>

theorem stolen_token_kills_session:
  assumes "rotateHelper S ctx tok w = (Ok (plain, model), w1)"
    and "\<forall>x \<in> set (refresh_tokens (w_db w)). rr_token_hash x = HashToken plain (sv_tokenSecret S) \<longrightarrow>
      rr_token_hash x = HashToken tok (sv_tokenSecret S)"
    and "w_db w2 = w_db w1" "w_faults w2 = []" "rotateHelper S ctx tok w2 = (r2, w3)"
    and "\<forall>x \<in> set (refresh_tokens (w_db w)). rr_token_hash x = HashToken tok (sv_tokenSecret S) \<longrightarrow>
      w_now w2 \<le> rr_expires_at x"
    and "w_db w4 = w_db w3" "rotateHelper S ctx plain w4 = (r4, w5)"
  shows "r2 = Err ErrRefreshReuse \<and> \<not> is_Ok r4"
proof -
  let ?h = "HashToken tok (sv_tokenSecret S)" and ?h' = "HashToken plain (sv_tokenSecret S)"
  from rotateHelper_Ok[OF assms(1)] obtain tenant r at where t: "TenantFromContext ctx = Some tenant"
    and r: "find_refresh ?h (t_ID tenant) (w_db w) = Some r"
    and m: "rt_FamilyID model = rr_family_id r" "rt_TokenHash model = ?h'"
    and db: "w_db w1 = add_refresh (refresh_row_of (Some (t_ID tenant)) model)
      (revoke_rows (\<lambda>x. rr_token_id x = rr_token_id r \<and> rr_tenant_id x = Some (t_ID tenant)) at (w_db w))"
    by (auto simp: rotated_def)
  from find_refresh_Some[OF r] have mem: "r \<in> set (refresh_tokens (w_db w))"
    "rr_token_hash r = ?h" "rr_tenant_id r = Some (t_ID tenant)" by auto
  let ?r = "r\<lparr>rr_revoked_at := Some at\<rparr>"
  have f2: "find_refresh ?h (t_ID tenant) (w_db w2) = Some ?r"
    using r mem(3) by (simp add: assms(3) db find_refresh_add find_refresh_revoke_rows)
  have "w_now w2 \<le> rr_expires_at ?r" using assms(6) mem by simp
  with rotate_reuse_quiet[OF assms(4) t f2] have r2: "r2 = Err ErrRefreshReuse" by (simp add: assms(5))
  have db3: "w_db w3 = revoke_rows (in_family (rr_family_id r) (t_ID tenant)) (w_now w2) (w_db w1)"
    using assms(5)[unfolded r2] by (cases rule: rotateHelper_cases) (use f2 t assms(3) in auto)
  have "\<exists>y. find_refresh ?h' (t_ID tenant) (w_db w4) = Some y \<and> rr_revoked_at y \<noteq> None"
  proof (cases "find_refresh ?h' (t_ID tenant) (w_db w)")
    case None
    then show ?thesis
      by (simp add: assms(7) db3 db find_refresh_revoke_rows find_refresh_add m in_family_def)
  next
    case (Some x)
    with assms(2) find_refresh_Some[OF Some] have h: "?h' = ?h" by auto
    show ?thesis using f2 unfolding h assms(7) db3 assms(3)[symmetric]
      by (simp add: find_refresh_revoke_rows)
  qed
  with assms(8) t have "\<not> is_Ok r4"
    by (cases rule: rotateHelper_cases) (auto simp: rotated_def)
  with r2 show ?thesis by simp
qed

lemma stolen_token_kills_session_witness:
  "\<exists>plain model w1. rotateHelper sample_S acme_ctx ''tok'' (session_world None) = (Ok (plain, model), w1) \<and>
     (let w2 = (session_world None)\<lparr>w_db := w_db w1\<rparr>; (r2, w3) = rotateHelper sample_S acme_ctx ''tok'' w2 in
      r2 = Err ErrRefreshReuse \<and> \<not> is_Ok (fst (rotateHelper sample_S acme_ctx plain w3)))"
proof -
  obtain plain model w1 where run: "rotateHelper sample_S acme_ctx ''tok'' (session_world None) = (Ok (plain, model), w1)"
    using session_rotates by blast
  let ?w2 = "(session_world None)\<lparr>w_db := w_db w1\<rparr>"
  obtain r2 w3 where r2: "rotateHelper sample_S acme_ctx ''tok'' ?w2 = (r2, w3)" by fastforce
  obtain r4 w5 where r4: "rotateHelper sample_S acme_ctx plain w3 = (r4, w5)" by fastforce
  have "r2 = Err ErrRefreshReuse \<and> \<not> is_Ok r4"
    by (rule stolen_token_kills_session[OF run _ _ _ r2 _ refl r4]) (simp_all add: session_world_def)
  with run r2 r4 show ?thesis by auto
qed

text \<open>
  C9: Log-out revokes exactly the presented token, which was valid; a token that is unknown, revoked
  or expired is refused as invalid; and unless log-out succeeds no table changes.
\<close>

theorem logout_revokes_token:
  assumes "Logout S ctx tok w = (r, w')"
  shows "if is_Ok r then (\<exists>tenant x at. TenantFromContext ctx = Some tenant \<and>
        x \<in> set (refresh_tokens (w_db w)) \<and> rr_token_hash x = HashToken tok (sv_tokenSecret S) \<and>
        rr_tenant_id x = Some (t_ID tenant) \<and> rr_revoked_at x = None \<and> w_now w < rr_expires_at x \<and>
        w_db w' = (w_db w)\<lparr>refresh_tokens := map (\<lambda>y. if rr_token_id y = rr_token_id x \<and>
          rr_tenant_id y = Some (t_ID tenant) then y\<lparr>rr_revoked_at := Some at\<rparr> else y)
          (refresh_tokens (w_db w))\<rparr>)
    else w_db w' = w_db w"
proof (cases "is_Ok r")
  case True
  with assms Logout_Ok[of S ctx tok w "()" w'] show ?thesis
    by (auto simp: is_Ok_iff revoke_rows_def update_where_def)
next
  case False
  with atomicD[OF Logout_atomic assms] show ?thesis by simp
qed

lemma logout_revokes_token_witness:
  "\<exists>x. x \<in> set (refresh_tokens (w_db (snd (Logout sample_S acme_ctx ''tok'' (session_world None))))) \<and>
     rr_token_id x = 20 \<and> rr_revoked_at x \<noteq> None"
proof -
  obtain r w' where run: "Logout sample_S acme_ctx ''tok'' (session_world None) = (r, w')" by fastforce
  moreover have "is_Ok (fst (Logout sample_S acme_ctx ''tok'' (session_world None)))"
    by (simp add: Logout_def attempt_def refresh_FindValidByHash_def QueryRow_Conn next_ok_def withTx_eq
        bindM_def time_Now_eq tick_quiet refresh_Revoke_def ExecContext_Tx exec_tx_def upd_refresh_def Commit_eq)
  ultimately have "is_Ok r" by simp
  with logout_revokes_token[OF run] run show ?thesis by auto
qed

lemma Login_Ok:
  assumes "Login S ctx email password ip w = (Ok (access, refresh, client), w')"
  shows "\<exists>tenant user hash t e. TenantFromContext ctx = Some tenant \<and> user \<in> set (users (w_db w)) \<and>
    u_Email user = email \<and> u_Tenant_ID user = t_ID tenant \<and> u_PasswordHash user = Some hash \<and>
    ComparePassword (sv_lib S) hash password = None \<and> u_LockedAt user = None \<and> signs S user access \<and>
    login_token S user refresh t \<and> login_event user tenant ip e \<and>
    w_db w' = add_refresh (refresh_row_of (Some (t_ID tenant)) t) (add_event e (w_db w)) \<and>
    rt_ID t \<notin> rr_token_id ` set (refresh_tokens (w_db w)) \<and>
    (\<exists>pre. w_uuids w = pre @ w_uuids w' \<and> rt_FamilyID t \<in> set pre)"
proof -
  obtain tenant where t: "TenantFromContext ctx = Some tenant"
    using assms by (auto simp: Login_def split: option.splits)
  have nofail: "login_unknown email ip x \<noteq> (Ok y, x')" "login_wrong_password u tn email ip x \<noteq> (Ok y, x')"
    for u tn x x' and y :: "string \<times> string \<times> string"
    by (auto simp: login_unknown_def login_wrong_password_def loginFailed_def bindM_Ok_iff attempt_Ok_iff
        deferM_iff split: if_splits)
  from assms t obtain found w1 where u1: "find_user email (t_ID tenant) w = (Ok found, w1)"
    and rest: "(case found of None \<Rightarrow> login_unknown email ip
      | Some user \<Rightarrow> login_found S tenant email password ip user) w1 = (Ok (access, refresh, client), w')"
    by (auto simp: Login_def bindM_Ok_iff)
  from rest nofail(1) obtain user where user0: "found = Some user"
    and lf: "login_found S tenant email password ip user w1 = (Ok (access, refresh, client), w')"
    by (cases found) auto
  from lf nofail obtain hash where u: "u_PasswordHash user = Some hash"
    "ComparePassword (sv_lib S) hash password = None" "u_LockedAt user = None"
    and run: "login_succeed S user tenant ip w1 = (Ok (access, refresh, client), w')"
    by (cases "u_PasswordHash user") (auto simp: login_found_def split: if_splits)
  from u1 user0 have f: "users_FindByEmail email (t_ID tenant) w = (Ok user, w1)"
    by (auto simp: find_user_def attempt_Ok_iff split: if_splits)
  from users_FindByEmail_Some[OF f] have user: "user \<in> set (users (w_db w))" "u_Email user = email"
    "u_Tenant_ID user = t_ID tenant" "w1 = pop w" by auto
  from login_succeed_Ok[OF run] obtain t e c us where
    uuids: "w_uuids w1 = [c, rt_FamilyID t, rt_ID t, oe_ID e] @ us"
    and "w_uuids w' = us" and added: "rt_ID t \<notin> rr_token_id ` set (refresh_tokens (w_db w1))" "login_token S user refresh t" "login_event user tenant ip e" "signs S user access"
    "w_db w' = add_refresh (refresh_row_of (Some (u_Tenant_ID user)) t) (add_event e (w_db w1))"
    by blast
  from uuids \<open>w_uuids w' = us\<close> user(4) have pre: "\<exists>pre. w_uuids w = pre @ w_uuids w' \<and> rt_FamilyID t \<in> set pre"
    by (intro exI[of _ "[c, rt_FamilyID t, rt_ID t, oe_ID e]"]) simp
  show ?thesis
    by (intro exI[of _ tenant] exI[of _ user] exI[of _ hash] exI[of _ t] exI[of _ e])
      (use added user pre \<open>TenantFromContext ctx = Some tenant\<close> u in simp)
qed

text \<open>
  C6: A login that succeeds was made with the right password of an existing account of this tenant
  that is not locked. It adds one refresh token, the first of a new family, of which only the hash
  is stored, and one pending login event, and nothing else; the access token was signed by the
  service's key for that user. A login that does not succeed, whatever fails on the way, leaves the accounts and
  the refresh tokens alone; when the password was right it leaves every table alone, so that the token and the
  event are stored together or not at all.
\<close>

theorem login_success_sound:
  assumes "Login S ctx email password ip w = (res, w')"
  shows "(\<not> is_Ok res \<longrightarrow> users (w_db w') = users (w_db w) \<and> refresh_tokens (w_db w') = refresh_tokens (w_db w) \<and>
      ((\<exists>tenant user hash. TenantFromContext ctx = Some tenant \<and> user \<in> set (users (w_db w)) \<and> u_Email user = email \<and>
         u_Tenant_ID user = t_ID tenant \<and> u_PasswordHash user = Some hash \<and>
         ComparePassword (sv_lib S) hash password = None) \<longrightarrow> w_db w' = w_db w)) \<and>
    (\<forall>access refresh client. res = Ok (access, refresh, client) \<longrightarrow>
    (\<exists>tenant user hash t e. TenantFromContext ctx = Some tenant \<and> user \<in> set (users (w_db w)) \<and>
    u_Email user = email \<and> u_Tenant_ID user = t_ID tenant \<and> u_PasswordHash user = Some hash \<and>
    ComparePassword (sv_lib S) hash password = None \<and> u_LockedAt user = None \<and> signs S user access \<and>
    login_token S user refresh t \<and> login_event user tenant ip e \<and> rt_FamilyID t \<in> set (w_uuids w) \<and>
    w_db w' = add_refresh (refresh_row_of (Some (t_ID tenant)) t) (add_event e (w_db w))))"
proof (rule conjI)
  show "\<not> is_Ok res \<longrightarrow> users (w_db w') = users (w_db w) \<and> refresh_tokens (w_db w') = refresh_tokens (w_db w) \<and>
      ((\<exists>tenant user hash. TenantFromContext ctx = Some tenant \<and> user \<in> set (users (w_db w)) \<and> u_Email user = email \<and>
         u_Tenant_ID user = t_ID tenant \<and> u_PasswordHash user = Some hash \<and>
         ComparePassword (sv_lib S) hash password = None) \<longrightarrow> w_db w' = w_db w)"
    using atomicD[OF Login_atomic assms] by simp
next
  show "\<forall>access refresh client. res = Ok (access, refresh, client) \<longrightarrow>
    (\<exists>tenant user hash t e. TenantFromContext ctx = Some tenant \<and> user \<in> set (users (w_db w)) \<and>
    u_Email user = email \<and> u_Tenant_ID user = t_ID tenant \<and> u_PasswordHash user = Some hash \<and>
    ComparePassword (sv_lib S) hash password = None \<and> u_LockedAt user = None \<and> signs S user access \<and>
    login_token S user refresh t \<and> login_event user tenant ip e \<and> rt_FamilyID t \<in> set (w_uuids w) \<and>
    w_db w' = add_refresh (refresh_row_of (Some (t_ID tenant)) t) (add_event e (w_db w)))"
  proof (intro allI impI)
    fix access refresh client assume "res = Ok (access, refresh, client)"
    with assms have "Login S ctx email password ip w = (Ok (access, refresh, client), w')" by simp
    from Login_Ok[OF this] show "\<exists>tenant user hash t e. TenantFromContext ctx = Some tenant \<and> user \<in> set (users (w_db w)) \<and>
      u_Email user = email \<and> u_Tenant_ID user = t_ID tenant \<and> u_PasswordHash user = Some hash \<and>
      ComparePassword (sv_lib S) hash password = None \<and> u_LockedAt user = None \<and> signs S user access \<and>
      login_token S user refresh t \<and> login_event user tenant ip e \<and> rt_FamilyID t \<in> set (w_uuids w) \<and>
      w_db w' = add_refresh (refresh_row_of (Some (t_ID tenant)) t) (add_event e (w_db w))" by fastforce
  qed
qed

lemma sample_login:
  "\<exists>x w'. Login sample_S acme_ctx ''a@b'' ''password12'' ''1.1.1.1'' sample_world = (Ok x, w') \<and>
     w_uuids w' = [14, 15] \<and> w_now w' = 1000 \<and> w_ticks w' = [] \<and> w_faults w' = [] \<and> w_rand w' = [[2], [3], [4], [5], [6]] \<and>
     map rr_token_id (refresh_tokens (w_db w')) = [12] \<and> map rr_expires_at (refresh_tokens (w_db w')) = [1000 + refreshTTL] \<and>
     map oe_ID (outbox_events (w_db w')) = [13]"
proof -
  have "users_FindByEmail ''a@b'' 3 sample_world = (Ok sample_user, sample_world)"
    by (simp add: users_FindByEmail_def QueryRow_Conn next_ok_def sample_db_def pop_def) (simp add: sample_user_def)
  then have f: "find_user ''a@b'' 3 sample_world = (Ok (Some sample_user), sample_world)"
    by (simp add: find_user_def)
  have "\<exists>x w'. login_succeed sample_S sample_user acme ''1.1.1.1'' sample_world = (Ok x, w') \<and>
     w_uuids w' = [14, 15] \<and> w_now w' = 1000 \<and> w_ticks w' = [] \<and> w_faults w' = [] \<and> w_rand w' = [[2], [3], [4], [5], [6]] \<and>
     map rr_token_id (refresh_tokens (w_db w')) = [12] \<and> map rr_expires_at (refresh_tokens (w_db w')) = [1000 + refreshTTL] \<and>
     map oe_ID (outbox_events (w_db w')) = [13]"
    by (simp add: login_succeed_def login_prepare_def withTx_eq attempt_def next_ok_def
      bindM_def time_Now_eq tick_quiet ExecContext_Tx exec_tx_def GenerateAccessToken_def
      GenerateRefreshToken_def rand_Read_def uuid_NewV7_def refresh_CreateTx_def outbox_CreateTx_def
      insert_outbox_def outbox_statuses_def StatusPending_def insert_refresh_def user_ids_def sample_defs Commit_eq Let_def Rollback_def inc_login_success_def)
  then have "\<exists>x w'. login_found sample_S acme ''a@b'' ''password12'' ''1.1.1.1'' sample_user sample_world = (Ok x, w') \<and>
     w_uuids w' = [14, 15] \<and> w_now w' = 1000 \<and> w_ticks w' = [] \<and> w_faults w' = [] \<and> w_rand w' = [[2], [3], [4], [5], [6]] \<and>
     map rr_token_id (refresh_tokens (w_db w')) = [12] \<and> map rr_expires_at (refresh_tokens (w_db w')) = [1000 + refreshTTL] \<and>
     map oe_ID (outbox_events (w_db w')) = [13]"
    by (simp add: login_found_def sample_user_def ComparePassword_def sample_lib_def)
  with f show ?thesis by (simp add: Login_def)
qed

lemma login_success_sound_witness:
  "\<exists>access refresh client w'. Login sample_S acme_ctx ''a@b'' ''password12'' ''1.1.1.1'' sample_world =
       (Ok (access, refresh, client), w') \<and>
     (\<exists>user. user \<in> set (users sample_db) \<and> u_LockedAt user = None \<and> signs sample_S user access)"
proof -
  obtain access refresh client w' where run:
    "Login sample_S acme_ctx ''a@b'' ''password12'' ''1.1.1.1'' sample_world = (Ok (access, refresh, client), w')"
    using sample_login by (metis prod_cases3)
  from login_success_sound[OF run] run show ?thesis by fastforce
qed

section \<open>The fifth wrong password\<close>

text \<open>A client whose account counter stands at four: the limiter answers the next failure with 2 (notify).\<close>

definition fifth_failure :: "string option list \<Rightarrow> world" where
  "fifth_failure fs = sample_world\<lparr>w_redis := [''auth:login:account:a@b'' \<mapsto> ([''failures'' \<mapsto> 4], None)], w_faults := fs\<rparr>"

lemma fifth_failure_notifies:
  "\<exists>rd. limiter_RecordLoginFailure ''ip'' ''a@b'' suspiciousLoginNotifyAt (fifth_failure fs) =
     (Ok 2, (fifth_failure fs)\<lparr>w_redis := rd, w_redis_faults := []\<rparr>)"
proof -
  let ?w = "fifth_failure fs" and ?ks = "RedisKeyBuilder ''login'' ''ip'' ''a@b''"
  have t: "tick ?w = ?w" by (rule tick_quiet) (simp add: fifth_failure_def)
  have nf: "w_redis_faults ?w = []" by (simp add: fifth_failure_def)
  obtain v rd where r: "login_recordfailure (w_now ?w) ?ks (Unix (w_now ?w)) suspiciousLoginNotifyAt (w_redis ?w) = (v, rd)"
    by fastforce
  have nb: "\<not> list_ex (key_blocked (w_now ?w) (Unix (w_now ?w)) (w_redis ?w)) ?ks"
    by (simp add: fifth_failure_def RedisKeyBuilder_def Let_def key_blocked_def HGET_def live_def)
  have "\<exists>k \<in> set ?ks. failures_of (w_now ?w) (w_redis ?w) k + 1 = suspiciousLoginNotifyAt"
    by (simp add: fifth_failure_def RedisKeyBuilder_def Let_def failures_of_def HGET_def live_def suspiciousLoginNotifyAt_def)
  with login_recordfailure_spec(1)[OF builder_distinct r nb] have "v = 2" by simp
  with r show ?thesis
    by (intro exI[of _ rd])
      (simp add: limiter_RecordLoginFailure_def bindM_def attempt_def time_Now_eq t RunScript_quiet[of ?w] nf)
qed

text \<open>
  The event of a suspicious login that the fifth wrong password writes is never stored: the transaction it is
  written in is only rolled back. And when that insert fails, the function returns before it defers the
  rollback: the transaction is still open when \<^verbatim>\<open>Login\<close> returns.
\<close>

lemma wrong_password_stores_nothing:
  assumes "login_wrong_password user tenant em ip w = (r, w')"
  shows "w_db w' = w_db w"
  using keepsD[OF login_failures_committed(2) assms, of "w_db w"] by (simp add: committed_is_def)

lemma suspicious_event_never_stored:
  "\<exists>w'. login_wrong_password sample_user acme ''a@b'' ''ip'' (fifth_failure []) = (Err ErrInvalidCredentials, w') \<and>
     outbox_events (w_db w') = []"
proof -
  obtain rd where "limiter_RecordLoginFailure ''ip'' ''a@b'' suspiciousLoginNotifyAt (fifth_failure []) =
     (Ok 2, (fifth_failure [])\<lparr>w_redis := rd, w_redis_faults := []\<rparr>)" using fifth_failure_notifies by blast
  then show ?thesis
    by (simp add: login_wrong_password_def loginFailed_def bindM_def attempt_def BeginTx_eq next_ok_def fifth_failure_def
        susloginfailure_def uuid_NewV7_def time_Now_eq tick_quiet outbox_CreateTx_def ExecContext_Tx exec_tx_def insert_outbox_def
        new_event_simps StatusPending_def outbox_statuses_def deferM_def sample_db_def empty_db_def Rollback_def inc_login_failure_def)
qed

lemma login_leaves_transaction_open:
  "w_tx (snd (login_wrong_password sample_user acme ''a@b'' ''ip'' (fifth_failure [None, Some ''connection lost'']))) \<noteq> None"
proof -
  let ?w = "fifth_failure [None, Some ''connection lost'']"
  obtain rd where "limiter_RecordLoginFailure ''ip'' ''a@b'' suspiciousLoginNotifyAt ?w =
     (Ok 2, ?w\<lparr>w_redis := rd, w_redis_faults := []\<rparr>)" using fifth_failure_notifies by blast
  then show ?thesis
    by (simp add: login_wrong_password_def loginFailed_def bindM_def attempt_def BeginTx_eq next_ok_def fifth_failure_def
        susloginfailure_def uuid_NewV7_def time_Now_eq tick_quiet outbox_CreateTx_def ExecContext_Tx next_err_def pop_def)
qed

end
