(* ===== verification/Service_Accounts.thy ===== *)
theory Service_Accounts
  imports Service_Session
begin

text \<open>
  Accounts: sign-up, verification of the e-mail address, change and reset of the password, and
  the end of all sessions of a user.
\<close>

section \<open>Rows added by the account operations\<close>

definition add_user :: "User \<Rightarrow> db \<Rightarrow> db" where
  "add_user u d = d\<lparr>users := users d @ [u\<lparr>u_LockedAt := None\<rparr>]\<rparr>"

definition add_email :: "EmailVerificationToken \<Rightarrow> db \<Rightarrow> db" where
  "add_email e d = d\<lparr>email_tokens := email_tokens d @ [e\<lparr>ev_UsedAt := None\<rparr>]\<rparr>"

lemma add_simps [simp]:
  "refresh_tokens (add_user u d) = refresh_tokens d" "email_tokens (add_user u d) = email_tokens d"
  "outbox_events (add_user u d) = outbox_events d" "users (add_user u d) = users d @ [u\<lparr>u_LockedAt := None\<rparr>]"
  "users (add_email e d) = users d" "refresh_tokens (add_email e d) = refresh_tokens d"
  "outbox_events (add_email e d) = outbox_events d" "user_ids (add_email e d) = user_ids d"
  "outbox_events (add_refresh r d) = outbox_events d" "user_ids (add_refresh r d) = user_ids d"
  "email_tokens (add_refresh r d) = email_tokens d"
  by (simp_all add: add_user_def add_email_def add_refresh_def user_ids_def)

lemma users_insert_Inr:
  "users_insert u t d = Inr d' \<longleftrightarrow> u_ID u \<notin> user_ids d \<and>
     (\<forall>v \<in> set (users d). u_Tenant_ID v = u_Tenant_ID u \<longrightarrow> u_Email v \<noteq> u_Email u) \<and>
     (u_Username u = None \<or> u_Username u \<notin> u_Username ` set (users d)) \<and> d' = add_user u d"
proof -
  have "(u_Tenant_ID u, u_Email u) \<in> (\<lambda>v. (u_Tenant_ID v, u_Email v)) ` set (users d) \<longleftrightarrow>
      \<not> (\<forall>v \<in> set (users d). u_Tenant_ID v = u_Tenant_ID u \<longrightarrow> u_Email v \<noteq> u_Email u)"
    by (simp add: image_iff) metis
  then show ?thesis unfolding users_insert_def add_user_def by auto
qed

lemma users_CreateTx_Ok:
  "users_CreateTx Tx u w = (Ok x, w') \<longleftrightarrow>
     next_ok w \<and> (\<exists>ta d. w_tx w = Some (ta, d) \<and> u_ID u \<notin> user_ids d \<and>
       (\<forall>v \<in> set (users d). u_Tenant_ID v = u_Tenant_ID u \<longrightarrow> u_Email v \<noteq> u_Email u) \<and>
       (u_Username u = None \<or> u_Username u \<notin> u_Username ` set (users d)) \<and>
       w' = (pop w)\<lparr>w_tx := Some (ta, add_user u d)\<rparr>)"
  unfolding users_CreateTx_def ExecContext_Tx_Ok_iff users_insert_Inr by blast

lemma email_CreateTx_Ok:
  "email_CreateTx Tx e w = (Ok x, w') \<longleftrightarrow>
     next_ok w \<and> (\<exists>ta d. w_tx w = Some (ta, d) \<and> ev_ID e \<notin> ev_ID ` set (email_tokens d) \<and>
       ev_UserID e \<in> user_ids d \<and> w' = (pop w)\<lparr>w_tx := Some (ta, add_email e d)\<rparr>)"
  by (auto simp: email_CreateTx_def ExecContext_Tx_Ok_iff insert_email_def add_email_def split: if_splits)

section \<open>Sign-up\<close>

lemma HashPassword_Ok:
  "HashPassword L p w = (Ok h, w') \<longleftrightarrow>
     (\<exists>r rs. w_rand w = r # rs \<and> w' = w\<lparr>w_rand := rs\<rparr> \<and>
        bcrypt_Generate L (take 16 (r @ replicate 16 0)) (bytes_of p) bcryptCost = Inr h)"
  by (auto simp: HashPassword_def bindM_Ok_iff rand_Read_Ok_iff ret_sum_Ok_iff)

definition hash_of :: "lib \<Rightarrow> string \<Rightarrow> string \<Rightarrow> bool" where
  "hash_of L p h \<longleftrightarrow> (\<exists>salt. bcrypt_Generate L salt (bytes_of p) 12 = Inr h)"

lemma HashPassword_hash_of: "HashPassword L p w = (Ok h, w') \<Longrightarrow> hash_of L p h"
  by (auto simp: HashPassword_Ok hash_of_def bcryptCost_def)

lemma signUpTransaction_Ok:
  assumes "signUpTransaction u e t o1 o2 w = (Ok x, w')"
  shows "w_db w' = add_event o2 (add_event o1 (add_refresh (refresh_row_of (Some (rt_TenantID t)) t)
      (add_email e (add_user u (w_db w))))) \<and> w_tx w' = None \<and> w_uuids w' = w_uuids w \<and>
    u_ID u \<notin> user_ids (w_db w) \<and> rt_ID t \<notin> rr_token_id ` set (refresh_tokens (w_db w)) \<and>
    (\<forall>v \<in> set (users (w_db w)). u_Tenant_ID v = u_Tenant_ID u \<longrightarrow> u_Email v \<noteq> u_Email u)"
  using assms
  by (auto simp: signUpTransaction_def withTx_Ok_iff bindM_Ok_iff mapErr_Ok_iff users_CreateTx_Ok
      email_CreateTx_Ok CreateTx_Ok outbox_CreateTx_Ok Commit_Ok_iff Rollback_def)

lemma signUpTransaction_atomic: "atomic (signUpTransaction u e t o1 o2)"
  unfolding signUpTransaction_def by (intro atomic_intros atomic_bindM keeps_intros)

lemma keeps_signUpDataBuilder [keeps_intros]:
  assumes "keeps I time_Now" "keeps I uuid_NewV7" "keeps I (rand_Read 32)" "keeps I (rand_Read 16)"
  shows "keeps I (signUpDataBuilder S email username password clientID tenantN tenantID)"
  unfolding signUpDataBuilder_def by (intro keeps_intros assms)

text \<open>What sign-up stores, as one change of the tables.\<close>

definition signup_rows ::
  "Service \<Rightarrow> string \<Rightarrow> string \<Rightarrow> uuid \<Rightarrow> User \<Rightarrow> EmailVerificationToken \<Rightarrow> RefreshToken \<Rightarrow> OutboxEvent \<Rightarrow> OutboxEvent \<Rightarrow> bool"
where
  "signup_rows S email password tenant u e t o1 o2 \<longleftrightarrow>
     u_Email u = email \<and> u_Tenant_ID u = tenant \<and> u_Username u = None \<and> \<not> u_IsActive u \<and>
     \<not> u_EmailVerified u \<and> (\<exists>h. u_PasswordHash u = Some h \<and> hash_of (sv_lib S) password h) \<and>
     ev_UserID e = u_ID u \<and> ev_UsedAt e = None \<and> ev_ExpiresAt e = ev_CreatedAt e + 24 * Hour \<and>
     rt_UserID t = u_ID u \<and> rt_TenantID t = tenant \<and> rt_ParentToken t = uuid_Nil \<and> rt_RevokedAt t = None \<and>
     oe_EventType o1 = UserCreated \<and> oe_Status o1 = StatusPending \<and>
     oe_EventType o2 = EmailVerificationRequested \<and> oe_Status o2 = StatusPending"

lemma signUpDataBuilder_Ok:
  assumes "signUpDataBuilder S email username password clientID tenantN tenantID w = (Ok sud, w')"
  shows "signup_rows S email password tenantID (sd_User sud) (sd_EmailVerificationToken sud) (sd_RefreshToken sud)
      (sd_UserCreatedEvent sud) (sd_EmailVerificationEvent sud) \<and>
    rt_TokenHash (sd_RefreshToken sud) = HashToken (sd_PlainRefreshToken sud) (sv_tokenSecret S) \<and>
    w_db w' = w_db w \<and> w_tx w' = w_tx w \<and>
    (\<exists>a b. w_uuids w = [u_ID (sd_User sud), a, rt_FamilyID (sd_RefreshToken sud), rt_ID (sd_RefreshToken sud),
        oe_ID (sd_UserCreatedEvent sud), b] @ w_uuids w')"
  using assms
  by (auto simp: signUpDataBuilder_def bindM_Ok_iff Let_def time_Now_eq uuid_NewV7_Ok_iff HashPassword_def
      rand_Read_Ok_iff ret_sum_Ok_iff GenerateRefreshToken_Ok_iff GenerateEmailVerificationToken_Ok_iff
      signup_rows_def verificationTTL_def hash_of_def bcryptCost_def split: prod.splits)

definition signed_up ::
  "Service \<Rightarrow> string \<Rightarrow> string \<Rightarrow> uuid \<Rightarrow> db \<Rightarrow> db \<Rightarrow> User \<Rightarrow> RefreshToken \<Rightarrow> bool"
where
  "signed_up S email password tenant d d' u t \<longleftrightarrow>
     (\<exists>e o1 o2. signup_rows S email password tenant u e t o1 o2 \<and>
        (\<forall>v \<in> set (users d). u_Tenant_ID v = tenant \<longrightarrow> u_Email v \<noteq> email) \<and>
        d' = add_event o2 (add_event o1 (add_refresh (refresh_row_of (Some tenant) t)
          (add_email e (add_user u d)))))"

lemma signupResponse_Ok:
  assumes "signupResponseBuilder S u info plain w = (Ok resp, w')"
  shows "sr_RefreshToken resp = plain \<and> signs S u (sr_AccessToken resp)"
  using assms
  by (auto simp: signupResponseBuilder_def bindM_Ok_iff dest!: GenerateAccessToken_Ok)

lemma signup_rest:
  assumes "bindM (modify inc_signups) (\<lambda>_. signupResponseBuilder S u info plain) w = (r, w')"
  shows "w_db w' = w_db w \<and> w_uuids w' = w_uuids w \<and> (\<forall>resp. r = Ok resp \<longrightarrow> sr_RefreshToken resp = plain \<and> signs S u (sr_AccessToken resp))"
proof -
  have k: "keeps (committed_is (w_db w)) (bindM (modify inc_signups) (\<lambda>_. signupResponseBuilder S u info plain))"
    unfolding signupResponseBuilder_def by (intro keeps_intros)
  have "w_uuids w' = w_uuids w"
    using assms by (auto simp: signupResponseBuilder_def GenerateAccessToken_def bindM_def attempt_def time_Now_eq
        ret_sum_def inc_signups_def split: sum.splits)
  with keepsD[OF k assms] assms show ?thesis
    by (auto simp: committed_is_def dest: signupResponse_Ok)
qed

lemma SignupService_cases:
  assumes "SignupService S ctx email username password tenant w = (r, w')"
  obtains (Nothing) "\<not> is_Ok r" "w_db w' = w_db w"
    | (Added) u t pre where "signed_up S email password tenant (w_db w) (w_db w') u t"
        "w_uuids w = pre @ w_uuids w'" "rt_FamilyID t \<in> set pre"
        "rt_ID t \<notin> rr_token_id ` set (refresh_tokens (w_db w))"
        "\<forall>resp. r = Ok resp \<longrightarrow> rt_TokenHash t = HashToken (sr_RefreshToken resp) (sv_tokenSecret S) \<and>
           signs S u (sr_AccessToken resp)"
proof (rule bindM_stage[OF assms[unfolded SignupService_def]])
  show "keeps (committed_is d) uuid_NewV7" for d by (intro keeps_intros)
next
  fix cId w1
  assume id1: "uuid_NewV7 w = (Ok cId, w1)" and db1: "w_db w1 = w_db w"
    and run: "(let clientID = signClientID (sv_lib S) cId (bytes_of (sv_tokenSecret S)) in
      case TenantFromContext ctx of None \<Rightarrow> throw (ErrOther ''couldnt get tenant'')
      | Some tenant_model \<Rightarrow>
          bindM (signUpDataBuilder S email username password clientID (t_TenantName tenant_model) tenant)
            (\<lambda>sud. bindM (signUpTransaction (sd_User sud) (sd_EmailVerificationToken sud) (sd_RefreshToken sud)
              (sd_UserCreatedEvent sud) (sd_EmailVerificationEvent sud)) (\<lambda>_.
              bindM (modify inc_signups) (\<lambda>_.
              signupResponseBuilder S (sd_User sud) (sd_UserInfoDTO sud) (sd_PlainRefreshToken sud))))) w1 = (r, w')"
  show thesis
  proof (cases "TenantFromContext ctx")
    case None
    with run db1 Nothing show thesis by (auto simp: Let_def)
  next
    case (Some tm)
    let ?c = "signClientID (sv_lib S) cId (bytes_of (sv_tokenSecret S))"
    from run[unfolded Some Let_def option.case] show thesis
    proof (rule bindM_stage)
      show "keeps (committed_is d) (signUpDataBuilder S email username password ?c (t_TenantName tm) tenant)" for d
        by (intro keeps_intros)
    next
      assume "\<not> is_Ok r" "w_db w' = w_db w1"
      with db1 Nothing show thesis by simp
    next
      fix sud w2
      assume b: "signUpDataBuilder S email username password ?c (t_TenantName tm) tenant w1 = (Ok sud, w2)"
        and db2: "w_db w2 = w_db w1"
        and run2: "bindM (signUpTransaction (sd_User sud) (sd_EmailVerificationToken sud) (sd_RefreshToken sud)
              (sd_UserCreatedEvent sud) (sd_EmailVerificationEvent sud)) (\<lambda>_.
              bindM (modify inc_signups) (\<lambda>_.
              signupResponseBuilder S (sd_User sud) (sd_UserInfoDTO sud) (sd_PlainRefreshToken sud))) w2 = (r, w')"
      from run2 signUpTransaction_atomic show thesis
      proof (rule bindM_atomic_stage)
        assume "\<not> is_Ok r" "w_db w' = w_db w2"
        with db1 db2 Nothing show thesis by simp
      next
        fix a w3
        assume tx: "signUpTransaction (sd_User sud) (sd_EmailVerificationToken sud) (sd_RefreshToken sud)
            (sd_UserCreatedEvent sud) (sd_EmailVerificationEvent sud) w2 = (Ok a, w3)"
          and rest: "bindM (modify inc_signups) (\<lambda>_. signupResponseBuilder S (sd_User sud)
            (sd_UserInfoDTO sud) (sd_PlainRefreshToken sud)) w3 = (r, w')"
        from signUpDataBuilder_Ok[OF b] signUpTransaction_Ok[OF tx] signup_rest[OF rest] id1 obtain a b where
          "w_uuids w = [cId, u_ID (sd_User sud), a, rt_FamilyID (sd_RefreshToken sud), rt_ID (sd_RefreshToken sud),
            oe_ID (sd_UserCreatedEvent sud), b] @ w_uuids w'" by (auto simp: uuid_NewV7_Ok_iff)
        moreover have "signed_up S email password tenant (w_db w) (w_db w') (sd_User sud) (sd_RefreshToken sud)"
          using signUpDataBuilder_Ok[OF b] signUpTransaction_Ok[OF tx] signup_rest[OF rest] db1 db2
          by (auto simp: signed_up_def signup_rows_def)
        ultimately show thesis
          using signUpDataBuilder_Ok[OF b] signUpTransaction_Ok[OF tx] signup_rest[OF rest] db1 db2
          by (intro Added[of "sd_User sud" "sd_RefreshToken sud"]) auto
      qed
    qed
  qed
qed (use Nothing in auto)

text \<open>
  C15: Sign-up is all or nothing. Either no table changes and an error is returned, or the account
  (inactive, unverified, with a hashed password, and the first of its address in this tenant), its
  verification token, its first refresh token and the two pending events are all stored; and when a
  response is returned, its refresh token is the stored one and its access token is signed for the user.
\<close>

theorem signup_all_or_nothing:
  assumes "SignupService S ctx email username password tenant w = (r, w')"
  shows "(w_db w' = w_db w \<and> \<not> is_Ok r) \<or>
    (\<exists>u e t o1 o2. signup_rows S email password tenant u e t o1 o2 \<and>
       (\<forall>v \<in> set (users (w_db w)). u_Tenant_ID v = tenant \<longrightarrow> u_Email v \<noteq> email) \<and>
       w_db w' = add_event o2 (add_event o1 (add_refresh (refresh_row_of (Some tenant) t)
         (add_email e (add_user u (w_db w))))) \<and>
       (\<forall>resp. r = Ok resp \<longrightarrow> rt_TokenHash t = HashToken (sr_RefreshToken resp) (sv_tokenSecret S) \<and>
          signs S u (sr_AccessToken resp)))"
  using assms
proof (cases rule: SignupService_cases)
  case (Added u t pre)
  then show ?thesis unfolding signed_up_def by blast
qed simp

lemma sample_signup:
  "\<exists>resp w'. SignupService sample_S acme_ctx ''n@b'' ''nn'' ''password12'' 3 big_world = (Ok resp, w') \<and>
     map rr_token_id (refresh_tokens (w_db w')) = [14] \<and> map oe_ID (outbox_events (w_db w')) = [15, 16]"
  by (simp add: SignupService_def signUpDataBuilder_def signUpTransaction_def signupResponseBuilder_def
      withTx_eq attempt_def next_ok_def bindM_def mapErr_def time_Now_eq tick_quiet ExecContext_Tx exec_tx_def
      HashPassword_def ret_sum_def GenerateAccessToken_def GenerateRefreshToken_def GenerateEmailVerificationToken_def
      rand_Read_def uuid_NewV7_def users_CreateTx_def users_insert_def email_CreateTx_def insert_email_def
      refresh_CreateTx_def outbox_CreateTx_def insert_outbox_def outbox_statuses_def StatusPending_def
      insert_refresh_def user_ids_def sample_defs Commit_eq Let_def Rollback_def refresh_row_of_def inc_signups_def)

lemma signup_all_or_nothing_witness:
  "\<exists>resp w' u. SignupService sample_S acme_ctx ''n@b'' ''nn'' ''password12'' 3 big_world = (Ok resp, w') \<and>
     signs sample_S u (sr_AccessToken resp) \<and> u_Email u = ''n@b'' \<and> \<not> u_EmailVerified u"
proof -
  obtain resp w' where run: "SignupService sample_S acme_ctx ''n@b'' ''nn'' ''password12'' 3 big_world = (Ok resp, w')"
    using sample_signup by blast
  from signup_all_or_nothing[OF run] run show ?thesis by (auto simp: signup_rows_def)
qed

text \<open>
  An address signs up once per tenant: after a sign-up that stored its rows, another sign-up with
  the same address in the same tenant, with whatever name and password, fails and changes nothing.
\<close>

lemma signup_email_unique:
  assumes "SignupService S ctx email username password tenant w = (Ok resp, w1)" "w_db w2 = w_db w1"
    and "SignupService S ctx' email username' password' tenant w2 = (r2, w3)"
  shows "\<not> is_Ok r2 \<and> w_db w3 = w_db w2"
  using assms(3)
proof (cases rule: SignupService_cases)
  case Nothing
  then show ?thesis by simp
next
  case (Added u t pre)
  from assms(1) obtain u1 where "u1 \<in> set (users (w_db w1))" "u_Tenant_ID u1 = tenant" "u_Email u1 = email"
  proof (cases rule: SignupService_cases)
    case (Added u t pre)
    then show thesis by (intro that[of "u\<lparr>u_LockedAt := None\<rparr>"]) (auto simp: signed_up_def signup_rows_def)
  qed simp
  with Added(1) assms(2) show ?thesis by (auto simp: signed_up_def)
qed

lemma signup_email_unique_witness:
  "\<exists>w1. is_Ok (fst (SignupService sample_S acme_ctx ''n@b'' ''nn'' ''password12'' 3 big_world)) \<and>
     w1 = snd (SignupService sample_S acme_ctx ''n@b'' ''nn'' ''password12'' 3 big_world) \<and>
     \<not> is_Ok (fst (SignupService sample_S acme_ctx ''n@b'' ''other'' ''password34'' 3 w1))"
proof -
  obtain resp w1 where run: "SignupService sample_S acme_ctx ''n@b'' ''nn'' ''password12'' 3 big_world = (Ok resp, w1)"
    using sample_signup by blast
  obtain r2 w3 where run2: "SignupService sample_S acme_ctx ''n@b'' ''other'' ''password34'' 3 w1 = (r2, w3)" by fastforce
  from signup_email_unique[OF run refl run2] run run2 show ?thesis by simp
qed

section \<open>Verification of the address\<close>

definition mark_email :: "uuid \<Rightarrow> time \<Rightarrow> db \<Rightarrow> db" where
  "mark_email i t d = d\<lparr>email_tokens :=
     update_where (\<lambda>e. ev_ID e = i) (\<lambda>e. e\<lparr>ev_UsedAt := Some t\<rparr>) (email_tokens d)\<rparr>"

definition activate :: "uuid \<Rightarrow> time \<Rightarrow> db \<Rightarrow> db" where
  "activate i t d = d\<lparr>users := update_where (\<lambda>u. u_ID u = i)
     (\<lambda>u. u\<lparr>u_IsActive := True, u_EmailVerified := True, u_UpdatedAt := t\<rparr>) (users d)\<rparr>"

lemma mark_activate_simps [simp]:
  "users (mark_email i t d) = users d"
  "email_tokens (mark_email i t d) = update_where (\<lambda>e. ev_ID e = i) (\<lambda>e. e\<lparr>ev_UsedAt := Some t\<rparr>) (email_tokens d)"
  "email_tokens (activate i t d) = email_tokens d"
  "users (activate i t d) = update_where (\<lambda>u. u_ID u = i)
     (\<lambda>u. u\<lparr>u_IsActive := True, u_EmailVerified := True, u_UpdatedAt := t\<rparr>) (users d)"
  by (simp_all add: mark_email_def activate_def)

definition fresh_email :: "string \<Rightarrow> time \<Rightarrow> EmailVerificationToken \<Rightarrow> bool" where
  "fresh_email h now e \<longleftrightarrow> ev_TokenHash e = h \<and> ev_UsedAt e = None \<and> ev_ExpiresAt e > now"

lemma FindValidByHash_run:
  "email_FindValidByHash h w =
     (if next_ok w then (case List.find (fresh_email h (w_now w)) (email_tokens (w_db w)) of
        None \<Rightarrow> Err (ErrOther ''invalid token'') | Some e \<Rightarrow> Ok e, pop w)
      else (Err (next_err w), pop w))"
proof -
  have "(\<lambda>e. ev_TokenHash e = h \<and> ev_UsedAt e = None \<and> now < ev_ExpiresAt e) = fresh_email h now" for now
    by (simp add: fresh_email_def fun_eq_iff)
  then show ?thesis
    by (auto simp: email_FindValidByHash_def mapErr_def attempt_def QueryRow_Conn split: option.splits)
qed

lemma MarkUsed_Ok: "email_MarkUsed i t w = (Ok x, w') \<Longrightarrow> w_db w' = mark_email i t (w_db w)"
  by (auto simp: email_MarkUsed_def ExecContext_Conn_Ok_iff mark_email_def)

lemma ActivateUser_Ok: "users_ActivateUser i w = (Ok x, w') \<Longrightarrow> \<exists>t. w_db w' = activate i t (w_db w)"
  by (auto simp: users_ActivateUser_def ExecContext_Conn_Ok_iff activate_def upd_user_def)

lemma VerifyEmail_Ok:
  assumes "VerifyEmail S raw w = (Ok x, w')"
  shows "\<exists>e t1 t2. List.find (fresh_email (HashToken raw (sv_tokenSecret S)) (w_now w)) (email_tokens (w_db w)) = Some e \<and>
    w_db w' = activate (ev_UserID e) t2 (mark_email (ev_ID e) t1 (w_db w))"
  using assms
  by (auto simp: VerifyEmail_def attempt_Ok_iff FindValidByHash_run time_Now_eq bindM_Ok_iff
      split: if_splits option.splits dest!: MarkUsed_Ok ActivateUser_Ok) blast

lemma VerifyEmail_unknown:
  assumes "\<And>t. List.find (fresh_email (HashToken raw (sv_tokenSecret S)) t) (email_tokens (w_db w)) = None"
  shows "VerifyEmail S raw w = (Err ErrInvalidVerificationToken, pop w)"
  using assms by (auto simp: VerifyEmail_def attempt_def FindValidByHash_run)

text \<open>
  C19: A verification token works once. A verification that succeeds was made with a stored token that
  was unused and not expired; it marks the token used, activates and verifies exactly the token's
  user, and changes nothing else of the other users; presenting the same text again is refused and
  changes nothing.
\<close>

theorem verify_email_once:
  assumes "VerifyEmail S raw w = (Ok (), w1)" "distinct (map ev_TokenHash (email_tokens (w_db w)))"
    and "w_db w2 = w_db w1" "VerifyEmail S raw w2 = (r2, w3)"
  shows "(\<exists>e. e \<in> set (email_tokens (w_db w)) \<and> ev_TokenHash e = HashToken raw (sv_tokenSecret S) \<and>
      ev_UsedAt e = None \<and> w_now w < ev_ExpiresAt e \<and>
      (\<forall>u \<in> set (users (w_db w1)). u_ID u = ev_UserID e \<longrightarrow> u_IsActive u \<and> u_EmailVerified u) \<and>
      filter (\<lambda>u. u_ID u \<noteq> ev_UserID e) (users (w_db w1)) = filter (\<lambda>u. u_ID u \<noteq> ev_UserID e) (users (w_db w))) \<and>
    r2 = Err ErrInvalidVerificationToken \<and> w_db w3 = w_db w2"
proof -
  let ?h = "HashToken raw (sv_tokenSecret S)"
  from VerifyEmail_Ok[OF assms(1)] obtain e t1 t2 where
    f: "List.find (fresh_email ?h (w_now w)) (email_tokens (w_db w)) = Some e"
    and db: "w_db w1 = activate (ev_UserID e) t2 (mark_email (ev_ID e) t1 (w_db w))" by blast
  from find_Some_in[OF f] have e: "e \<in> set (email_tokens (w_db w))" "ev_TokenHash e = ?h" "ev_UsedAt e = None"
    "w_now w < ev_ExpiresAt e" by (auto simp: fresh_email_def)
  have used: "\<not> fresh_email ?h t x" if x: "x \<in> set (email_tokens (w_db w1))" for x t
  proof -
    from x obtain y where y: "y \<in> set (email_tokens (w_db w))"
      "x = (if ev_ID y = ev_ID e then y\<lparr>ev_UsedAt := Some t1\<rparr> else y)"
      unfolding db by (auto elim: update_whereE)
    show ?thesis
    proof (cases "ev_TokenHash y = ?h")
      case True
      with distinct_key_inj[OF assms(2) y(1) e(1)] e(2) have "y = e" by simp
      with y(2) show ?thesis by (simp add: fresh_email_def)
    next
      case False
      with y(2) show ?thesis by (simp add: fresh_email_def)
    qed
  qed
  have "VerifyEmail S raw w2 = (Err ErrInvalidVerificationToken, pop w2)"
    by (rule VerifyEmail_unknown) (use used in \<open>auto simp: find_None_iff2 assms(3)\<close>)
  moreover have "u_IsActive u \<and> u_EmailVerified u"
    if u: "u \<in> set (users (w_db w1))" "u_ID u = ev_UserID e" for u
    using u unfolding db by (auto elim!: update_where_hit)
  moreover have "filter (\<lambda>u. u_ID u \<noteq> ev_UserID e) (users (w_db w1)) =
      filter (\<lambda>u. u_ID u \<noteq> ev_UserID e) (users (w_db w))"
    unfolding db by (auto simp: update_where_def filter_map comp_def intro!: map_idI cong: filter_cong)
  ultimately show ?thesis using e assms(4) by auto
qed

text \<open>An account waiting for verification.\<close>

definition inactive_user :: User where
  "inactive_user = sample_user\<lparr>u_IsActive := False, u_EmailVerified := False\<rparr>"

definition verify_token :: EmailVerificationToken where
  "verify_token = \<lparr>ev_ID = 30, ev_UserID = 7, ev_TokenHash = HashToken ''tok'' ''s'', ev_ExpiresAt = 5000,
     ev_UsedAt = None, ev_CreatedAt = 0\<rparr>"

definition verify_world :: world where
  "verify_world = big_world\<lparr>w_db := sample_db\<lparr>users := [inactive_user], email_tokens := [verify_token]\<rparr>\<rparr>"

lemma verify_world_simps [simp]:
  "w_db verify_world = sample_db\<lparr>users := [inactive_user], email_tokens := [verify_token]\<rparr>"
  "w_tx verify_world = None" "w_now verify_world = 1000" "w_ticks verify_world = []" "w_faults verify_world = []"
  "w_mail_faults verify_world = []" "w_mail verify_world = []" "ev_TokenHash verify_token = HashToken ''tok'' ''s''"
  "ev_UsedAt verify_token = None" "ev_ExpiresAt verify_token = 5000" "ev_ID verify_token = 30"
  "ev_UserID verify_token = 7" "u_ID inactive_user = 7" "u_IsActive inactive_user = False"
  by (simp_all add: verify_world_def verify_token_def inactive_user_def sample_user_def)

lemma verify_email_once_witness:
  "\<exists>w1. VerifyEmail sample_S ''tok'' verify_world = (Ok (), w1) \<and>
     (\<forall>u \<in> set (users (w_db w1)). u_EmailVerified u) \<and>
     fst (VerifyEmail sample_S ''tok'' w1) = Err ErrInvalidVerificationToken"
proof -
  have "fst (VerifyEmail sample_S ''tok'' verify_world) = Ok ()"
    by (simp add: VerifyEmail_def attempt_def FindValidByHash_run fresh_email_def next_ok_def time_Now_eq tick_quiet bindM_def
        email_MarkUsed_def users_ActivateUser_def ExecContext_Conn exec_conn_def upd_user_def)
  then obtain w1 where run: "VerifyEmail sample_S ''tok'' verify_world = (Ok (), w1)" by (metis prod.collapse)
  obtain r2 w3 where run2: "VerifyEmail sample_S ''tok'' w1 = (r2, w3)" by fastforce
  have "distinct (map ev_TokenHash (email_tokens (w_db verify_world)))" by simp
  from verify_email_once[OF run this refl run2] have
    "\<forall>u \<in> set (users (w_db w1)). u_ID u = 7 \<longrightarrow> u_IsActive u \<and> u_EmailVerified u"
    "filter (\<lambda>u. u_ID u \<noteq> 7) (users (w_db w1)) = []" "r2 = Err ErrInvalidVerificationToken" by auto
  with run run2 show ?thesis by (auto simp: filter_empty_conv)
qed

text \<open>
  Verification is not atomic: the token is marked used and the user activated by two separate
  statements, so when only the second fails the token is spent, the user stays inactive, and the same
  link can never be used again.
\<close>

lemma verify_email_may_strand:
  "\<exists>w w1. fst (VerifyEmail sample_S ''tok'' w) \<noteq> Ok () \<and> w1 = snd (VerifyEmail sample_S ''tok'' w) \<and>
     db_wf (w_db w) \<and> users (w_db w1) = [inactive_user] \<and>
     fst (VerifyEmail sample_S ''tok'' verify_world) = Ok () \<and> w_db w = w_db verify_world \<and>
     fst (VerifyEmail sample_S ''tok'' (verify_world\<lparr>w_db := w_db w1\<rparr>)) = Err ErrInvalidVerificationToken"
proof -
  let ?w = "verify_world\<lparr>w_faults := [None, None, Some ''connection lost'']\<rparr>"
  note run = VerifyEmail_def attempt_def FindValidByHash_run next_ok_def time_Now_eq tick_quiet bindM_def
    email_MarkUsed_def users_ActivateUser_def ExecContext_Conn exec_conn_def upd_user_def
  have "fst (VerifyEmail sample_S ''tok'' verify_world) = Ok ()" by (simp add: run fresh_email_def)
  moreover have "fst (VerifyEmail sample_S ''tok'' ?w) \<noteq> Ok () \<and>
      w_db (snd (VerifyEmail sample_S ''tok'' ?w)) =
        sample_db\<lparr>users := [inactive_user], email_tokens := [verify_token\<lparr>ev_UsedAt := Some 1000\<rparr>]\<rparr>"
    by (simp add: run fresh_email_def)
  moreover have "db_wf (w_db ?w)"
    by (simp add: db_wf_def user_ids_def sample_db_def empty_db_def sample_tenant_def tenant_statuses_def)
  ultimately show ?thesis
    by (intro exI[of _ ?w] exI[of _ "snd (VerifyEmail sample_S ''tok'' ?w)"])
      (simp add: VerifyEmail_unknown fresh_email_def)
qed

definition resent :: "uuid \<Rightarrow> EmailVerificationToken \<Rightarrow> db \<Rightarrow> db" where
  "resent i e d = d\<lparr>email_tokens := filter (\<lambda>x. ev_UserID x \<noteq> i) (email_tokens d) @ [e]\<rparr>"

lemma resent_simps [simp]:
  "email_tokens (resent i e d) = filter (\<lambda>x. ev_UserID x \<noteq> i) (email_tokens d) @ [e]"
  "users (resent i e d) = users d" "user_ids (resent i e d) = user_ids d"
  by (simp_all add: resent_def user_ids_def)

lemma ResendVerification_quiet:
  assumes run: "ResendVerification S ctx (u_Email u) w = (Ok x, w1)" and q: "w_faults w = []"
    and t: "TenantFromContext ctx = Some tenant" "u_Tenant_ID u = t_ID tenant"
    and u: "db_wf (w_db w)" "u \<in> set (users (w_db w))" "\<not> u_IsActive u"
  shows "\<exists>tok i c. w_mail w1 = w_mail w @ [(u_Email u, tok)] \<and>
    w_db w1 = resent (u_ID u) \<lparr>ev_ID = i, ev_UserID = u_ID u, ev_TokenHash = HashToken tok (sv_tokenSecret S),
      ev_ExpiresAt = w_now w + 24 * Hour, ev_UsedAt = None, ev_CreatedAt = c\<rparr> (w_db w)"
proof -
  have nok: "next_ok w" using q by (simp add: next_ok_def)
  note f = users_FindByEmail_unique[OF u(1,2) nok, unfolded quiet_pop[OF q]]
  from run q t u(3) show ?thesis
    by (simp add: ResendVerification_def f[unfolded t(2)]) (auto simp: bindM_Ok_iff attempt_Ok_iff email_DeleteByUserID_def ExecContext_Conn exec_conn_def next_ok_def
        quiet_pop uuid_NewString_def uuid_NewV7_Ok_iff email_Create_def insert_email_def time_Now_eq
        SendVerificationEmail_def resent_def split: if_splits list.splits option.splits;
        intro exI; rule refl)
qed

lemma VerifyEmail_quiet:
  assumes "List.find (fresh_email (HashToken raw (sv_tokenSecret S)) (w_now w)) (email_tokens (w_db w)) = Some e"
    and "w_faults w = []"
  shows "fst (VerifyEmail S raw w) = Ok ()"
proof -
  from find_Some_in[OF assms(1)] have "ev_UsedAt e = None" "\<not> ev_ExpiresAt e < w_now w"
    by (auto simp: fresh_email_def)
  with assms show ?thesis
    by (simp add: VerifyEmail_def attempt_def FindValidByHash_run next_ok_def time_Now_eq bindM_def
        email_MarkUsed_def users_ActivateUser_def ExecContext_Conn exec_conn_def upd_user_def)
qed

text \<open>
  C20: Resending works: for an account that is not active, and with no failure of the database, a
  resend that returns nil has mailed a token to the account's address, the account's only
  verification token is now the one whose hash belongs to the mailed text, and presenting that text to
  \<^verbatim>\<open>VerifyEmail\<close> within twenty-four hours succeeds, and then the account is active and its address
  verified. (Whether the mailed link leads there is another matter: see \<open>verification_link_not_routed\<close>.)
\<close>

theorem resend_then_verify:
  assumes "ResendVerification S ctx (u_Email u) w = (Ok (), w1)" "w_faults w = []"
    and "TenantFromContext ctx = Some tenant" "u_Tenant_ID u = t_ID tenant"
    and "db_wf (w_db w)" "u \<in> set (users (w_db w))" "\<not> u_IsActive u"
  shows "\<exists>tok e. w_mail w1 = w_mail w @ [(u_Email u, tok)] \<and>
    filter (\<lambda>x. ev_UserID x = u_ID u) (email_tokens (w_db w1)) = [e] \<and>
    ev_TokenHash e = HashToken tok (sv_tokenSecret S) \<and> ev_ExpiresAt e = w_now w + 24 * Hour \<and>
    ((\<forall>x \<in> set (email_tokens (w_db w)). ev_UserID x \<noteq> u_ID u \<longrightarrow> ev_TokenHash x \<noteq> ev_TokenHash e) \<longrightarrow>
     (\<forall>w2. w_db w2 = w_db w1 \<and> w_faults w2 = [] \<and> w_now w2 < ev_ExpiresAt e \<longrightarrow>
        (\<exists>w3. VerifyEmail S tok w2 = (Ok (), w3) \<and>
           (\<exists>u' \<in> set (users (w_db w3)). u_ID u' = u_ID u \<and> u_EmailVerified u' \<and> u_IsActive u'))))"
proof -
  from ResendVerification_quiet[OF assms] obtain tok i c where mail: "w_mail w1 = w_mail w @ [(u_Email u, tok)]"
    and db: "w_db w1 = resent (u_ID u) \<lparr>ev_ID = i, ev_UserID = u_ID u, ev_TokenHash = HashToken tok (sv_tokenSecret S),
      ev_ExpiresAt = w_now w + 24 * Hour, ev_UsedAt = None, ev_CreatedAt = c\<rparr> (w_db w)" by blast
  let ?e = "\<lparr>ev_ID = i, ev_UserID = u_ID u, ev_TokenHash = HashToken tok (sv_tokenSecret S),
      ev_ExpiresAt = w_now w + 24 * Hour, ev_UsedAt = None, ev_CreatedAt = c\<rparr>"
  have "\<exists>w3. VerifyEmail S tok w2 = (Ok (), w3) \<and> (\<exists>u' \<in> set (users (w_db w3)). u_ID u' = u_ID u \<and> u_EmailVerified u' \<and> u_IsActive u')"
    if other: "\<forall>x \<in> set (email_tokens (w_db w)). ev_UserID x \<noteq> u_ID u \<longrightarrow> ev_TokenHash x \<noteq> ev_TokenHash ?e"
      and w2: "w_db w2 = w_db w1" "w_faults w2 = []" "w_now w2 < ev_ExpiresAt ?e" for w2
  proof -
    have "List.find (fresh_email (HashToken tok (sv_tokenSecret S)) t)
        (filter (\<lambda>x. ev_UserID x \<noteq> u_ID u) (email_tokens (w_db w))) = None" for t
      using other by (auto simp: find_None_iff2 fresh_email_def)
    then have found: "List.find (fresh_email (HashToken tok (sv_tokenSecret S)) (w_now w2)) (email_tokens (w_db w2)) = Some ?e"
      using w2(1,3) by (simp add: db find_append fresh_email_def)
    from VerifyEmail_quiet[OF this w2(2)] obtain w3 where run: "VerifyEmail S tok w2 = (Ok (), w3)" by (metis prod.collapse)
    from VerifyEmail_Ok[OF run] found obtain t1 t2 where "w_db w3 = activate (u_ID u) t2 (mark_email i t1 (w_db w2))" by auto
    moreover have "u \<in> set (users (w_db w2))" using assms(6) w2(1) by (simp add: db resent_def)
    ultimately have "u\<lparr>u_IsActive := True, u_EmailVerified := True, u_UpdatedAt := t2\<rparr> \<in> set (users (w_db w3))"
      by (auto simp: activate_def in_update_where_iff)
    then have "\<exists>u' \<in> set (users (w_db w3)). u_ID u' = u_ID u \<and> u_EmailVerified u' \<and> u_IsActive u'" by (rule rev_bexI) simp
    with run show ?thesis by blast
  qed
  with mail show ?thesis
    by (intro exI[of _ tok] exI[of _ ?e]) (auto simp: db)
qed

lemma resend_then_verify_witness:
  "\<exists>w1 tok. ResendVerification sample_S acme_ctx ''a@b'' verify_world = (Ok (), w1) \<and>
     w_mail w1 = [(''a@b'', tok)] \<and> (\<exists>w3. VerifyEmail sample_S tok (verify_world\<lparr>w_db := w_db w1\<rparr>) = (Ok (), w3) \<and>
     (\<exists>u' \<in> set (users (w_db w3)). u_ID u' = u_ID inactive_user \<and> u_EmailVerified u' \<and> u_IsActive u'))"
proof -
  have u: "u_Email inactive_user = ''a@b''" "u_Tenant_ID inactive_user = t_ID acme"
    by (simp_all add: inactive_user_def sample_user_def)
  have wf: "db_wf (w_db verify_world)"
    by (simp add: db_wf_def user_ids_def sample_db_def empty_db_def sample_tenant_def tenant_statuses_def)
  have "fst (ResendVerification sample_S acme_ctx ''a@b'' verify_world) = Ok ()"
    using u by (simp add: ResendVerification_def attempt_def bindM_def users_FindByEmail_def QueryRow_Conn next_ok_def
        email_DeleteByUserID_def ExecContext_Conn exec_conn_def uuid_NewString_def uuid_NewV7_def time_Now_eq tick_quiet
        email_Create_def insert_email_def user_ids_def SendVerificationEmail_def verify_world_def big_world_def)
  then obtain w1 where run: "ResendVerification sample_S acme_ctx ''a@b'' verify_world = (Ok (), w1)"
    by (metis prod.collapse)
  from resend_then_verify[of sample_S acme_ctx inactive_user verify_world w1 acme] run u wf
  obtain tok where "w_mail w1 = [(''a@b'', tok)]"
    "\<forall>w2. w_db w2 = w_db w1 \<and> w_faults w2 = [] \<and> w_now w2 < 1000 + 24 * Hour \<longrightarrow> (\<exists>w3. VerifyEmail sample_S tok w2 = (Ok (), w3) \<and>
        (\<exists>u' \<in> set (users (w_db w3)). u_ID u' = u_ID inactive_user \<and> u_EmailVerified u' \<and> u_IsActive u'))"
    by auto
  with run show ?thesis by (auto simp: duration_defs)
qed

end
