(* ===== verification/Service_Passwords.thy ===== *)
theory Service_Passwords
  imports Service_Accounts
begin

text \<open>
  Passwords: change with the old password, request of a reset link, reset with the link's token,
  and the end of all sessions of a user.
\<close>

section \<open>Effects on the tables\<close>

definition set_password :: "uuid \<Rightarrow> string \<Rightarrow> time \<Rightarrow> db \<Rightarrow> db" where
  "set_password i h t d = d\<lparr>users := update_where (\<lambda>u. u_ID u = i)
     (\<lambda>u. u\<lparr>u_PasswordHash := Some h, u_UpdatedAt := t\<rparr>) (users d)\<rparr>"

definition mark_reset :: "uuid \<Rightarrow> time \<Rightarrow> db \<Rightarrow> db" where
  "mark_reset i t d = d\<lparr>reset_tokens :=
     update_where (\<lambda>r. pw_token_id r = i) (\<lambda>r. r\<lparr>pw_used_at := Some t\<rparr>) (reset_tokens d)\<rparr>"

definition of_user :: "uuid \<Rightarrow> uuid \<Rightarrow> refresh_row \<Rightarrow> bool" where
  "of_user i tn = (\<lambda>r. rr_user_id r = i \<and> rr_revoked_at r = None \<and> rr_tenant_id r = Some tn)"

definition reset_row_of :: "PasswordResetToken \<Rightarrow> reset_row" where
  "reset_row_of p = \<lparr>pw_token_id = pr_ID p, pw_user_id = pr_UserID p, pw_tenant_id = Some (pr_TenantID p),
     pw_token_hash = pr_TokenHash p, pw_expires_at = pr_ExpiresAt p, pw_used_at = None,
     pw_created_at = pr_CreatedAt p, pw_revoked_at = None\<rparr>"

definition add_reset :: "PasswordResetToken \<Rightarrow> db \<Rightarrow> db" where
  "add_reset p d = d\<lparr>reset_tokens := reset_tokens d @ [reset_row_of p]\<rparr>"

definition pending_reset :: "uuid \<Rightarrow> uuid \<Rightarrow> time \<Rightarrow> reset_row \<Rightarrow> bool" where
  "pending_reset i tn t r \<longleftrightarrow>
     pw_user_id r = i \<and> pw_tenant_id r = Some tn \<and> pw_used_at r = None \<and> pw_expires_at r > t"

definition revoke_resets :: "uuid \<Rightarrow> uuid \<Rightarrow> time \<Rightarrow> time \<Rightarrow> db \<Rightarrow> db" where
  "revoke_resets i tn t at d = d\<lparr>reset_tokens :=
     update_where (pending_reset i tn t) (\<lambda>r. r\<lparr>pw_revoked_at := Some at\<rparr>) (reset_tokens d)\<rparr>"

lemma password_effect_simps [simp]:
  "users (set_password i h t d) = update_where (\<lambda>u. u_ID u = i) (\<lambda>u. u\<lparr>u_PasswordHash := Some h, u_UpdatedAt := t\<rparr>) (users d)"
  "refresh_tokens (set_password i h t d) = refresh_tokens d" "reset_tokens (set_password i h t d) = reset_tokens d"
  "email_tokens (set_password i h t d) = email_tokens d" "outbox_events (set_password i h t d) = outbox_events d"
  "users (mark_reset i t d) = users d" "refresh_tokens (mark_reset i t d) = refresh_tokens d"
  "outbox_events (mark_reset i t d) = outbox_events d"
  "reset_tokens (mark_reset i t d) = update_where (\<lambda>r. pw_token_id r = i) (\<lambda>r. r\<lparr>pw_used_at := Some t\<rparr>) (reset_tokens d)"
  "users (add_reset p d) = users d" "outbox_events (add_reset p d) = outbox_events d"
  "reset_tokens (add_reset p d) = reset_tokens d @ [reset_row_of p]" "user_ids (add_reset p d) = user_ids d"
  "refresh_tokens (add_reset p d) = refresh_tokens d"
  "reset_tokens (revoke_resets i tn t at d) =
     update_where (pending_reset i tn t) (\<lambda>r. r\<lparr>pw_revoked_at := Some at\<rparr>) (reset_tokens d)"
  "users (revoke_resets i tn t at d) = users d" "refresh_tokens (revoke_resets i tn t at d) = refresh_tokens d"
  "outbox_events (revoke_resets i tn t at d) = outbox_events d"
  by (simp_all add: set_password_def mark_reset_def add_reset_def revoke_resets_def user_ids_def)

lemma ChangePassword_Tx_Ok:
  "users_ChangePassword Tx i h w = (Ok x, w') \<longleftrightarrow>
     next_ok w \<and> (\<exists>ta d. w_tx w = Some (ta, d) \<and> w' = (pop w)\<lparr>w_tx := Some (ta, set_password i h ta d)\<rparr>)"
  by (auto simp: users_ChangePassword_def ExecContext_Tx_Ok_iff upd_user_def set_password_def)

lemma MarkResetUsed_Tx_Ok:
  "refresh_MarkResetTokenUsedTx Tx i w = (Ok x, w') \<longleftrightarrow>
     next_ok (tick w) \<and> (\<exists>ta d. w_tx w = Some (ta, d) \<and>
       w' = (pop (tick w))\<lparr>w_tx := Some (ta, mark_reset i (w_now w) d)\<rparr>)"
  by (auto simp: refresh_MarkResetTokenUsedTx_def bindM_Ok_iff time_Now_eq ExecContext_Tx_Ok_iff upd_reset_def
      mark_reset_def)

lemma FindValidReset_Tx_Ok:
  "refresh_FindValidResetTokenTx Tx h tn w = (Ok p, w') \<longleftrightarrow>
     next_ok w \<and> w' = pop w \<and> (\<exists>ta d r. w_tx w = Some (ta, d) \<and> p = scan_reset r \<and>
       List.find (reset_valid h tn ta) (reset_tokens d) = Some r)"
  by (auto simp: refresh_FindValidResetTokenTx_def QueryRow_Tx_Ok_iff)

lemma upd_refresh_rows: "upd_refresh p Some t d = Inr (revoke_rows p t d)"
  by (simp add: upd_refresh_def revoke_rows_def)

lemma RevokeAllForUser_Ok:
  "refresh_RevokeAllForUser i tn w = (Ok x, w') \<longleftrightarrow>
     next_ok w \<and> w' = (pop w)\<lparr>w_db := revoke_rows (of_user i tn) (w_now w) (w_db w),
       w_tx := map_option (\<lambda>(t0, d). (t0, revoke_rows (of_user i tn) (w_now w) d)) (w_tx w)\<rparr>"
  by (auto simp: refresh_RevokeAllForUser_def ExecContext_Conn_Ok_iff upd_refresh_rows of_user_def apply_stmt_def)

lemma CreateReset_Tx_Ok:
  "refresh_CreateResetTokenTx Tx p w = (Ok x, w') \<longleftrightarrow>
     next_ok w \<and> (\<exists>ta d. w_tx w = Some (ta, d) \<and> pr_ID p \<notin> pw_token_id ` set (reset_tokens d) \<and>
       pr_UserID p \<in> user_ids d \<and> w' = (pop w)\<lparr>w_tx := Some (ta, add_reset p d)\<rparr>)"
  by (auto simp: refresh_CreateResetTokenTx_def ExecContext_Tx_Ok_iff insert_reset_def add_reset_def
      reset_row_of_def split: if_splits)

lemma RevokePrevious_Tx_Ok:
  "refresh_RevokePreviousResetTokens Tx tn i w = (Ok x, w') \<longleftrightarrow>
     next_ok (tick w) \<and> (\<exists>ta d. w_tx w = Some (ta, d) \<and>
       w' = (pop (tick w))\<lparr>w_tx := Some (ta, revoke_resets i tn ta (w_now w) d)\<rparr>)"
proof -
  have "(\<lambda>r. pw_user_id r = i \<and> pw_tenant_id r = Some tn \<and> pw_used_at r = None \<and> t < pw_expires_at r) =
      pending_reset i tn t" for t by (simp add: pending_reset_def fun_eq_iff)
  then show ?thesis
    by (auto simp: refresh_RevokePreviousResetTokens_def bindM_Ok_iff time_Now_eq ExecContext_Tx_Ok_iff
        upd_reset_def revoke_resets_def)
qed

section \<open>Change of the password\<close>

lemma ChangePassword_atomic: "atomic (ChangePassword S ctx req ip)"
  unfolding ChangePassword_def
  by (cases "TenantFromContext ctx")
    (auto simp: atomic_throw split: option.splits
      intro!: atomic_bindM atomic_intros keeps_intros)

lemma ChangePassword_Ok:
  assumes "ChangePassword S ctx req ip w = (Ok x, w')"
  shows "\<exists>tenant user old new t e. TenantFromContext ctx = Some tenant \<and> user \<in> set (users (w_db w)) \<and>
    u_Email user = cp_Email req \<and> u_Tenant_ID user = t_ID tenant \<and> u_PasswordHash user = Some old \<and>
    ComparePassword (sv_lib S) old (cp_OldPassword req) = None \<and> hash_of (sv_lib S) (cp_NewPassword req) new \<and>
    w_db w' = add_event e (set_password (u_ID user) new t (w_db w))"
proof -
  from assms obtain tenant where t: "TenantFromContext ctx = Some tenant"
    by (auto simp: ChangePassword_def split: option.splits)
  from assms obtain user w1 where f: "users_FindByEmail (cp_Email req) (t_ID tenant) w = (Ok user, w1)"
    by (auto simp: ChangePassword_def t bindM_Ok_iff mapErr_Ok_iff)
  from users_FindByEmail_Some[OF f] have u: "user \<in> set (users (w_db w))" "u_Email user = cp_Email req"
    "u_Tenant_ID user = t_ID tenant" "w1 = pop w" by auto
  from assms f t obtain old where old: "u_PasswordHash user = Some old"
    by (cases "u_PasswordHash user") (auto simp: ChangePassword_def bindM_Ok_iff mapErr_Ok_iff)
  from assms f t old u(4) obtain new w2 e t0 where c: "ComparePassword (sv_lib S) old (cp_OldPassword req) = None"
    and h: "HashPassword (sv_lib S) (cp_NewPassword req) (pop w) = (Ok new, w2)"
    and db: "w_db w' = add_event e (set_password (u_ID user) new t0 (w_db w2))"
    by (auto simp: ChangePassword_def bindM_Ok_iff mapErr_Ok_iff withTx_Ok_iff ChangePassword_Tx_Ok uuid_NewV7_Ok_iff
        time_Now_eq outbox_CreateTx_Ok Commit_Ok_iff Rollback_def split: if_splits)
  have "w_db w2 = w_db w" using h by (auto simp: HashPassword_Ok)
  with db have "w_db w' = add_event e (set_password (u_ID user) new t0 (w_db w))" by simp
  with t u(1-3) old c HashPassword_hash_of[OF h] show ?thesis by blast
qed

text \<open>
  C21: A change of the password that succeeds was made with the current password of an account of this
  tenant; it replaces the password hash of exactly that account by a hash of the new password, adds one
  event, and leaves every session of the user alive. When it does not succeed nothing changes.
\<close>

theorem change_password_effect:
  assumes "ChangePassword S ctx req ip w = (r, w')"
  shows "if is_Ok r then (\<exists>tenant user old new t e. TenantFromContext ctx = Some tenant \<and>
      user \<in> set (users (w_db w)) \<and> u_Email user = cp_Email req \<and> u_Tenant_ID user = t_ID tenant \<and>
      u_PasswordHash user = Some old \<and> ComparePassword (sv_lib S) old (cp_OldPassword req) = None \<and>
      hash_of (sv_lib S) (cp_NewPassword req) new \<and>
      w_db w' = add_event e (set_password (u_ID user) new t (w_db w)) \<and>
      refresh_tokens (w_db w') = refresh_tokens (w_db w))
    else w_db w' = w_db w"
proof (cases "is_Ok r")
  case True
  with assms ChangePassword_Ok[of S ctx req ip w "()" w'] show ?thesis by (auto simp: is_Ok_iff) fastforce
next
  case False
  with atomicD[OF ChangePassword_atomic assms] show ?thesis by simp
qed

section \<open>Reset with a token\<close>

text \<open>\<open>on_failure R m\<close>: when the call does not succeed, the committed tables changed at most by \<open>R\<close>.\<close>

definition on_failure :: "(db \<Rightarrow> db \<Rightarrow> bool) \<Rightarrow> 'a M \<Rightarrow> bool" where
  "on_failure R m \<longleftrightarrow> (\<forall>w r w'. m w = (r, w') \<longrightarrow> \<not> is_Ok r \<longrightarrow> R (w_db w) (w_db w'))"

lemma on_failureD: "on_failure R m \<Longrightarrow> m w = (r, w') \<Longrightarrow> \<not> is_Ok r \<Longrightarrow> R (w_db w) (w_db w')"
  by (simp add: on_failure_def)

lemma on_failure_bindM:
  assumes "\<And>d. R d d" "\<And>d. keeps (committed_is d) m" "\<And>a. on_failure R (k a)"
  shows "on_failure R (bindM m k)"
  unfolding on_failure_def
proof (intro allI impI)
  fix w r w' assume run: "bindM m k w = (r, w')" and bad: "\<not> is_Ok r"
  from run assms(2) show "R (w_db w) (w_db w')"
  proof (rule bindM_stage)
    assume "w_db w' = w_db w" then show ?thesis by (simp add: assms(1))
  next
    fix a w1 assume "w_db w1 = w_db w" "k a w1 = (r, w')"
    with on_failureD[OF assms(3) _ bad] show ?thesis by metis
  qed
qed

lemma on_failure_touch:
  assumes "\<And>w r w'. m w = (r, w') \<Longrightarrow> R (w_db w) (w_db w')" "\<And>a. atomic (k a)"
  shows "on_failure R (bindM m k)"
  unfolding on_failure_def
proof (intro allI impI)
  fix w r w' assume run: "bindM m k w = (r, w')" and bad: "\<not> is_Ok r"
  obtain r1 w1 where m: "m w = (r1, w1)" by fastforce
  have "w_db w' = w_db w1"
  proof (cases r1)
    case (Ok a)
    with run m have "k a w1 = (r, w')" by simp
    then show ?thesis by (rule atomicD[OF assms(2) _ bad])
  qed (use run m in auto)
  with assms(1)[OF m] show "R (w_db w) (w_db w')" by simp
qed

lemma on_failure_withTx: "(\<And>d. R d d) \<Longrightarrow> on_failure R m \<Longrightarrow> on_failure R (withTx m)"
  unfolding on_failure_def by (auto simp: withTx_eq Rollback_def split: if_splits prod.splits) fastforce

definition maybe_revoked :: "db \<Rightarrow> db \<Rightarrow> bool" where
  "maybe_revoked d d' \<longleftrightarrow> d' = d \<or> (\<exists>i tn t. d' = revoke_rows (of_user i tn) t d)"

lemma RevokeAllForUser_touch: "refresh_RevokeAllForUser i tn w = (r, w') \<Longrightarrow> maybe_revoked (w_db w) (w_db w')"
  by (auto simp: maybe_revoked_def refresh_RevokeAllForUser_def ExecContext_Conn exec_conn_def upd_refresh_rows of_user_def
      split: if_splits) blast

lemma ResetPassword_failure: "on_failure maybe_revoked (ResetPassword S ctx raw pw ip)"
proof (cases "TenantFromContext ctx")
  case None
  then show ?thesis by (simp add: ResetPassword_def on_failure_def maybe_revoked_def)
next
  case (Some tenant)
  have refl: "maybe_revoked d d" for d by (simp add: maybe_revoked_def)
  show ?thesis
    unfolding ResetPassword_def Some option.case
    by (intro on_failure_withTx on_failure_bindM refl keeps_intros on_failure_touch RevokeAllForUser_touch
        atomic_bindM atomic_intros)
qed

text \<open>
  Unless a reset of the password succeeds, no password, no reset token and no event changes; the only
  trace it can leave is that the sessions of one user were revoked.
\<close>

lemma reset_failure_keeps_password:
  assumes "ResetPassword S ctx raw pw ip w = (r, w')" "\<not> is_Ok r"
  shows "users (w_db w') = users (w_db w) \<and> reset_tokens (w_db w') = reset_tokens (w_db w) \<and>
    outbox_events (w_db w') = outbox_events (w_db w) \<and> email_tokens (w_db w') = email_tokens (w_db w) \<and>
    (refresh_tokens (w_db w') = refresh_tokens (w_db w) \<or>
     (\<exists>i tn t. refresh_tokens (w_db w') = update_where
        (\<lambda>x. rr_user_id x = i \<and> rr_revoked_at x = None \<and> rr_tenant_id x = Some tn)
        (\<lambda>x. x\<lparr>rr_revoked_at := Some t\<rparr>) (refresh_tokens (w_db w))))"
  using on_failureD[OF ResetPassword_failure assms]
  by (auto simp: maybe_revoked_def of_user_def) blast

lemma ResetPassword_Ok:
  assumes "ResetPassword S ctx raw pw ip w = (Ok x, w')"
  shows "\<exists>tenant row h tm tr e. TenantFromContext ctx = Some tenant \<and>
    List.find (reset_valid (HashToken raw (sv_tokenSecret S)) (t_ID tenant) (w_now w)) (reset_tokens (w_db w)) = Some row \<and>
    hash_of (sv_lib S) pw h \<and>
    w_db w' = add_event e (revoke_rows (of_user (pw_user_id row) (t_ID tenant)) tr
      (mark_reset (pw_token_id row) tm (set_password (pw_user_id row) h (w_now w) (w_db w))))"
proof -
  from assms obtain tenant where t: "TenantFromContext ctx = Some tenant"
    by (auto simp: ResetPassword_def split: option.splits)
  from assms t show ?thesis
    by (auto simp: ResetPassword_def withTx_Ok_iff bindM_Ok_iff mapErr_Ok_iff FindValidReset_Tx_Ok ChangePassword_Tx_Ok
        MarkResetUsed_Tx_Ok RevokeAllForUser_Ok uuid_NewV7_Ok_iff time_Now_eq outbox_CreateTx_Ok Commit_Ok_iff
        users_FindByID_def QueryRow_Conn_Ok_iff HashPassword_Ok Rollback_def hash_of_def bcryptCost_def) blast
qed

text \<open>
  C16: A reset of the password that succeeds was made with a token of this tenant that was neither used nor
  expired. Afterwards the password of the token's user is a hash of the new password, the users
  with other identifiers are as before, the token is used, and every refresh token that user had in this tenant
  is revoked.
\<close>

theorem reset_password_effect:
  assumes "ResetPassword S ctx raw pw ip w = (Ok (), w')"
  shows "\<exists>tenant row h. TenantFromContext ctx = Some tenant \<and> row \<in> set (reset_tokens (w_db w)) \<and>
    pw_token_hash row = HashToken raw (sv_tokenSecret S) \<and> pw_tenant_id row = Some (t_ID tenant) \<and>
    pw_used_at row = None \<and> w_now w < pw_expires_at row \<and> hash_of (sv_lib S) pw h \<and>
    (\<forall>u \<in> set (users (w_db w')). u_ID u = pw_user_id row \<longrightarrow> u_PasswordHash u = Some h) \<and>
    filter (\<lambda>u. u_ID u \<noteq> pw_user_id row) (users (w_db w')) = filter (\<lambda>u. u_ID u \<noteq> pw_user_id row) (users (w_db w)) \<and>
    (\<forall>x \<in> set (reset_tokens (w_db w')). pw_token_id x = pw_token_id row \<longrightarrow> pw_used_at x \<noteq> None) \<and>
    (\<forall>x \<in> set (refresh_tokens (w_db w')). rr_user_id x = pw_user_id row \<and> rr_tenant_id x = Some (t_ID tenant) \<longrightarrow>
       rr_revoked_at x \<noteq> None)"
proof -
  from ResetPassword_Ok[OF assms] obtain tenant row h tm tr e where t: "TenantFromContext ctx = Some tenant"
    and f: "List.find (reset_valid (HashToken raw (sv_tokenSecret S)) (t_ID tenant) (w_now w)) (reset_tokens (w_db w)) = Some row"
    and h: "hash_of (sv_lib S) pw h"
    and db: "w_db w' = add_event e (revoke_rows (of_user (pw_user_id row) (t_ID tenant)) tr
      (mark_reset (pw_token_id row) tm (set_password (pw_user_id row) h (w_now w) (w_db w))))" by blast
  from find_Some_in[OF f] have row: "row \<in> set (reset_tokens (w_db w))" "pw_token_hash row = HashToken raw (sv_tokenSecret S)"
    "pw_tenant_id row = Some (t_ID tenant)" "pw_used_at row = None" "w_now w < pw_expires_at row"
    by (auto simp: reset_valid_def)
  have "u_PasswordHash u = Some h" if "u \<in> set (users (w_db w'))" "u_ID u = pw_user_id row" for u
    using that unfolding db by (auto elim!: update_where_hit)
  moreover have "filter (\<lambda>u. u_ID u \<noteq> pw_user_id row) (users (w_db w')) = filter (\<lambda>u. u_ID u \<noteq> pw_user_id row) (users (w_db w))"
    unfolding db by (auto simp: update_where_def filter_map comp_def intro!: map_idI cong: filter_cong)
  moreover have "pw_used_at x \<noteq> None" if "x \<in> set (reset_tokens (w_db w'))" "pw_token_id x = pw_token_id row" for x
    using that unfolding db by (auto elim!: update_where_hit)
  moreover have "rr_revoked_at x \<noteq> None"
    if "x \<in> set (refresh_tokens (w_db w'))" "rr_user_id x = pw_user_id row" "rr_tenant_id x = Some (t_ID tenant)" for x
  proof -
    from that(1) obtain y where "x = (if of_user (pw_user_id row) (t_ID tenant) y then y\<lparr>rr_revoked_at := Some tr\<rparr> else y)"
      unfolding db by (auto elim: update_whereE)
    with that(2,3) show ?thesis by (auto simp: of_user_def split: if_splits)
  qed
  ultimately show ?thesis using t row h by blast
qed

text \<open>
  C17: A reset token works once: after a reset that succeeded, the same token never resets a password again,
  in this tenant or another.
\<close>

theorem reset_token_once:
  assumes "ResetPassword S ctx raw pw ip w = (Ok (), w1)" "distinct (map pw_token_hash (reset_tokens (w_db w)))"
    and "w_db w2 = w_db w1" "ResetPassword S ctx' raw pw' ip' w2 = (r2, w3)"
  shows "\<not> is_Ok r2"
proof
  assume "is_Ok r2"
  then have ok: "ResetPassword S ctx' raw pw' ip' w2 = (Ok (), w3)" using assms(4) by (auto simp: is_Ok_iff)
  let ?h = "HashToken raw (sv_tokenSecret S)"
  from ResetPassword_Ok[OF assms(1)] obtain tenant :: Tenant and row h tm tr e where
    f: "List.find (reset_valid ?h (t_ID tenant) (w_now w)) (reset_tokens (w_db w)) = Some row"
    and db: "w_db w1 = add_event e (revoke_rows (of_user (pw_user_id row) (t_ID tenant)) tr
      (mark_reset (pw_token_id row) tm (set_password (pw_user_id row) h (w_now w) (w_db w))))" by blast
  from find_Some_in[OF f] have row: "row \<in> set (reset_tokens (w_db w))" "pw_token_hash row = ?h"
    by (auto simp: reset_valid_def)
  from ResetPassword_Ok[OF ok] obtain tn' x where "List.find (reset_valid ?h tn' (w_now w2)) (reset_tokens (w_db w2)) = Some x"
    by blast
  from find_Some_in[OF this] have x: "x \<in> set (reset_tokens (w_db w1))" "pw_token_hash x = ?h" "pw_used_at x = None"
    by (auto simp: reset_valid_def assms(3))
  from x(1) obtain y where y: "y \<in> set (reset_tokens (w_db w))"
    "x = (if pw_token_id y = pw_token_id row then y\<lparr>pw_used_at := Some tm\<rparr> else y)"
    unfolding db by (auto elim: update_whereE)
  with x(2) have "pw_token_hash y = ?h" by (auto split: if_splits)
  with distinct_key_inj[OF assms(2) y(1) row(1)] row(2) have "y = row" by simp
  with y(2) x(3) show False by simp
qed

subsection \<open>Sample runs\<close>

definition reset_token_row :: "time option \<Rightarrow> reset_row" where
  "reset_token_row ro = \<lparr>pw_token_id = 40, pw_user_id = 7, pw_tenant_id = Some 3, pw_token_hash = HashToken ''tok'' ''s'',
     pw_expires_at = 5000, pw_used_at = None, pw_created_at = 0, pw_revoked_at = ro\<rparr>"

definition reset_world :: "time option \<Rightarrow> world" where
  "reset_world ro = big_world\<lparr>w_db := sample_db\<lparr>reset_tokens := [reset_token_row ro], refresh_tokens := [session_row None]\<rparr>\<rparr>"

lemma reset_world_simps [simp]:
  "w_db (reset_world ro) = sample_db\<lparr>reset_tokens := [reset_token_row ro], refresh_tokens := [session_row None]\<rparr>"
  "w_tx (reset_world ro) = None" "w_now (reset_world ro) = 1000" "w_ticks (reset_world ro) = []"
  "w_faults (reset_world ro) = []" "w_uuids (reset_world ro) = [10, 11, 12, 13, 14, 15, 16, 17, 18, 19, 20, 21, 22, 23, 24, 25]"
  "w_rand (reset_world ro) = [[1], [2], [3], [4], [5], [6]]"
  by (simp_all add: reset_world_def)

lemma reset_token_row_simps [simp]:
  "pw_token_id (reset_token_row ro) = 40" "pw_user_id (reset_token_row ro) = 7"
  "pw_token_hash (reset_token_row ro) = HashToken ''tok'' ''s''" "pw_tenant_id (reset_token_row ro) = Some 3"
  "pw_expires_at (reset_token_row ro) = 5000" "pw_used_at (reset_token_row ro) = None"
  by (simp_all add: reset_token_row_def)

lemmas reset_run = ResetPassword_def withTx_eq bindM_def attempt_def mapErr_def refresh_FindValidResetTokenTx_def QueryRow_Tx
  QueryRow_Conn next_ok_def reset_valid_def HashPassword_def rand_Read_def users_ChangePassword_def ExecContext_Tx exec_tx_def
  upd_user_def refresh_MarkResetTokenUsedTx_def time_Now_eq upd_reset_def refresh_RevokeAllForUser_def ExecContext_Conn
  exec_conn_def upd_refresh_def users_FindByID_def uuid_NewV7_def outbox_CreateTx_def insert_outbox_def outbox_statuses_def
  Commit_eq tick_quiet apply_stmt_def

lemma sample_reset: "fst (ResetPassword sample_S acme_ctx ''tok'' ''newpassword'' ip (reset_world ro)) = Ok ()"
  by (simp add: reset_run sample_db_def empty_db_def sample_user_def StatusPending_def)

lemma reset_password_effect_witness:
  "\<exists>w'. ResetPassword sample_S acme_ctx ''tok'' ''newpassword'' [] (reset_world None) = (Ok (), w') \<and>
     (\<exists>h. \<forall>u \<in> set (users (w_db w')). u_ID u = 7 \<longrightarrow> u_PasswordHash u = Some h)"
proof -
  obtain w' where run: "ResetPassword sample_S acme_ctx ''tok'' ''newpassword'' [] (reset_world None) = (Ok (), w')"
    using sample_reset by (metis prod.collapse)
  from reset_password_effect[OF run] run show ?thesis by auto
qed

lemma reset_token_once_witness:
  "\<not> is_Ok (fst (ResetPassword sample_S acme_ctx ''tok'' ''again'' []
     (snd (ResetPassword sample_S acme_ctx ''tok'' ''newpassword'' [] (reset_world None)))))"
proof -
  obtain w1 where run: "ResetPassword sample_S acme_ctx ''tok'' ''newpassword'' [] (reset_world None) = (Ok (), w1)"
    using sample_reset by (metis prod.collapse)
  obtain r2 w3 where run2: "ResetPassword sample_S acme_ctx ''tok'' ''again'' [] w1 = (r2, w3)" by fastforce
  have "\<not> is_Ok r2" by (rule reset_token_once[OF run _ refl run2]) simp
  with run run2 show ?thesis by simp
qed

definition sample_change :: "string \<Rightarrow> ChangePasswordRequest" where
  "sample_change old = \<lparr>cp_Email = ''a@b'', cp_OldPassword = old, cp_NewPassword = ''other12345'', cp_NewConfirm = ''other12345''\<rparr>"

lemma change_password_effect_witness:
  "\<exists>w'. ChangePassword sample_S acme_ctx (sample_change ''password12'') [] (reset_world None) = (Ok (), w') \<and>
     refresh_tokens (w_db w') = [session_row None]"
proof -
  have f: "users_FindByEmail ''a@b'' 3 (reset_world None) = (Ok sample_user, reset_world None)"
    by (simp add: users_FindByEmail_def QueryRow_Conn next_ok_def sample_db_def pop_def)
      (simp add: sample_user_def reset_world_def)
  have "fst (ChangePassword sample_S acme_ctx (sample_change ''password12'') [] (reset_world None)) = Ok ()"
    by (simp add: ChangePassword_def mapErr_def attempt_def bindM_def sample_change_def f)
      (simp add: sample_user_def ComparePassword_def reset_run sample_lib_def StatusPending_def sample_db_def empty_db_def)
  then obtain w' where run: "ChangePassword sample_S acme_ctx (sample_change ''password12'') [] (reset_world None) = (Ok (), w')"
    by (metis prod.collapse)
  from change_password_effect[OF run] run show ?thesis by auto
qed

lemma reset_failure_keeps_password_witness:
  "users (w_db (snd (ResetPassword sample_S background ''tok'' ''pw'' [] (reset_world None)))) = [sample_user]"
proof -
  have "ResetPassword sample_S background ''tok'' ''pw'' [] (reset_world None) = (Err ErrTenantNotFound, reset_world None)"
    by (simp add: ResetPassword_def TenantFromContext_def background_def)
  from reset_failure_keeps_password[OF this] this show ?thesis by (simp add: sample_db_def)
qed

text \<open>
  A failed reset can end sessions: the revocation of the user's refresh tokens runs on the connection
  pool, not in the transaction, so when the commit fails the password is the old one and the reset token
  is still unused, but the user is logged out everywhere.
\<close>

lemma reset_not_atomic:
  "\<exists>w w' e. ResetPassword sample_S acme_ctx ''tok'' ''newpassword'' [] w = (Err e, w') \<and>
     users (w_db w') = users (w_db w) \<and> reset_tokens (w_db w') = reset_tokens (w_db w) \<and>
     refresh_tokens (w_db w) = [session_row None] \<and> refresh_tokens (w_db w') = [session_row (Some 1000)]"
proof -
  let ?w = "(reset_world None)\<lparr>w_faults := [None, None, None, None, None, None, None, Some ''connection lost'']\<rparr>"
  have run: "fst (ResetPassword sample_S acme_ctx ''tok'' ''newpassword'' [] ?w) = Err (ErrOther ''connection lost'') \<and>
      w_db (snd (ResetPassword sample_S acme_ctx ''tok'' ''newpassword'' [] ?w)) =
        sample_db\<lparr>reset_tokens := [reset_token_row None], refresh_tokens := [session_row (Some 1000)]\<rparr>"
    by (simp add: reset_run sample_db_def empty_db_def sample_user_def StatusPending_def next_err_def Rollback_def session_row_def)
  then show ?thesis
    by (intro exI[of _ ?w] exI[of _ "snd (ResetPassword sample_S acme_ctx ''tok'' ''newpassword'' [] ?w)"]
        exI[of _ "ErrOther ''connection lost''"]) (simp add: prod_eq_iff)
qed

section \<open>Request of a reset link\<close>

definition reset_event :: "Service \<Rightarrow> User \<Rightarrow> string \<Rightarrow> OutboxEvent \<Rightarrow> bool" where
  "reset_event S user plain e \<longleftrightarrow> oe_EventType e = EmailPasswordResetRequested \<and> oe_Status e = StatusPending \<and>
     (\<exists>c. oe_Payload e = EmailContextJSON c \<and> ep_UserID c = u_ID user \<and> ep_Email c = u_Email user \<and>
       ep_PayloadData c = PasswordResetRequestedPayload (sv_app_url S @ ''/auth/reset-password?t='' @ plain))"

text \<open>A commit whose error is dropped.\<close>

lemma soft_commit: "attempt Commit (\<lambda>_. ret ()) ret w = (Ok (), snd (Commit w))"
  by (auto simp: attempt_def Commit_eq split: option.splits)

lemma soft_commit_db: "w_tx w = Some (t, d) \<Longrightarrow> w_db (snd (Commit w)) = d \<or> w_db (snd (Commit w)) = w_db w"
  by (auto simp: Commit_eq)

lemma request_body_Ok:
  assumes "bindM (refresh_CreateResetTokenTx Tx p) (\<lambda>_. bindM (outbox_CreateTx Tx e) (\<lambda>_.
      bindM (refresh_RevokePreviousResetTokens Tx tn i) (\<lambda>_. k))) w = (Ok x, w')" "w_tx w = Some (t, d)"
  shows "\<exists>w1 at. w_tx w1 = Some (t, revoke_resets i tn t at (add_event e (add_reset p d))) \<and> w_db w1 = w_db w \<and>
    k w1 = (Ok x, w')"
proof -
  from assms(1) obtain w1 w2 w3 where c: "refresh_CreateResetTokenTx Tx p w = (Ok (), w1)" "outbox_CreateTx Tx e w1 = (Ok (), w2)"
    "refresh_RevokePreviousResetTokens Tx tn i w2 = (Ok (), w3)" "k w3 = (Ok x, w')"
    unfolding bindM_Ok_iff by auto
  from c(1) assms(2) have "w_tx w1 = Some (t, add_reset p d)" "w_db w1 = w_db w" by (auto simp: CreateReset_Tx_Ok)
  with c(2) have "w_tx w2 = Some (t, add_event e (add_reset p d))" "w_db w2 = w_db w" by (auto simp: outbox_CreateTx_Ok)
  with c(3) have "w_tx w3 = Some (t, revoke_resets i tn t (w_now w2) (add_event e (add_reset p d)))" "w_db w3 = w_db w"
    by (auto simp: RevokePrevious_Tx_Ok)
  with c(4) show ?thesis by blast
qed

lemma request_tx_run:
  assumes "withTx (bindM (refresh_CreateResetTokenTx Tx p) (\<lambda>_. bindM (outbox_CreateTx Tx e) (\<lambda>_.
      bindM (refresh_RevokePreviousResetTokens Tx tn i) (\<lambda>_. attempt Commit (\<lambda>_. ret ()) (\<lambda>_. ret ()))))) w = (r, w')"
  shows "w_db w' = w_db w \<or> (is_Ok r \<and> (\<exists>at. w_db w' = revoke_resets i tn (w_now w) at (add_event e (add_reset p (w_db w)))))"
proof (cases "is_Ok r")
  case True
  with assms obtain x wb where body: "bindM (refresh_CreateResetTokenTx Tx p) (\<lambda>_. bindM (outbox_CreateTx Tx e) (\<lambda>_.
      bindM (refresh_RevokePreviousResetTokens Tx tn i) (\<lambda>_. attempt Commit (\<lambda>_. ret ()) (\<lambda>_. ret ()))))
      ((pop w)\<lparr>w_tx := Some (w_now w, w_db w)\<rparr>) = (Ok x, wb)" and w': "w' = Rollback wb"
    by (auto simp: is_Ok_iff withTx_Ok_iff)
  from request_body_Ok[OF body, of "w_now w" "w_db w"] w'
  obtain w1 at where "w_tx w1 = Some (w_now w, revoke_resets i tn (w_now w) at (add_event e (add_reset p (w_db w))))"
    "w_db w1 = w_db w" "w' = Rollback (snd (Commit w1))"
    by (auto simp: soft_commit)
  with soft_commit_db[of w1] True show ?thesis by (auto simp: Rollback_def)
next
  case False
  have "atomic (attempt Commit (\<lambda>_. ret ()) (\<lambda>_. ret ()))"
    by (auto simp: atomic_def soft_commit)
  then have "atomic (withTx (bindM (refresh_CreateResetTokenTx Tx p) (\<lambda>_. bindM (outbox_CreateTx Tx e) (\<lambda>_.
      bindM (refresh_RevokePreviousResetTokens Tx tn i) (\<lambda>_. attempt Commit (\<lambda>_. ret ()) (\<lambda>_. ret ()))))))"
    by (intro atomic_withTx atomic_bindM keeps_intros)
  from atomicD[OF this assms False] show ?thesis by simp
qed

lemma RequestReset_run:
  assumes "RequestResetPassword S ctx email ip w = (r, w')" "w_db w' \<noteq> w_db w"
  shows "is_Ok r \<and> (\<exists>tenant user plain p e at t. TenantFromContext ctx = Some tenant \<and>
    user \<in> set (users (w_db w)) \<and> u_Email user = email \<and> u_Tenant_ID user = t_ID tenant \<and>
    pr_UserID p = u_ID user \<and> pr_TenantID p = t_ID tenant \<and> pr_TokenHash p = HashToken plain (sv_tokenSecret S) \<and>
    pr_ExpiresAt p = w_now w + 1 * Hour \<and> reset_event S user plain e \<and> (w_ticks w = [] \<longrightarrow> t = w_now w) \<and>
    w_db w' = revoke_resets (u_ID user) (t_ID tenant) t at (add_event e (add_reset p (w_db w))))"
proof -
  from assms obtain tenant where t: "TenantFromContext ctx = Some tenant"
    by (auto simp: RequestResetPassword_def split: option.splits)
  obtain rf w1 where f0: "users_FindByEmail email (t_ID tenant) w = (rf, w1)" by fastforce
  then have "w_db w1 = w_db w" by (auto simp: users_FindByEmail_def QueryRow_Conn split: if_splits)
  with assms f0 t obtain user where f: "users_FindByEmail email (t_ID tenant) w = (Ok user, w1)"
    by (cases rf) (auto simp: RequestResetPassword_def split: if_splits)
  from users_FindByEmail_Some[OF f] have u: "user \<in> set (users (w_db w))" "u_Email user = email"
    "u_Tenant_ID user = t_ID tenant" "w1 = pop w" by auto
  note body = assms(1)[unfolded RequestResetPassword_def t option.case attempt_Ok[of "users_FindByEmail email (t_ID tenant)", OF f]]
  obtain rg w2 where g0: "GeneratePasswordResetToken (u_ID user) (t_ID tenant) (sv_tokenSecret S) w1 = (rg, w2)" by fastforce
  have "keeps (committed_is (w_db w1)) (GeneratePasswordResetToken (u_ID user) (t_ID tenant) (sv_tokenSecret S))"
    by (intro keeps_intros)
  from keepsD[OF this g0] u(4) have "w_db w2 = w_db w" by (simp add: committed_is_def)
  with body g0 assms(2) obtain plain p where
    g: "GeneratePasswordResetToken (u_ID user) (t_ID tenant) (sv_tokenSecret S) w1 = (Ok (plain, p), w2)"
    by (cases rg) auto
  from g have p: "pr_UserID p = u_ID user" "pr_TenantID p = t_ID tenant" "pr_TokenHash p = HashToken plain (sv_tokenSecret S)"
    "pr_ExpiresAt p = w_now w + 1 * Hour" "w_db w2 = w_db w"
    by (auto simp: GeneratePasswordResetToken_Ok_iff resetTTL_def u(4))
  from body g assms(2) p(5) obtain i us where i: "w_uuids w2 = i # us"
    by (cases "w_uuids w2") (auto simp: uuid_NewV7_def bindM_def attempt_def)
  let ?e = "new_event i EmailPasswordResetRequested
      (EmailContextJSON \<lparr>ep_Tenant = t_TenantName tenant, ep_UserID = u_ID user, ep_Email = u_Email user,
         ep_Username = None, ep_EventID = i, ep_IP = ip,
         ep_PayloadData = PasswordResetRequestedPayload (sv_app_url S @ ''/auth/reset-password?t='' @ plain)\<rparr>)
      StatusPending (w_now w2 + 5 * Minute) (w_now w2)" and ?w3 = "tick (w2\<lparr>w_uuids := us\<rparr>)"
  have tx: "withTx (bindM (refresh_CreateResetTokenTx Tx p) (\<lambda>_. bindM (outbox_CreateTx Tx ?e) (\<lambda>_.
      bindM (refresh_RevokePreviousResetTokens Tx (t_ID tenant) (u_ID user)) (\<lambda>_.
      attempt Commit (\<lambda>_. ret ()) (\<lambda>_. ret ()))))) ?w3 = (r, w')"
    using body g i
    by (simp add: Let_def uuid_NewV7_def bindM_def[of uuid_NewV7] bindM_def[of time_Now] attempt_def[of uuid_NewV7]
        attempt_def[of time_Now] time_Now_eq)
  have e: "reset_event S user plain ?e" by (simp add: reset_event_def)
  from request_tx_run[OF tx] p(5) assms(2) obtain at where "is_Ok r"
    "w_db w' = revoke_resets (u_ID user) (t_ID tenant) (w_now ?w3) at (add_event ?e (add_reset p (w_db w)))" by auto
  moreover have "w_ticks w = [] \<longrightarrow> w_now ?w3 = w_now w"
    using g u(4) by (auto simp: GeneratePasswordResetToken_Ok_iff tick_quiet)
  ultimately show ?thesis using t u(1-3) p(1-4) e by blast
qed

text \<open>
  Asking for a reset link never fails in a way that leaves something behind: either no table changes, or nil
  is returned and the account of that address has one more reset token, valid for an hour, whose text is in the
  link of a pending event of the user; every earlier pending token of the user is marked revoked, and users and
  sessions are untouched.
\<close>

lemma request_reset_effect:
  assumes "RequestResetPassword S ctx email ip w = (r, w')"
  shows "w_db w' = w_db w \<or> (is_Ok r \<and> (\<exists>tenant user plain row e t. TenantFromContext ctx = Some tenant \<and>
    user \<in> set (users (w_db w)) \<and> u_Email user = email \<and> u_Tenant_ID user = t_ID tenant \<and>
    row \<in> set (reset_tokens (w_db w')) \<and> pw_token_hash row = HashToken plain (sv_tokenSecret S) \<and>
    pw_user_id row = u_ID user \<and> pw_used_at row = None \<and> pw_expires_at row = w_now w + 1 * Hour \<and>
    length (reset_tokens (w_db w')) = length (reset_tokens (w_db w)) + 1 \<and>
    e \<in> set (outbox_events (w_db w')) \<and> reset_event S user plain e \<and>
    (\<forall>x \<in> set (reset_tokens (w_db w')). pending_reset (u_ID user) (t_ID tenant) t x \<longrightarrow> pw_revoked_at x \<noteq> None) \<and>
    users (w_db w') = users (w_db w) \<and> refresh_tokens (w_db w') = refresh_tokens (w_db w)))"
proof (cases "w_db w' = w_db w")
  case False
  from RequestReset_run[OF assms False] obtain tenant user plain p e at t where ok: "is_Ok r"
    and u: "TenantFromContext ctx = Some tenant" "user \<in> set (users (w_db w))" "u_Email user = email" "u_Tenant_ID user = t_ID tenant"
    and p: "pr_UserID p = u_ID user" "pr_TokenHash p = HashToken plain (sv_tokenSecret S)" "pr_ExpiresAt p = w_now w + 1 * Hour"
    and e: "reset_event S user plain e"
    and db: "w_db w' = revoke_resets (u_ID user) (t_ID tenant) t at (add_event e (add_reset p (w_db w)))" by blast
  let ?p = "pending_reset (u_ID user) (t_ID tenant) t" and ?e = "e\<lparr>oe_LockedAt := None, oe_LockedUntil := None, oe_LockedBy := None\<rparr>"
  let ?row = "if ?p (reset_row_of p) then (reset_row_of p)\<lparr>pw_revoked_at := Some at\<rparr> else reset_row_of p"
  have row: "?row \<in> set (reset_tokens (w_db w'))" "pw_token_hash ?row = HashToken plain (sv_tokenSecret S)"
    "pw_user_id ?row = u_ID user" "pw_used_at ?row = None" "pw_expires_at ?row = w_now w + 1 * Hour"
    using p by (auto simp: db reset_row_of_def)
  have "pw_revoked_at x \<noteq> None" if "x \<in> set (reset_tokens (w_db w'))" "?p x" for x
    using that unfolding db by (auto elim!: update_where_hit)
  moreover have "?e \<in> set (outbox_events (w_db w'))" "reset_event S user plain ?e"
    using e by (auto simp: db add_event_def reset_event_def)
  moreover have "length (reset_tokens (w_db w')) = length (reset_tokens (w_db w)) + 1"
    "users (w_db w') = users (w_db w)" "refresh_tokens (w_db w') = refresh_tokens (w_db w)" by (simp_all add: db)
  ultimately show ?thesis using ok u row by blast
qed simp

lemma ResetPassword_quiet:
  assumes "w_faults w = []" "TenantFromContext ctx = Some tenant"
    and f: "List.find (reset_valid (HashToken raw (sv_tokenSecret S)) (t_ID tenant) (w_now w)) (reset_tokens (w_db w)) = Some row"
    and u: "pw_user_id row \<in> user_ids (w_db w)"
    and "w_rand w = b # bs" "bcrypt_Generate (sv_lib S) (take 16 (b @ replicate 16 0)) (bytes_of pw) bcryptCost = Inr h"
    and "w_uuids w = i # us" "i \<notin> oe_ID ` set (outbox_events (w_db w))"
  shows "fst (ResetPassword S ctx raw pw ip w) = Ok ()"
proof -
  have "\<exists>v. List.find (\<lambda>v. u_ID v = pw_user_id row) (users d) = Some v" if "users d = users (w_db w)" for d
    using u that by (cases "List.find (\<lambda>v. u_ID v = pw_user_id row) (users d)") (auto simp: find_None_iff2 user_ids_def)
  then obtain v where v: "List.find (\<lambda>v. u_ID v = pw_user_id row) (users (w_db w)) = Some v" by blast
  from assms(1,2,5-8) f v show ?thesis
    by (simp add: ResetPassword_def withTx_eq bindM_def attempt_def mapErr_def refresh_FindValidResetTokenTx_def QueryRow_Tx
      QueryRow_Conn next_ok_def HashPassword_def rand_Read_def users_ChangePassword_def ExecContext_Tx exec_tx_def
      upd_user_def refresh_MarkResetTokenUsedTx_def time_Now_eq upd_reset_def refresh_RevokeAllForUser_def ExecContext_Conn
      exec_conn_def upd_refresh_def users_FindByID_def uuid_NewV7_def outbox_CreateTx_def insert_outbox_def outbox_statuses_def
      Commit_eq apply_stmt_def StatusPending_def)
qed

lemma pending_row_found:
  assumes "\<forall>x \<in> set rs. pw_token_hash x \<noteq> h" "pw_token_hash r = h" "pw_tenant_id r = Some tn" "pw_used_at r = None" "t < pw_expires_at r"
  shows "List.find (reset_valid h tn t) (rs @ [r]) = Some r"
proof -
  have "List.find (reset_valid h tn t) rs = None" using assms(1) by (auto simp: find_None_iff2 reset_valid_def)
  with assms(2-5) show ?thesis by (simp add: find_append reset_valid_def)
qed

text \<open>
  C22: Revocation of reset tokens has no effect. When a request for a reset link was stored (and no time passed
  meanwhile), the token it just created is itself marked revoked, and yet its link resets the password during the
  next hour.
\<close>

theorem revoked_reset_link_works:
  assumes "RequestResetPassword S ctx email ip w = (r, w1)" "w_db w1 \<noteq> w_db w" "w_ticks w = []"
  shows "\<exists>plain row user e. row \<in> set (reset_tokens (w_db w1)) \<and> pw_token_hash row = HashToken plain (sv_tokenSecret S) \<and>
    pw_revoked_at row \<noteq> None \<and> e \<in> set (outbox_events (w_db w1)) \<and> reset_event S user plain e \<and>
    (\<forall>w2 pw ip' b bs h i us. w_db w2 = w_db w1 \<and> w_faults w2 = [] \<and> w_now w2 < w_now w + 1 * Hour \<and>
       (\<forall>x \<in> set (reset_tokens (w_db w)). pw_token_hash x \<noteq> pw_token_hash row) \<and>
       w_rand w2 = b # bs \<and> bcrypt_Generate (sv_lib S) (take 16 (b @ replicate 16 0)) (bytes_of pw) 12 = Inr h \<and>
       w_uuids w2 = i # us \<and> i \<notin> oe_ID ` set (outbox_events (w_db w2)) \<longrightarrow>
       fst (ResetPassword S ctx plain pw ip' w2) = Ok ())"
proof -
  from RequestReset_run[OF assms(1,2)] assms(3) obtain tenant user plain p e at where
    t: "TenantFromContext ctx = Some tenant" and u: "user \<in> set (users (w_db w))"
    and p: "pr_UserID p = u_ID user" "pr_TenantID p = t_ID tenant" "pr_TokenHash p = HashToken plain (sv_tokenSecret S)"
      "pr_ExpiresAt p = w_now w + 1 * Hour"
    and e: "reset_event S user plain e"
    and db: "w_db w1 = revoke_resets (u_ID user) (t_ID tenant) (w_now w) at (add_event e (add_reset p (w_db w)))" by auto
  let ?h = "HashToken plain (sv_tokenSecret S)" and ?e = "e\<lparr>oe_LockedAt := None, oe_LockedUntil := None, oe_LockedBy := None\<rparr>"
  let ?row = "(reset_row_of p)\<lparr>pw_revoked_at := Some at\<rparr>"
  have pend: "pending_reset (u_ID user) (t_ID tenant) (w_now w) (reset_row_of p)"
    using p by (simp add: pending_reset_def reset_row_of_def duration_defs)
  then have toks: "reset_tokens (w_db w1) = update_where (pending_reset (u_ID user) (t_ID tenant) (w_now w))
      (\<lambda>r. r\<lparr>pw_revoked_at := Some at\<rparr>) (reset_tokens (w_db w)) @ [?row]" by (simp add: db)
  have row: "pw_token_hash ?row = ?h" "pw_tenant_id ?row = Some (t_ID tenant)" "pw_used_at ?row = None"
    "pw_expires_at ?row = w_now w + 1 * Hour" "pw_user_id ?row = u_ID user" using p by (simp_all add: reset_row_of_def)
  have works: "fst (ResetPassword S ctx plain pw ip' w2) = Ok ()"
    if w2: "w_db w2 = w_db w1" "w_faults w2 = []" "w_now w2 < w_now w + 1 * Hour"
      and new: "\<forall>x \<in> set (reset_tokens (w_db w)). pw_token_hash x \<noteq> ?h"
      and rnd: "w_rand w2 = b # bs" "bcrypt_Generate (sv_lib S) (take 16 (b @ replicate 16 0)) (bytes_of pw) 12 = Inr h"
      and i: "w_uuids w2 = i # us" "i \<notin> oe_ID ` set (outbox_events (w_db w2))" for w2 pw ip' b bs h i us
  proof (rule ResetPassword_quiet[OF w2(2) t _ _ rnd(1) _ i])
    show "List.find (reset_valid ?h (t_ID tenant) (w_now w2)) (reset_tokens (w_db w2)) = Some ?row"
      unfolding w2(1) toks by (rule pending_row_found) (use new row w2(3) in \<open>auto elim!: update_whereE split: if_splits\<close>)
    have "user_ids (w_db w2) = user_ids (w_db w)" by (simp add: user_ids_def w2(1) db)
    with u row(5) show "pw_user_id ?row \<in> user_ids (w_db w2)" by (simp add: user_ids_def)
    show "bcrypt_Generate (sv_lib S) (take 16 (b @ replicate 16 0)) (bytes_of pw) bcryptCost = Inr h"
      using rnd(2) by (simp add: bcryptCost_def)
  qed
  moreover have "?e \<in> set (outbox_events (w_db w1))" "reset_event S user plain ?e"
    using e by (auto simp: db add_event_def reset_event_def)
  moreover have "?row \<in> set (reset_tokens (w_db w1))" "pw_revoked_at ?row \<noteq> None" by (simp_all add: toks)
  ultimately show ?thesis using row(1)
    by (intro exI[of _ plain] exI[of _ ?row] exI[of _ user] exI[of _ ?e]) (auto intro: works)
qed

lemma sample_request:
  assumes "fs = [] \<or> fs = [None, None, None, None, None, Some ''connection lost'']"
  shows "fst (RequestResetPassword sample_S acme_ctx ''a@b'' [] (big_world\<lparr>w_faults := fs\<rparr>)) = Ok () \<and>
    length (reset_tokens (w_db (snd (RequestResetPassword sample_S acme_ctx ''a@b'' [] (big_world\<lparr>w_faults := fs\<rparr>))))) =
      (if fs = [] then 1 else 0) \<and>
    oe_ID ` set (outbox_events (w_db (snd (RequestResetPassword sample_S acme_ctx ''a@b'' [] (big_world\<lparr>w_faults := fs\<rparr>))))) \<subseteq> {11}"
proof -
  let ?w = "big_world\<lparr>w_faults := fs\<rparr>"
  have f: "users_FindByEmail ''a@b'' 3 ?w = (Ok sample_user, pop ?w)"
    using assms by (auto simp: users_FindByEmail_def QueryRow_Conn next_ok_def sample_db_def)
      (auto simp: sample_user_def)
  have u: "u_ID sample_user = 7" "u_Email sample_user = ''a@b''" by (simp_all add: sample_user_def)
  have db: "user_ids sample_db = {7}" "reset_tokens sample_db = []" "outbox_events sample_db = []"
    by (simp_all add: user_ids_def sample_db_def sample_user_def empty_db_def)
  show ?thesis
    using assms
    by (auto simp: RequestResetPassword_def f u db GeneratePasswordResetToken_def bindM_def attempt_def rand_Read_def
        time_Now_eq tick_quiet uuid_NewV7_def Let_def withTx_eq next_ok_def refresh_CreateResetTokenTx_def ExecContext_Tx
        exec_tx_def insert_reset_def outbox_CreateTx_def insert_outbox_def outbox_statuses_def StatusPending_def
        refresh_RevokePreviousResetTokens_def upd_reset_def Commit_eq Rollback_def)
qed

lemma request_reset_effect_witness:
  "\<exists>r w'. RequestResetPassword sample_S acme_ctx ''a@b'' [] big_world = (r, w') \<and> is_Ok r \<and>
     length (reset_tokens (w_db w')) = 1"
proof -
  obtain r w' where run: "RequestResetPassword sample_S acme_ctx ''a@b'' [] big_world = (r, w')" by fastforce
  have "big_world\<lparr>w_faults := []\<rparr> = big_world" by (simp add: big_world_def sample_world_def mk_world_def)
  with sample_request[of "[]"] run have "length (reset_tokens (w_db w')) = 1" by simp
  moreover from this have "w_db w' \<noteq> sample_db" by (auto simp: sample_db_def empty_db_def)
  ultimately show ?thesis using request_reset_effect[OF run] run by auto
qed

lemma revoked_reset_link_works_witness:
  "\<exists>r w1 plain. RequestResetPassword sample_S acme_ctx ''a@b'' [] big_world = (r, w1) \<and>
     (\<exists>row \<in> set (reset_tokens (w_db w1)). pw_revoked_at row \<noteq> None) \<and>
     fst (ResetPassword sample_S acme_ctx plain ''secret'' [] (big_world\<lparr>w_db := w_db w1, w_uuids := [99]\<rparr>)) = Ok ()"
proof -
  obtain r w1 where run: "RequestResetPassword sample_S acme_ctx ''a@b'' [] big_world = (r, w1)" by fastforce
  have "big_world\<lparr>w_faults := []\<rparr> = big_world" by (simp add: big_world_def sample_world_def mk_world_def)
  with sample_request[of "[]"] run have "length (reset_tokens (w_db w1)) = 1"
    and ev: "99 \<notin> oe_ID ` set (outbox_events (w_db w1))" by auto
  then have ne: "w_db w1 \<noteq> w_db big_world" by (auto simp: sample_db_def empty_db_def)
  let ?w2 = "big_world\<lparr>w_db := w_db w1, w_uuids := [99]\<rparr>"
  from revoked_reset_link_works[OF run ne] obtain plain row where
    row: "row \<in> set (reset_tokens (w_db w1))" "pw_revoked_at row \<noteq> None"
    and works: "\<forall>w2 pw ip' b bs h i us. w_db w2 = w_db w1 \<and> w_faults w2 = [] \<and> w_now w2 < w_now big_world + 1 * Hour \<and>
       (\<forall>x \<in> set (reset_tokens (w_db big_world)). pw_token_hash x \<noteq> pw_token_hash row) \<and>
       w_rand w2 = b # bs \<and> bcrypt_Generate (sv_lib sample_S) (take 16 (b @ replicate 16 0)) (bytes_of pw) 12 = Inr h \<and>
       w_uuids w2 = i # us \<and> i \<notin> oe_ID ` set (outbox_events (w_db w2)) \<longrightarrow>
       fst (ResetPassword sample_S acme_ctx plain pw ip' w2) = Ok ()" by auto
  have "fst (ResetPassword sample_S acme_ctx plain ''secret'' [] ?w2) = Ok ()"
    using works[rule_format, of ?w2 "[1]" "[[2], [3], [4], [5], [6]]" "''secret''" "hex_EncodeToString (bytes_of ''secret'')" 99 "[]" "[]"] ev
    by (simp add: duration_defs sample_db_def empty_db_def)
  with run row show ?thesis by blast
qed

text \<open>
  A request whose commit fails is still answered with nil although nothing was stored: no token, no event.
\<close>

lemma request_reset_hides_commit_failure:
  "\<exists>w w'. RequestResetPassword sample_S acme_ctx ''a@b'' [] w = (Ok (), w') \<and> sample_user \<in> set (users (w_db w)) \<and>
     u_Email sample_user = ''a@b'' \<and> reset_tokens (w_db w') = reset_tokens (w_db w)"
proof -
  let ?fs = "[None, None, None, None, None, Some ''connection lost'']"
  let ?w = "big_world\<lparr>w_faults := ?fs\<rparr>"
  from sample_request[of ?fs] show ?thesis
    by (intro exI[of _ ?w] exI[of _ "snd (RequestResetPassword sample_S acme_ctx ''a@b'' [] ?w)"])
      (simp add: prod_eq_iff sample_db_def sample_user_def empty_db_def)
qed

section \<open>The end of all sessions\<close>

lemma RevokeAll_Ok:
  assumes "RevokeAll ctx i w = (Ok x, w')"
  shows "\<exists>tenant. TenantFromContext ctx = Some tenant \<and>
    w_db w' = revoke_rows (of_user i (t_ID tenant)) (w_now w) (w_db w)"
  using assms by (auto simp: RevokeAll_def RevokeAllForUser_Ok split: option.splits)

text \<open>
  After \<^verbatim>\<open>RevokeAll\<close> no refresh token of that user in that tenant can be exchanged any more: whatever token is
  presented next, a refresh that succeeds is for another user. Tokens of other users and tenants are unchanged.
\<close>

lemma revoke_all_ends_sessions:
  assumes "RevokeAll ctx i w = (Ok (), w1)" "w_db w2 = w_db w1" "rotateHelper S ctx tok w2 = (Ok (plain, model), w3)"
  shows "rt_UserID model \<noteq> i \<and> users (w_db w1) = users (w_db w) \<and>
    (\<forall>x \<in> set (refresh_tokens (w_db w)). rr_user_id x \<noteq> i \<longrightarrow> x \<in> set (refresh_tokens (w_db w1)))"
proof -
  from RevokeAll_Ok[OF assms(1)] obtain tenant where t: "TenantFromContext ctx = Some tenant"
    and db: "w_db w1 = revoke_rows (of_user i (t_ID tenant)) (w_now w) (w_db w)" by blast
  from rotateHelper_Ok[OF assms(3)] t obtain r where r: "find_refresh (HashToken tok (sv_tokenSecret S)) (t_ID tenant) (w_db w1) = Some r"
    "rr_revoked_at r = None" "rt_UserID model = rr_user_id r" by (auto simp: rotated_def assms(2))
  from find_refresh_Some[OF r(1)] have mem: "r \<in> set (refresh_tokens (w_db w1))" "rr_tenant_id r = Some (t_ID tenant)" by auto
  have "rr_user_id r \<noteq> i"
  proof
    assume "rr_user_id r = i"
    with mem(2) r(2) have "of_user i (t_ID tenant) r" by (simp add: of_user_def)
    with mem(1) db obtain y where "r = y\<lparr>rr_revoked_at := Some (w_now w)\<rparr>" by (auto elim: update_where_hit)
    with r(2) show False by simp
  qed
  moreover have "x \<in> set (refresh_tokens (w_db w1))" if "x \<in> set (refresh_tokens (w_db w))" "rr_user_id x \<noteq> i" for x
    using that by (auto simp: db of_user_def intro!: update_row_other)
  ultimately show ?thesis using r(3) by (simp add: db)
qed

lemma revoke_all_ends_sessions_witness:
  "\<exists>w1 plain model w3. RevokeAll acme_ctx 8 (session_world None) = (Ok (), w1) \<and>
     rotateHelper sample_S acme_ctx ''tok'' w1 = (Ok (plain, model), w3) \<and> rt_UserID model \<noteq> 8"
proof -
  have r: "RevokeAll acme_ctx 8 (session_world None) = (Ok (), session_world None)"
    by (simp add: RevokeAll_def refresh_RevokeAllForUser_def ExecContext_Conn exec_conn_def next_ok_def upd_refresh_def
        session_world_def sample_world_def mk_world_def pop_def)
  obtain plain model w3 where run: "rotateHelper sample_S acme_ctx ''tok'' (session_world None) = (Ok (plain, model), w3)"
    using session_rotates by blast
  from revoke_all_ends_sessions[OF r refl run] r run show ?thesis by blast
qed

end
