(* ===== verification/Broker.thy ===== *)
theory Broker
  imports World
begin

text \<open>
  \<^verbatim>\<open>internal/broker\<close>: publishing to a RabbitMQ exchange with publisher confirmations.
  The first part is what one caller of \<^verbatim>\<open>Publish\<close> sees. The second part is the protocol
  between the goroutines: any number of callers of \<^verbatim>\<open>Publish\<close>, the goroutine that runs
  \<^verbatim>\<open>confirmationLoop\<close>, and \<^verbatim>\<open>Close\<close>, as a step relation over the shared fields of the
  \<^verbatim>\<open>RabbitMQ\<close> struct and the AMQP channel, of which the documented numbering of messages is used.
\<close>

section \<open>One publish\<close>

definition err_closed_publish :: err where
  "err_closed_publish = ErrOther ''broker: publish called on closed connection''"

definition err_publish :: "string \<Rightarrow> err \<Rightarrow> err" where
  "err_publish key e = ErrOther (''broker: failed to publish to '' @ dquote key @ '': '' @ err_Error e)"

definition err_nacked :: "string \<Rightarrow> err" where
  "err_nacked key = ErrOther (''broker: broker nacked message for '' @ dquote key)"

definition err_timeout :: "string \<Rightarrow> err" where
  "err_timeout key = ErrOther (''broker: timed out waiting for confirmation for '' @ dquote key)"

definition err_cancelled :: "string \<Rightarrow> err \<Rightarrow> err" where
  "err_cancelled key e =
     ErrOther (''broker: publish to '' @ dquote key @ '' cancelled: '' @ err_Error e)"

definition deliver :: "bool \<Rightarrow> EventEnvelope \<Rightarrow> world \<Rightarrow> world" where
  "deliver b env w = (if b then w\<lparr>w_delivered := w_delivered w @ [env]\<rparr> else w)"

definition next_pub :: "pub_outcome M" where
  "next_pub w = (case w_pub w of [] \<Rightarrow> (Ok PubAck, w) | p # ps \<Rightarrow> (Ok p, w\<lparr>w_pub := ps\<rparr>))"

text \<open>
  The routing key is the event type. A publish that is not confirmed in time returns after the
  ten seconds of its timer.
\<close>

definition confirmTimeout :: duration where "confirmTimeout = 10 * Second"

definition broker_Publish :: "EventEnvelope \<Rightarrow> unit M" where
  "broker_Publish env =
     bindM (gets w_broker_closed) (\<lambda>closed.
     if closed then throw err_closed_publish
     else bindM time_Now (\<lambda>_. bindM next_pub (\<lambda>out.
       let routingKey = en_EventType env in
       case out of
         PubAck \<Rightarrow> modify (deliver True env)
       | PubRefused e \<Rightarrow> throw (err_publish routingKey e)
       | PubNack \<Rightarrow> throw (err_nacked routingKey)
       | PubTimeout b \<Rightarrow>
           bindM (modify (\<lambda>w. deliver b env (w\<lparr>w_now := w_now w + confirmTimeout\<rparr>)))
             (\<lambda>_. throw (err_timeout routingKey))
       | PubCancelled e b \<Rightarrow>
           bindM (modify (deliver b env)) (\<lambda>_. throw (err_cancelled routingKey e))
       | PubLost s b \<Rightarrow> bindM (modify (deliver b env)) (\<lambda>_. throw (ErrOther s)))))"

text \<open>
  \<^verbatim>\<open>Close\<close>: only the first call does anything. The arguments are the outcomes of closing the
  AMQP channel and the connection; both are closed before an error is returned.
\<close>

definition broker_Close :: "err option \<Rightarrow> err option \<Rightarrow> unit M" where
  "broker_Close chErr connErr =
     bindM (gets w_broker_closed) (\<lambda>closed.
     if closed then ret ()
     else bindM (modify (\<lambda>w. w\<lparr>w_broker_closed := True\<rparr>)) (\<lambda>_.
       case chErr of
         Some e \<Rightarrow> throw (ErrOther (''broker: error closing channel: '' @ err_Error e))
       | None \<Rightarrow>
           (case connErr of
              Some e \<Rightarrow> throw (ErrOther (''broker: error closing connection: '' @ err_Error e))
            | None \<Rightarrow> ret ())))"

text \<open>
  \<^verbatim>\<open>NewRabbitMQ\<close>: the outcomes of the four calls to the AMQP library; the result and what was
  closed again on the way out.
\<close>

datatype closed_part = ClosedChannel | ClosedConn

definition NewRabbitMQ ::
  "err option \<Rightarrow> err option \<Rightarrow> err option \<Rightarrow> err option \<Rightarrow> (err, unit) res \<times> closed_part list"
where
  "NewRabbitMQ dial channel exchangeDeclare confirm =
     (case dial of
        Some e \<Rightarrow> (Err e, [])
      | None \<Rightarrow>
          (case channel of
             Some e \<Rightarrow> (Err e, [ClosedConn])
           | None \<Rightarrow>
               (case exchangeDeclare of
                  Some e \<Rightarrow> (Err e, [ClosedChannel, ClosedConn])
                | None \<Rightarrow>
                    (case confirm of
                       Some e \<Rightarrow> (Err e, [ClosedChannel, ClosedConn])
                     | None \<Rightarrow> (Ok (), [])))))"

lemma deliver_simps [simp]:
  "w_db (deliver b env w) = w_db w" "w_tx (deliver b env w) = w_tx w"
  "w_faults (deliver b env w) = w_faults w" "w_pub (deliver b env w) = w_pub w"
  "w_now (deliver b env w) = w_now w" "w_broker_closed (deliver b env w) = w_broker_closed w"
  "w_ticks (deliver b env w) = w_ticks w"
  by (simp_all add: deliver_def)

lemma deliver_delivered:
  "w_delivered (deliver b env w) = w_delivered w @ (if b then [env] else [])"
  by (simp add: deliver_def)

text \<open>A successful publish has delivered exactly its envelope; it changes no table.\<close>

lemma broker_Publish_Ok:
  assumes "broker_Publish env w = (Ok x, w')"
  shows "w_delivered w' = w_delivered w @ [env] \<and> \<not> w_broker_closed w"
  using assms
  by (auto simp: broker_Publish_def bindM_def attempt_def time_Now_eq next_pub_def Let_def
      deliver_delivered split: if_splits pub_outcome.splits list.splits)

lemma broker_Publish_frame:
  assumes "broker_Publish env w = (r, w')"
  shows "w_db w' = w_db w \<and> w_tx w' = w_tx w \<and> w_faults w' = w_faults w \<and> w_now w \<le> w_now w' \<and>
    w_broker_closed w' = w_broker_closed w \<and> (\<exists>ds. w_delivered w' = w_delivered w @ ds \<and> set ds \<subseteq> {env})"
  using assms tick_mono[of w]
  by (auto simp: broker_Publish_def bindM_def attempt_def time_Now_eq next_pub_def Let_def
      deliver_delivered confirmTimeout_def Second_def
      split: if_splits pub_outcome.splits list.splits)

lemma keeps_publish [keeps_intros]:
  "keeps (db_inv J) (broker_Publish env)"
  "keeps (committed_is d) (broker_Publish env)"
  using broker_Publish_frame[OF prod.collapse[symmetric], of env]
  by (auto simp: keeps_def db_inv_def committed_is_def)

lemma broker_Publish_no_panic: "broker_Publish env w \<noteq> (Panic s, w')"
  by (auto simp: broker_Publish_def bindM_def attempt_def time_Now_eq next_pub_def Let_def
      split: if_splits pub_outcome.splits list.splits)

section \<open>The confirmation protocol\<close>

text \<open>
  Each call of \<^verbatim>\<open>Publish\<close> has a number; it is also the name of its result channel
  (\<^verbatim>\<open>make(chan error, 1)\<close>). Where a call is: past the check of \<^verbatim>\<open>closed\<close> (\<open>Entered\<close>); holding
  \<^verbatim>\<open>publishMu\<close>, with the number that \<^verbatim>\<open>GetNextPublishSeqNo\<close> returned (\<open>Numbered\<close>), with its entry in
  the map (\<open>Registered\<close>), after \<^verbatim>\<open>PublishWithContext\<close> succeeded (\<open>Published\<close>) or failed (\<open>Refused\<close>);
  waiting in its \<^verbatim>\<open>select\<close> (\<open>Waiting\<close>); about to delete its entry and to return an error
  (\<open>Leaving\<close>: refused, timed out or cancelled); or returned.
\<close>

type_synonym seqNo = "64 word"

datatype pub_pc =
    Entered
  | Numbered seqNo
  | Registered seqNo
  | Published seqNo
  | Refused seqNo err
  | Waiting seqNo
  | Leaving seqNo err
  | Returned "err option"

record pendingPublish =
  pp_routingKey :: string
  pp_result :: nat

text \<open>
  \<open>rq_handling\<close> is the local state of \<^verbatim>\<open>handleConfirmation\<close> between removing an entry and
  sending its result. \<open>rq_published\<close>, \<open>rq_wire\<close> and \<open>rq_confirms\<close> are the AMQP channel in confirm mode: how many messages were
  sent on it, whose message each number is, and the confirmations that wait to be read. The last two fields record
  history: how many values a result channel has been sent, and the message numbers that the server acknowledged.
\<close>

record rabbit =
  rq_pending :: "(seqNo \<times> pendingPublish) list"
  rq_chan :: "nat \<Rightarrow> err option list"
  rq_calls :: "nat \<Rightarrow> (string \<times> pub_pc) option"
  rq_publishMu :: "nat option"
  rq_handling :: "(nat \<times> err option) option"
  rq_loop :: bool
  rq_closed :: bool
  rq_published :: seqNo
  rq_wire :: "seqNo \<rightharpoonup> nat"
  rq_confirms :: "(seqNo \<times> bool) list"
  rq_sent :: "nat \<Rightarrow> nat"
  rq_acked :: "seqNo set"

definition init_rabbit :: rabbit where
  "init_rabbit = \<lparr>rq_pending = [], rq_chan = (\<lambda>_. []), rq_calls = Map.empty, rq_publishMu = None,
     rq_handling = None, rq_loop = True, rq_closed = False, rq_published = 0, rq_wire = Map.empty,
     rq_confirms = [], rq_sent = (\<lambda>_. 0), rq_acked = {}\<rparr>"

text \<open>The Go map: \<^verbatim>\<open>delete\<close>, assignment, and sending on a result channel.\<close>

definition pending_delete :: "seqNo \<Rightarrow> rabbit \<Rightarrow> rabbit" where
  "pending_delete q r = r\<lparr>rq_pending := filter (\<lambda>(k, _). k \<noteq> q) (rq_pending r)\<rparr>"

definition pending_put :: "seqNo \<Rightarrow> pendingPublish \<Rightarrow> rabbit \<Rightarrow> rabbit" where
  "pending_put q p r = r\<lparr>rq_pending := (q, p) # filter (\<lambda>(k, _). k \<noteq> q) (rq_pending r)\<rparr>"

definition chan_send :: "nat \<Rightarrow> err option \<Rightarrow> rabbit \<Rightarrow> rabbit" where
  "chan_send c v r =
     r\<lparr>rq_chan := (rq_chan r)(c := rq_chan r c @ [v]), rq_sent := (rq_sent r)(c := rq_sent r c + 1)\<rparr>"

definition set_pc :: "nat \<Rightarrow> string \<Rightarrow> pub_pc \<Rightarrow> rabbit \<Rightarrow> rabbit" where
  "set_pc c key pc r = r\<lparr>rq_calls := (rq_calls r)(c \<mapsto> (key, pc))\<rparr>"

definition failAllPending :: "err \<Rightarrow> rabbit \<Rightarrow> rabbit" where
  "failAllPending cause r =
     (fold (\<lambda>(_, p). chan_send (pp_result p) (Some cause)) (rq_pending r) r)\<lparr>rq_pending := []\<rparr>"

definition take_confirmation :: "seqNo \<Rightarrow> bool \<Rightarrow> rabbit \<Rightarrow> rabbit" where
  "take_confirmation tag ack r =
     (case map_of (rq_pending r) tag of
        None \<Rightarrow> pending_delete tag r
      | Some p \<Rightarrow>
          (pending_delete tag r)\<lparr>
            rq_handling := Some (pp_result p, if ack then None else Some (err_nacked (pp_routingKey p)))\<rparr>)"

text \<open>
  The AMQP channel: \<^verbatim>\<open>GetNextPublishSeqNo\<close> is one more than the number of messages sent; a message that is sent gets that
  number, one that is refused does not use it up. The server confirms messages that were sent, with their numbers,
  positively or negatively, in any order. The counter stays below its largest value: \<open>2\<^sup>6\<^sup>4\<close> messages are not reached.
\<close>

definition wire_send :: "nat \<Rightarrow> rabbit \<Rightarrow> rabbit" where
  "wire_send c r = r\<lparr>rq_published := rq_published r + 1, rq_wire := (rq_wire r)(rq_published r + 1 \<mapsto> c)\<rparr>"

definition server_confirm :: "seqNo \<Rightarrow> bool \<Rightarrow> rabbit \<Rightarrow> rabbit" where
  "server_confirm tag ack r =
     r\<lparr>rq_confirms := rq_confirms r @ [(tag, ack)], rq_acked := (if ack then insert tag (rq_acked r) else rq_acked r)\<rparr>"

inductive rstep :: "rabbit \<Rightarrow> rabbit \<Rightarrow> bool" where
  publish_on_closed:
    "rq_closed r \<Longrightarrow> rq_calls r c = None \<Longrightarrow>
     rstep r (set_pc c key (Returned (Some err_closed_publish)) r)"
| publish_enter:
    "\<not> rq_closed r \<Longrightarrow> rq_calls r c = None \<Longrightarrow> rstep r (set_pc c key Entered r)"
| publish_number:
    "rq_calls r c = Some (key, Entered) \<Longrightarrow> rq_publishMu r = None \<Longrightarrow> rq_published r + 1 \<noteq> 0 \<Longrightarrow>
     rstep r (set_pc c key (Numbered (rq_published r + 1)) (r\<lparr>rq_publishMu := Some c\<rparr>))"
| publish_register:
    "rq_calls r c = Some (key, Numbered q) \<Longrightarrow>
     rstep r (set_pc c key (Registered q) (pending_put q \<lparr>pp_routingKey = key, pp_result = c\<rparr> r))"
| publish_sent:
    "rq_calls r c = Some (key, Registered q) \<Longrightarrow> rstep r (set_pc c key (Published q) (wire_send c r))"
| publish_refused:
    "rq_calls r c = Some (key, Registered q) \<Longrightarrow> rstep r (set_pc c key (Refused q (err_publish key e)) r)"
| unlock_sent:
    "rq_calls r c = Some (key, Published q) \<Longrightarrow> rstep r (set_pc c key (Waiting q) (r\<lparr>rq_publishMu := None\<rparr>))"
| unlock_refused:
    "rq_calls r c = Some (key, Refused q e) \<Longrightarrow> rstep r (set_pc c key (Leaving q e) (r\<lparr>rq_publishMu := None\<rparr>))"
| server_confirms:
    "rq_wire r tag = Some c \<Longrightarrow> rstep r (server_confirm tag ack r)"
| confirmation_take:
    "rq_loop r \<Longrightarrow> rq_handling r = None \<Longrightarrow> rq_confirms r = (tag, ack) # rest \<Longrightarrow>
     rstep r (take_confirmation tag ack (r\<lparr>rq_confirms := rest\<rparr>))"
| confirmation_send:
    "rq_handling r = Some (c, v) \<Longrightarrow> rq_chan r c = [] \<Longrightarrow>
     rstep r (chan_send c v (r\<lparr>rq_handling := None\<rparr>))"
| loop_done:
    "rq_loop r \<Longrightarrow> rq_handling r = None \<Longrightarrow> rq_closed r \<Longrightarrow>
     rstep r ((failAllPending (ErrOther ''broker: connection closed'') r)\<lparr>rq_loop := False\<rparr>)"
| loop_confirms_closed:
    "rq_loop r \<Longrightarrow> rq_handling r = None \<Longrightarrow>
     rstep r ((failAllPending (ErrOther ''broker: confirmation channel closed'') r)\<lparr>rq_loop := False\<rparr>)"
| publish_confirmed:
    "rq_calls r c = Some (key, Waiting q) \<Longrightarrow> rq_chan r c = v # vs \<Longrightarrow>
     rstep r (set_pc c key (Returned v) (r\<lparr>rq_chan := (rq_chan r)(c := vs)\<rparr>))"
| publish_timeout:
    "rq_calls r c = Some (key, Waiting q) \<Longrightarrow> rstep r (set_pc c key (Leaving q (err_timeout key)) r)"
| publish_cancelled:
    "rq_calls r c = Some (key, Waiting q) \<Longrightarrow> rstep r (set_pc c key (Leaving q (err_cancelled key e)) r)"
| publish_leave:
    "rq_calls r c = Some (key, Leaving q e) \<Longrightarrow> rstep r (set_pc c key (Returned (Some e)) (pending_delete q r))"
| close: "rstep r (r\<lparr>rq_closed := True\<rparr>)"

inductive_simps rstep_simps: "rstep r r'"

inductive rreach :: "rabbit \<Rightarrow> bool" where
  rreach_init: "rreach init_rabbit"
| rreach_step: "rreach r \<Longrightarrow> rstep r r' \<Longrightarrow> rreach r'"

text \<open>
  The invariant: an entry of the map belongs to a call that registered it, has not returned and was sent nothing; a
  channel is sent at most one value, so the send of the confirmation loop never blocks; a call that
  holds \<^verbatim>\<open>publishMu\<close> has the number its message will get; an entry under the number of a sent message belongs to the sender of
  that message; and a positive result is only ever passed on to a call whose message was acknowledged.
\<close>

fun entry_pc :: "seqNo \<Rightarrow> pub_pc \<Rightarrow> bool" where
  "entry_pc q (Registered q') = (q = q')"
| "entry_pc q (Published q') = (q = q')"
| "entry_pc q (Refused q' _) = (q = q')"
| "entry_pc q (Waiting q') = (q = q')"
| "entry_pc q (Leaving q' _) = (q = q')"
| "entry_pc q _ = False"

fun early :: "pub_pc \<Rightarrow> bool" where
  "early Entered = True"
| "early (Numbered _) = True"
| "early _ = False"

fun holding :: "pub_pc \<Rightarrow> bool" where
  "holding (Numbered _) = True"
| "holding (Registered _) = True"
| "holding (Published _) = True"
| "holding (Refused _ _) = True"
| "holding _ = False"

fun unsent :: "seqNo \<Rightarrow> pub_pc \<Rightarrow> bool" where
  "unsent q (Numbered q') = (q = q')"
| "unsent q (Registered q') = (q = q')"
| "unsent q _ = False"

definition own_acked :: "rabbit \<Rightarrow> nat \<Rightarrow> bool" where
  "own_acked r c \<longleftrightarrow> (\<exists>tag. rq_wire r tag = Some c \<and> tag \<in> rq_acked r)"

definition entry_ok :: "rabbit \<Rightarrow> seqNo \<Rightarrow> pendingPublish \<Rightarrow> bool" where
  "entry_ok r q p \<longleftrightarrow>
     (\<exists>key pc. rq_calls r (pp_result p) = Some (key, pc) \<and> entry_pc q pc) \<and>
     rq_sent r (pp_result p) = 0 \<and> (\<forall>v. rq_handling r \<noteq> Some (pp_result p, v)) \<and>
     (\<forall>c. rq_wire r q = Some c \<longrightarrow> pp_result p = c) \<and>
     (\<forall>c key. rq_calls r c = Some (key, Registered q) \<longrightarrow> pp_result p = c)"

definition call_ok :: "rabbit \<Rightarrow> nat \<Rightarrow> bool" where
  "call_ok r c \<longleftrightarrow>
     rq_sent r c \<le> 1 \<and> length (rq_chan r c) \<le> rq_sent r c \<and>
     (rq_calls r c = None \<longrightarrow> rq_sent r c = 0) \<and>
     (\<forall>key pc. rq_calls r c = Some (key, pc) \<longrightarrow>
        (early pc \<longrightarrow> rq_sent r c = 0) \<and> (holding pc \<longrightarrow> rq_publishMu r = Some c) \<and>
        (\<forall>q. unsent q pc \<longrightarrow> q = rq_published r + 1 \<and> q \<noteq> 0) \<and> (pc = Returned None \<longrightarrow> own_acked r c)) \<and>
     (None \<in> set (rq_chan r c) \<longrightarrow> own_acked r c)"

definition handling_ok :: "rabbit \<Rightarrow> bool" where
  "handling_ok r \<longleftrightarrow>
     (\<forall>c v. rq_handling r = Some (c, v) \<longrightarrow>
        rq_sent r c = 0 \<and> (\<exists>key pc. rq_calls r c = Some (key, pc) \<and> \<not> early pc) \<and> (v = None \<longrightarrow> own_acked r c))"

definition wire_ok :: "rabbit \<Rightarrow> bool" where
  "wire_ok r \<longleftrightarrow> (\<forall>t c. rq_wire r t = Some c \<longrightarrow> t \<le> rq_published r) \<and>
     (\<forall>(t, ack) \<in> set (rq_confirms r). rq_wire r t \<noteq> None \<and> (ack \<longrightarrow> t \<in> rq_acked r))"

definition rinv :: "rabbit \<Rightarrow> bool" where
  "rinv r \<longleftrightarrow> distinct (map fst (rq_pending r)) \<and>
     (\<forall>(q, p) \<in> set (rq_pending r). entry_ok r q p) \<and> (\<forall>c. call_ok r c) \<and> handling_ok r \<and> wire_ok r"

lemmas rabbit_op_defs = set_pc_def pending_delete_def pending_put_def chan_send_def

lemma rinv_init: "rinv init_rabbit"
  by (simp add: rinv_def call_ok_def handling_ok_def wire_ok_def init_rabbit_def)

lemma rinv_entry: "rinv r \<Longrightarrow> (q, p) \<in> set (rq_pending r) \<Longrightarrow> entry_ok r q p"
  by (auto simp: rinv_def)

lemma rinv_call: "rinv r \<Longrightarrow> call_ok r c"
  by (simp add: rinv_def)

lemma entry_pc_unique: "entry_pc q pc \<Longrightarrow> entry_pc q' pc \<Longrightarrow> q = q'"
  by (cases pc) auto

lemma entry_pc_late: "entry_pc q pc \<Longrightarrow> \<not> early pc"
  by (cases pc) auto

lemma entry_unique:
  "rinv r \<Longrightarrow> (q, p) \<in> set (rq_pending r) \<Longrightarrow> (q', p') \<in> set (rq_pending r) \<Longrightarrow>
     pp_result p = pp_result p' \<Longrightarrow> q = q'"
  using rinv_entry[of r q p] rinv_entry[of r q' p'] entry_pc_unique by (fastforce simp: entry_ok_def)

lemma distinct_fst_filter: "distinct (map fst xs) \<Longrightarrow> distinct (map fst (filter P xs))"
  by (induction xs) auto

lemma rinv_results_distinct:
  assumes "rinv r"
  shows "distinct (map (pp_result \<circ> snd) (rq_pending r))"
proof -
  have "inj_on (pp_result \<circ> snd) (set (rq_pending r))"
  proof (rule inj_onI)
    fix x y assume xy: "x \<in> set (rq_pending r)" "y \<in> set (rq_pending r)"
      "(pp_result \<circ> snd) x = (pp_result \<circ> snd) y"
    have "fst x = fst y"
      using entry_unique[OF assms, of "fst x" "snd x" "fst y" "snd y"] xy by simp
    with assms xy(1,2) show "x = y" by (auto simp: rinv_def dest: distinct_key_inj)
  qed
  with assms show ?thesis by (simp add: rinv_def distinct_map)
qed

text \<open>The number of the next message is not in use.\<close>

lemma word_less_next: "x + 1 \<noteq> 0 \<Longrightarrow> x < x + (1 :: seqNo)"
  by (simp add: word_less_nat_alt unatSuc add.commute[of x])

lemma next_number_fresh:
  assumes "wire_ok r" "rq_published r + 1 \<noteq> 0"
  shows "rq_wire r (rq_published r + 1) = None"
proof (rule ccontr)
  assume "rq_wire r (rq_published r + 1) \<noteq> None"
  with assms(1) have "rq_published r + 1 \<le> rq_published r" by (auto simp: wire_ok_def)
  with word_less_next[OF assms(2)] show False by simp
qed

subsection \<open>The confirmation loop\<close>

lemma fold_send_frame:
  "rq_calls (fold (\<lambda>(_, p). chan_send (pp_result p) v) ps r) = rq_calls r"
  "rq_handling (fold (\<lambda>(_, p). chan_send (pp_result p) v) ps r) = rq_handling r"
  "rq_acked (fold (\<lambda>(_, p). chan_send (pp_result p) v) ps r) = rq_acked r"
  "rq_wire (fold (\<lambda>(_, p). chan_send (pp_result p) v) ps r) = rq_wire r"
  "rq_published (fold (\<lambda>(_, p). chan_send (pp_result p) v) ps r) = rq_published r"
  "rq_confirms (fold (\<lambda>(_, p). chan_send (pp_result p) v) ps r) = rq_confirms r"
  "rq_publishMu (fold (\<lambda>(_, p). chan_send (pp_result p) v) ps r) = rq_publishMu r"
  by (induction ps arbitrary: r) (auto simp: chan_send_def)

lemma fold_send:
  assumes "distinct (map (pp_result \<circ> snd) ps)"
  shows "rq_sent (fold (\<lambda>(_, p). chan_send (pp_result p) v) ps r) c =
      rq_sent r c + (if c \<in> (pp_result \<circ> snd) ` set ps then 1 else 0)"
    and "rq_chan (fold (\<lambda>(_, p). chan_send (pp_result p) v) ps r) c =
      rq_chan r c @ (if c \<in> (pp_result \<circ> snd) ` set ps then [v] else [])"
  using assms by (induction ps arbitrary: r) (auto simp: chan_send_def image_iff)

lemma rinv_failAll:
  assumes "rinv r" "rq_handling r = None"
  shows "rinv ((failAllPending e r)\<lparr>rq_loop := False\<rparr>)"
proof -
  let ?S = "(pp_result \<circ> snd) ` set (rq_pending r)"
  have zero: "rq_sent r c = 0 \<and> (\<exists>key pc. rq_calls r c = Some (key, pc) \<and> \<not> early pc)" if "c \<in> ?S" for c
    using assms(1) that entry_pc_late by (force simp: rinv_def entry_ok_def)
  have ok: "call_ok r c" for c using assms(1) by (simp add: rinv_def)
  have "call_ok ((failAllPending e r)\<lparr>rq_loop := False\<rparr>) c" for c
    using zero[of c] ok[of c]
    unfolding call_ok_def failAllPending_def own_acked_def
    by (cases "c \<in> ?S")
      (auto simp: fold_send_frame fold_send[OF rinv_results_distinct[OF assms(1)]])
  then show ?thesis
    using assms by (simp add: rinv_def handling_ok_def wire_ok_def failAllPending_def fold_send_frame)
qed

lemma rinv_take:
  assumes "rinv r" "rq_handling r = None" "rq_confirms r = (tag, ack) # rest"
  shows "rinv (take_confirmation tag ack (r\<lparr>rq_confirms := rest\<rparr>))"
proof (cases "map_of (rq_pending r) tag")
  case None
  with assms show ?thesis
    by (auto simp: take_confirmation_def rinv_def entry_ok_def call_ok_def handling_ok_def wire_ok_def own_acked_def
        pending_delete_def distinct_fst_filter)
next
  case (Some p)
  then have mem: "(tag, p) \<in> set (rq_pending r)" by (rule map_of_SomeD)
  from rinv_entry[OF assms(1) mem] have p: "entry_ok r tag p" .
  from assms(1,3) have w: "rq_wire r tag \<noteq> None" "ack \<Longrightarrow> tag \<in> rq_acked r"
    by (auto simp: rinv_def wire_ok_def)
  with p have acked: "own_acked r (pp_result p)" if ack using that by (auto simp: entry_ok_def own_acked_def)
  have other: "pp_result p' \<noteq> pp_result p" if "(q, p') \<in> set (rq_pending r)" "q \<noteq> tag" for q p'
    using entry_unique[OF assms(1) mem that(1)] that(2) by auto
  let ?r = "take_confirmation tag ack (r\<lparr>rq_confirms := rest\<rparr>)"
  have r: "?r = r\<lparr>rq_confirms := rest, rq_pending := filter (\<lambda>(k, _). k \<noteq> tag) (rq_pending r),
      rq_handling := Some (pp_result p, if ack then None else Some (err_nacked (pp_routingKey p)))\<rparr>"
    by (simp add: take_confirmation_def Some pending_delete_def)
  have "entry_ok ?r q p'" if "(q, p') \<in> set (rq_pending r)" "q \<noteq> tag" for q p'
    using rinv_entry[OF assms(1) that(1)] other[OF that] by (simp add: r entry_ok_def)
  moreover have "call_ok ?r c" for c
    using rinv_call[OF assms(1), of c] by (simp add: r call_ok_def own_acked_def)
  moreover have "handling_ok ?r"
    using p acked entry_pc_late by (auto simp: r handling_ok_def entry_ok_def own_acked_def)
  moreover have "wire_ok ?r" using assms(1,3) by (simp add: r rinv_def wire_ok_def)
  ultimately show ?thesis using assms(1) by (auto simp: rinv_def r distinct_fst_filter)
qed

subsection \<open>The callers\<close>

text \<open>Only the caller that holds the mutex has a number that is not used up.\<close>

lemma one_holder:
  assumes "rinv r" "rq_calls r c = Some (key, pc)" "holding pc" "rq_calls r c' = Some (key', pc')" "holding pc'"
  shows "c = c'"
  using rinv_call[OF assms(1), of c] rinv_call[OF assms(1), of c'] assms(2-5) by (simp add: call_ok_def)

lemma unsent_holding: "unsent q pc \<Longrightarrow> holding pc"
  by (cases pc) auto

lemma rinv_move:
  assumes inv: "rinv r" and c: "rq_calls r c = Some (key, pc)" and "\<And>q. entry_pc q pc \<Longrightarrow> entry_pc q pc'"
    and "\<not> early pc'" "pc' \<noteq> Returned None" "\<And>q. \<not> unsent q pc'"
    and "m = rq_publishMu r \<and> (holding pc' \<longrightarrow> holding pc) \<or> holding pc \<and> \<not> holding pc'"
  shows "rinv (set_pc c key pc' (r\<lparr>rq_publishMu := m\<rparr>))"
proof -
  let ?r = "set_pc c key pc' (r\<lparr>rq_publishMu := m\<rparr>)"
  have nreg: "pc' \<noteq> Registered q" for q using assms(6)[of q] by (cases pc') auto
  have "entry_ok ?r q p" if "(q, p) \<in> set (rq_pending r)" for q p
    using rinv_entry[OF inv that] c assms(3) nreg by (fastforce simp: entry_ok_def set_pc_def)
  moreover have "call_ok ?r d" for d
  proof (cases "d = c")
    case True
    with rinv_call[OF inv, of c] c assms(4-7) show ?thesis by (auto simp: call_ok_def set_pc_def own_acked_def)
  next
    case False
    have "\<not> (holding pc \<and> holding pd)" if "rq_calls r d = Some (kd, pd)" for kd pd
      using one_holder[OF inv c _ that] False by blast
    with False rinv_call[OF inv, of d] assms(7) show ?thesis
      by (auto simp: call_ok_def set_pc_def own_acked_def)
  qed
  moreover have "handling_ok ?r" using inv assms(4) by (auto simp: rinv_def handling_ok_def set_pc_def own_acked_def)
  ultimately show ?thesis using inv by (auto simp: rinv_def set_pc_def wire_ok_def)
qed

lemma own_acked_wire_send:
  assumes "rinv r" "rq_published r + 1 \<noteq> 0" "own_acked r c"
  shows "own_acked (wire_send d r) c"
proof -
  from assms(1) have "wire_ok r" by (simp add: rinv_def)
  with next_number_fresh assms(2) have new: "rq_wire r (rq_published r + 1) = None" by blast
  from assms(3) obtain tag where t: "rq_wire r tag = Some c" "tag \<in> rq_acked r" by (auto simp: own_acked_def)
  with new have "tag \<noteq> rq_published r + 1" by auto
  with t show ?thesis by (auto simp: own_acked_def wire_send_def)
qed

lemma rinv_sent:
  assumes inv: "rinv r" and c: "rq_calls r c = Some (key, Registered q)"
  shows "rinv (set_pc c key (Published q) (wire_send c r))"
proof -
  let ?r = "set_pc c key (Published q) (wire_send c r)"
  from rinv_call[OF inv, of c] c have q: "q = rq_published r + 1" "rq_published r + 1 \<noteq> 0" by (auto simp: call_ok_def)
  from inv have w: "wire_ok r" by (simp add: rinv_def)
  have fresh: "rq_wire r q = None" using next_number_fresh[OF w] q by simp
  have own: "own_acked ?r d" if "own_acked r d" for d
    using own_acked_wire_send[OF inv q(2) that] by (simp add: own_acked_def set_pc_def)
  have "entry_ok ?r k p" if k: "(k, p) \<in> set (rq_pending r)" for k p
  proof -
    from rinv_entry[OF inv k] c have "k = q \<Longrightarrow> pp_result p = c" by (auto simp: entry_ok_def)
    with rinv_entry[OF inv k] c q(1) show ?thesis
      by (fastforce simp: entry_ok_def set_pc_def wire_send_def)
  qed
  moreover have "call_ok ?r d" for d
  proof (cases "d = c")
    case True
    with rinv_call[OF inv, of c] c own[of c] show ?thesis by (auto simp: call_ok_def set_pc_def wire_send_def)
  next
    case False
    have "\<not> unsent k pd" if "rq_calls r d = Some (kd, pd)" for k kd pd
      using one_holder[OF inv c _ that] unsent_holding False by fastforce
    with False rinv_call[OF inv, of d] own[of d] show ?thesis
      by (auto simp: call_ok_def set_pc_def wire_send_def)
  qed
  moreover have "handling_ok ?r"
    using inv own c by (auto simp: rinv_def handling_ok_def set_pc_def wire_send_def)
  moreover have "wire_ok ?r"
  proof -
    have le: "t \<le> rq_published r + 1" if "t \<le> rq_published r" for t :: seqNo
      using that word_less_next[OF q(2)] by simp
    with w q(1) show ?thesis by (auto simp: wire_ok_def set_pc_def wire_send_def)
  qed
  ultimately show ?thesis using inv by (auto simp: rinv_def set_pc_def wire_send_def)
qed

lemma rinv_register:
  assumes inv: "rinv r" and c: "rq_calls r c = Some (key, Numbered q)"
  shows "rinv (set_pc c key (Registered q) (pending_put q \<lparr>pp_routingKey = key, pp_result = c\<rparr> r))"
proof -
  let ?r = "set_pc c key (Registered q) (pending_put q \<lparr>pp_routingKey = key, pp_result = c\<rparr> r)"
  from rinv_call[OF inv, of c] c have q: "q = rq_published r + 1" "rq_published r + 1 \<noteq> 0" and zero: "rq_sent r c = 0"
    by (auto simp: call_ok_def)
  from inv have fresh: "rq_wire r q = None" using next_number_fresh[of r] q by (simp add: rinv_def)
  have alone: "d = c" if "rq_calls r d = Some (kd, Registered k)" for d kd k
    using one_holder[OF inv c _ that] by simp
  have none: "pp_result p \<noteq> c" if "(k, p) \<in> set (rq_pending r)" for k p
    using rinv_entry[OF inv that] c by (auto simp: entry_ok_def)
  have "entry_ok ?r k p" if "(k, p) \<in> set (rq_pending r)" "k \<noteq> q" for k p
    using rinv_entry[OF inv that(1)] none[OF that(1)] that(2)
    by (auto simp: entry_ok_def set_pc_def pending_put_def)
  moreover have "entry_ok ?r q \<lparr>pp_routingKey = key, pp_result = c\<rparr>"
    using zero fresh alone inv c
    by (fastforce simp: entry_ok_def set_pc_def pending_put_def rinv_def handling_ok_def split: if_splits)
  moreover have "call_ok ?r d" for d
    using rinv_call[OF inv, of d] c by (auto simp: call_ok_def set_pc_def pending_put_def own_acked_def)
  ultimately show ?thesis
    using inv by (auto simp: rinv_def handling_ok_def wire_ok_def set_pc_def pending_put_def own_acked_def distinct_fst_filter)
qed

lemma rinv_new:
  assumes inv: "rinv r" and c: "rq_calls r c = None" and pc: "\<And>q. \<not> entry_pc q pc" "\<not> holding pc" "pc \<noteq> Returned None"
  shows "rinv (set_pc c key pc r)"
proof -
  let ?r = "set_pc c key pc r"
  have nreg: "pc \<noteq> Registered q" for q using pc(2) by auto
  have un: "\<not> unsent q pc" for q using pc(2) unsent_holding by blast
  have "entry_ok ?r q p" if "(q, p) \<in> set (rq_pending r)" for q p
    using rinv_entry[OF inv that] c nreg by (fastforce simp: entry_ok_def set_pc_def)
  moreover have "call_ok ?r d" for d
    using rinv_call[OF inv, of d] c pc un by (auto simp: call_ok_def set_pc_def own_acked_def)
  ultimately show ?thesis
    using inv c by (auto simp: rinv_def handling_ok_def wire_ok_def set_pc_def own_acked_def)
qed

lemma rinv_number:
  assumes inv: "rinv r" and c: "rq_calls r c = Some (key, Entered)" and free: "rq_publishMu r = None" "rq_published r + 1 \<noteq> 0"
  shows "rinv (set_pc c key (Numbered (rq_published r + 1)) (r\<lparr>rq_publishMu := Some c\<rparr>))"
proof -
  let ?r = "set_pc c key (Numbered (rq_published r + 1)) (r\<lparr>rq_publishMu := Some c\<rparr>)"
  have "entry_ok ?r q p" if "(q, p) \<in> set (rq_pending r)" for q p
    using rinv_entry[OF inv that] c by (fastforce simp: entry_ok_def set_pc_def)
  moreover have "call_ok ?r d" for d
    using rinv_call[OF inv, of d] rinv_call[OF inv, of c] c free by (auto simp: call_ok_def set_pc_def own_acked_def)
  ultimately show ?thesis
    using inv c by (auto simp: rinv_def handling_ok_def wire_ok_def set_pc_def own_acked_def)
qed

lemma rinv_send:
  assumes inv: "rinv r" and h: "rq_handling r = Some (c, v)"
  shows "rinv (chan_send c v (r\<lparr>rq_handling := None\<rparr>))"
proof -
  let ?r = "chan_send c v (r\<lparr>rq_handling := None\<rparr>)"
  from inv h have hc: "rq_sent r c = 0" "v = None \<Longrightarrow> own_acked r c" "\<exists>key pc. rq_calls r c = Some (key, pc) \<and> \<not> early pc"
    by (auto simp: rinv_def handling_ok_def)
  have "entry_ok ?r q p" if "(q, p) \<in> set (rq_pending r)" for q p
    using rinv_entry[OF inv that] h by (auto simp: entry_ok_def chan_send_def)
  moreover have "call_ok ?r d" for d
    using rinv_call[OF inv, of d] hc by (auto simp: call_ok_def chan_send_def own_acked_def)
  ultimately show ?thesis
    using inv by (auto simp: rinv_def handling_ok_def wire_ok_def chan_send_def own_acked_def)
qed

lemma rinv_confirmed:
  assumes inv: "rinv r" and c: "rq_calls r c = Some (key, Waiting q)" and v: "rq_chan r c = v # vs"
  shows "rinv (set_pc c key (Returned v) (r\<lparr>rq_chan := (rq_chan r)(c := vs)\<rparr>))"
proof -
  let ?r = "set_pc c key (Returned v) (r\<lparr>rq_chan := (rq_chan r)(c := vs)\<rparr>)"
  from rinv_call[OF inv, of c] v have one: "rq_sent r c = 1" "v = None \<Longrightarrow> own_acked r c"
    by (auto simp: call_ok_def)
  have "entry_ok ?r k p" if "(k, p) \<in> set (rq_pending r)" for k p
  proof -
    have "pp_result p \<noteq> c" using rinv_entry[OF inv that] one(1) by (auto simp: entry_ok_def)
    with rinv_entry[OF inv that] show ?thesis by (fastforce simp: entry_ok_def set_pc_def)
  qed
  moreover have "call_ok ?r d" for d
    using rinv_call[OF inv, of d] one v by (auto simp: call_ok_def set_pc_def own_acked_def)
  moreover have "rq_handling r \<noteq> Some (c, x)" for x using inv one(1) by (auto simp: rinv_def handling_ok_def)
  ultimately show ?thesis
    using inv by (auto simp: rinv_def handling_ok_def wire_ok_def set_pc_def own_acked_def)
qed

lemma rinv_leave:
  assumes inv: "rinv r" and c: "rq_calls r c = Some (key, Leaving q e)"
  shows "rinv (set_pc c key (Returned (Some e)) (pending_delete q r))"
proof -
  let ?r = "set_pc c key (Returned (Some e)) (pending_delete q r)"
  have "entry_ok ?r k p" if "(k, p) \<in> set (rq_pending r)" "k \<noteq> q" for k p
  proof -
    have "pp_result p \<noteq> c" using rinv_entry[OF inv that(1)] c that(2) by (auto simp: entry_ok_def)
    with rinv_entry[OF inv that(1)] show ?thesis by (fastforce simp: entry_ok_def set_pc_def pending_delete_def)
  qed
  moreover have "call_ok ?r d" for d
    using rinv_call[OF inv, of d] by (auto simp: call_ok_def set_pc_def pending_delete_def own_acked_def)
  ultimately show ?thesis
    using inv by (auto simp: rinv_def handling_ok_def wire_ok_def set_pc_def pending_delete_def own_acked_def distinct_fst_filter)
qed

lemma rinv_server:
  assumes inv: "rinv r" and w: "rq_wire r tag = Some c"
  shows "rinv (server_confirm tag ack r)"
proof -
  let ?r = "server_confirm tag ack r"
  have own: "own_acked ?r d" if "own_acked r d" for d
    using that by (auto simp: own_acked_def server_confirm_def)
  have "entry_ok ?r q p" if "(q, p) \<in> set (rq_pending r)" for q p
    using rinv_entry[OF inv that] by (simp add: entry_ok_def server_confirm_def)
  moreover have "call_ok ?r d" for d
    using rinv_call[OF inv, of d] own[of d] by (auto simp: call_ok_def server_confirm_def)
  moreover have "handling_ok ?r" using inv own by (auto simp: rinv_def handling_ok_def server_confirm_def)
  moreover have "wire_ok ?r" using inv w by (auto simp: rinv_def wire_ok_def server_confirm_def)
  ultimately show ?thesis using inv by (auto simp: rinv_def server_confirm_def)
qed

lemma rinv_step:
  assumes "rstep r r'" "rinv r"
  shows "rinv r'"
  using assms
proof (induction rule: rstep.induct)
  case (confirmation_take r tag ack rest)
  then show ?case by (simp add: rinv_take)
next
  case (loop_done r)
  then show ?case by (simp add: rinv_failAll)
next
  case (loop_confirms_closed r)
  then show ?case by (simp add: rinv_failAll)
next
  case (publish_register r c key q)
  then show ?case by (simp add: rinv_register)
next
  case (publish_sent r c key q)
  then show ?case by (simp add: rinv_sent)
next
  case (publish_refused r c key q e)
  then show ?case using rinv_move[of r c key "Registered q" "Refused q (err_publish key e)" "rq_publishMu r"] by simp
next
  case (unlock_sent r c key q)
  then show ?case using rinv_move[of r c key "Published q" "Waiting q" None] by simp
next
  case (unlock_refused r c key q e)
  then show ?case using rinv_move[of r c key "Refused q e" "Leaving q e" None] by simp
next
  case (publish_timeout r c key q)
  then show ?case using rinv_move[of r c key "Waiting q" "Leaving q (err_timeout key)" "rq_publishMu r"] by simp
next
  case (publish_cancelled r c key q e)
  then show ?case using rinv_move[of r c key "Waiting q" "Leaving q (err_cancelled key e)" "rq_publishMu r"] by simp
next
  case (publish_on_closed r c key)
  then show ?case by (simp add: rinv_new)
next
  case (publish_enter r c key)
  then show ?case by (simp add: rinv_new)
next
  case (publish_number r c key)
  then show ?case by (simp add: rinv_number)
next
  case (server_confirms r tag c ack)
  then show ?case by (simp add: rinv_server)
next
  case (confirmation_send r c v)
  then show ?case by (simp add: rinv_send)
next
  case (publish_confirmed r c key q v vs)
  then show ?case by (simp add: rinv_confirmed)
next
  case (publish_leave r c key q e)
  then show ?case by (simp add: rinv_leave)
next
  case (close r)
  then show ?case by (auto simp: rinv_def entry_ok_def call_ok_def handling_ok_def wire_ok_def own_acked_def)
qed

lemma rreach_rinv: "rreach r \<Longrightarrow> rinv r"
  by (induction rule: rreach.induct) (auto intro: rinv_init rinv_step)

section \<open>Properties\<close>

text \<open>
  C28: Whatever the interleaving of callers, confirmations, time-outs, cancellations and
  \<^verbatim>\<open>Close\<close>, the result channel of a \<^verbatim>\<open>Publish\<close> is sent at most one value, and whenever
  \<^verbatim>\<open>handleConfirmation\<close> is about to send one the buffer of that channel is empty: neither the
  confirmation loop nor \<^verbatim>\<open>failAllPending\<close> (which holds \<^verbatim>\<open>pendingMu\<close>) can block.
\<close>

theorem result_sent_once:
  assumes "rreach r"
  shows "rq_sent r c \<le> 1 \<and> (rq_handling r = Some (c, v) \<longrightarrow> rq_chan r c = []) \<and>
    ((q, p) \<in> set (rq_pending r) \<longrightarrow> rq_chan r (pp_result p) = [])"
proof -
  from assms have inv: "rinv r" by (rule rreach_rinv)
  have "rq_chan r c = []" if "rq_sent r c = 0" for c
    using rinv_call[OF inv, of c] that by (simp add: call_ok_def)
  with inv rinv_call[OF inv, of c] rinv_entry[OF inv, of q p] show ?thesis
    by (auto simp: rinv_def call_ok_def entry_ok_def handling_ok_def)
qed

text \<open>
  C29: \<^verbatim>\<open>Publish\<close> returns nil only when the server acknowledged the very message that this call sent on the channel:
  time-outs, cancellations, negative confirmations, a lost connection and a closed broker all
  return an error, and no interleaving hands one caller the acknowledgement of another's message. (It rests on \<^verbatim>\<open>publishMu\<close>, which
  makes the number a call registers under the number its message gets.)
\<close>

theorem publish_nil_acked:
  assumes "rreach r" "rq_calls r c = Some (key, Returned None)"
  shows "\<exists>tag. rq_wire r tag = Some c \<and> tag \<in> rq_acked r"
  using rinv_call[OF rreach_rinv[OF assms(1)], of c] assms(2) by (simp add: call_ok_def own_acked_def)

section \<open>Runs\<close>

text \<open>A call gets as far as the map, and further to the \<^verbatim>\<open>select\<close>, when nothing disturbs it.\<close>

definition registered :: "nat \<Rightarrow> string \<Rightarrow> rabbit \<Rightarrow> rabbit" where
  "registered c key r = set_pc c key (Registered (rq_published r + 1))
     (pending_put (rq_published r + 1) \<lparr>pp_routingKey = key, pp_result = c\<rparr> (r\<lparr>rq_publishMu := Some c\<rparr>))"

lemmas run_state_defs = registered_def set_pc_def pending_put_def pending_delete_def take_confirmation_def chan_send_def
  wire_send_def server_confirm_def

lemma registered_run:
  assumes "rreach r" "\<not> rq_closed r" "rq_calls r c = None" "rq_publishMu r = None" "rq_published r + 1 \<noteq> 0"
  shows "rreach (registered c key r)"
proof -
  let ?r1 = "set_pc c key Entered r"
  let ?r2 = "set_pc c key (Numbered (rq_published ?r1 + 1)) (?r1\<lparr>rq_publishMu := Some c\<rparr>)"
  let ?r3 = "set_pc c key (Registered (rq_published r + 1)) (pending_put (rq_published r + 1) \<lparr>pp_routingKey = key, pp_result = c\<rparr> ?r2)"
  have "rreach ?r1" by (rule rreach_step[OF assms(1)]) (rule publish_enter[OF assms(2,3)])
  then have "rreach ?r2"
    by (rule rreach_step) (rule publish_number, use assms in \<open>simp_all add: set_pc_def\<close>)
  then have "rreach ?r3" by (rule rreach_step) (rule publish_register, simp add: set_pc_def)
  moreover have "?r3 = registered c key r" by (simp add: run_state_defs)
  ultimately show ?thesis by simp
qed

definition waiting :: "nat \<Rightarrow> string \<Rightarrow> rabbit \<Rightarrow> rabbit" where
  "waiting c key r = set_pc c key (Waiting (rq_published r + 1)) ((wire_send c r)\<lparr>rq_publishMu := None\<rparr>)"

lemma waiting_run:
  assumes "rreach r" "rq_calls r c = Some (key, Registered (rq_published r + 1))"
  shows "rreach (waiting c key r)"
proof -
  let ?r1 = "set_pc c key (Published (rq_published r + 1)) (wire_send c r)"
  have "rreach ?r1" by (rule rreach_step[OF assms(1)]) (rule publish_sent[OF assms(2)])
  then have "rreach (set_pc c key (Waiting (rq_published r + 1)) (?r1\<lparr>rq_publishMu := None\<rparr>))"
    by (rule rreach_step) (rule unlock_sent, simp add: set_pc_def)
  then show ?thesis by (simp add: waiting_def set_pc_def wire_send_def)
qed

definition run1 :: rabbit where "run1 = waiting 0 ''k'' (registered 0 ''k'' init_rabbit)"
definition run2 :: rabbit where "run2 = take_confirmation 1 True ((server_confirm 1 True run1)\<lparr>rq_confirms := []\<rparr>)"
definition run3 :: rabbit where "run3 = chan_send 0 None (run2\<lparr>rq_handling := None\<rparr>)"
definition run4 :: rabbit where "run4 = set_pc 0 ''k'' (Returned None) (run3\<lparr>rq_chan := (rq_chan run3)(0 := [])\<rparr>)"

lemmas run_defs = run1_def run2_def run3_def run4_def waiting_def run_state_defs init_rabbit_def

lemma rreach_run2: "rreach run2"
proof -
  have "rreach (registered 0 ''k'' init_rabbit)"
    by (rule registered_run[OF rreach_init]) (simp_all add: init_rabbit_def)
  then have "rreach run1"
    unfolding run1_def by (rule waiting_run) (simp add: run_state_defs init_rabbit_def)
  then have "rreach (server_confirm 1 True run1)"
    by (rule rreach_step) (rule server_confirms[of _ _ 0], simp add: run_defs)
  then have "rreach (take_confirmation 1 True ((server_confirm 1 True run1)\<lparr>rq_confirms := []\<rparr>))"
    by (rule rreach_step) (rule confirmation_take, simp_all add: run_defs)
  then show ?thesis by (simp add: run2_def)
qed

lemma rreach_run4: "rreach run4"
proof -
  have "rstep run2 run3"
    unfolding run3_def by (rule confirmation_send) (simp_all add: run_defs)
  moreover have "rstep run3 run4"
    unfolding run4_def by (rule publish_confirmed[where q = 1]) (simp_all add: run_defs)
  ultimately show ?thesis by (blast intro: rreach_step rreach_run2)
qed

lemma result_sent_once_witness:
  "rreach run2 \<and> rq_handling run2 = Some (0, None) \<and> rq_chan run2 0 = []"
proof -
  have h: "rq_handling run2 = Some (0, None)" by (simp add: run_defs)
  with result_sent_once[OF rreach_run2, of 0 None] show ?thesis by (simp add: rreach_run2)
qed

lemma publish_nil_acked_witness:
  "rreach run4 \<and> rq_calls run4 0 = Some (''k'', Returned None) \<and> (\<exists>tag. rq_wire run4 tag = Some 0 \<and> tag \<in> rq_acked run4)"
proof -
  have c: "rq_calls run4 0 = Some (''k'', Returned None)" by (simp add: run_defs)
  with publish_nil_acked[OF rreach_run4 c] show ?thesis by (simp add: rreach_run4)
qed

text \<open>
  The entry of a waiting call can be lost: a refused publish deletes its entry after it released \<^verbatim>\<open>publishMu\<close>, and its number was
  not used up, so the next caller may have registered under the same number by then. That caller's message is sent, but a
  confirmation of it finds no entry: the call can only time out although the server acknowledged the message.
\<close>

lemma refused_publish_drops_entry:
  "\<exists>r c key q. rreach r \<and> rq_calls r c = Some (key, Waiting q) \<and> rq_wire r q = Some c \<and> rq_pending r = [] \<and> rq_sent r c = 0"
proof -
  define r1 where "r1 = registered 0 ''a'' init_rabbit"
  define r2 where "r2 = set_pc 0 ''a'' (Refused 1 (err_publish ''a'' ErrNoRows)) r1"
  define r3 where "r3 = set_pc 0 ''a'' (Leaving 1 (err_publish ''a'' ErrNoRows)) (r2\<lparr>rq_publishMu := None\<rparr>)"
  define r4 where "r4 = registered 1 ''b'' r3"
  define r5 where "r5 = set_pc 0 ''a'' (Returned (Some (err_publish ''a'' ErrNoRows))) (pending_delete 1 r4)"
  note defs = r1_def r2_def r3_def r4_def r5_def waiting_def run_state_defs init_rabbit_def
  have "rreach r1" unfolding r1_def by (rule registered_run[OF rreach_init]) (simp_all add: init_rabbit_def)
  then have "rreach r2" unfolding r2_def by (rule rreach_step) (rule publish_refused, simp add: defs)
  then have "rreach r3" unfolding r3_def by (rule rreach_step) (rule unlock_refused, simp add: r2_def set_pc_def)
  then have "rreach r4" unfolding r4_def by (rule registered_run) (simp_all add: r1_def r2_def r3_def run_state_defs init_rabbit_def)
  then have "rreach r5" unfolding r5_def by (rule rreach_step) (rule publish_leave, simp add: defs)
  then have "rreach (waiting 1 ''b'' r5)" by (rule waiting_run) (simp add: defs)
  then show ?thesis
    by (intro exI[of _ "waiting 1 ''b'' r5"] exI[of _ 1] exI[of _ "''b''"] exI[of _ "1 :: seqNo"]) (simp add: defs)
qed

end
