(* ===== verification/Outbox_Processor.thy ===== *)
theory Outbox_Processor
  imports Outbox_Repo Broker Samples
begin

text \<open>
  \<^verbatim>\<open>internal/outbox/processor.go\<close> and \<^verbatim>\<open>worker.go\<close>: publishing claimed events, retrying
  with exponential back-off, and the polling worker.
\<close>

section \<open>Back-off and headers\<close>

definition maxRetries :: int where "maxRetries = 8"
definition baseBackoff :: duration where "baseBackoff = 2 * Second"
definition maxBackoff :: duration where "maxBackoff = 5 * Minute"
definition claimLockDuration :: duration where "claimLockDuration = 30 * Second"

lemmas backoff_defs = baseBackoff_def maxBackoff_def claimLockDuration_def duration_defs

text \<open>
  \<^verbatim>\<open>float64(baseBackoff) * math.Pow(2, n)\<close>: the base has 31 significant bits, so the product
  with a power of two is exact; the conversion to an integer truncates. For a negative \<open>n\<close> the
  product is the base divided by a power of two.
\<close>

definition backoffFor :: "int \<Rightarrow> duration" where
  "backoffFor retryCount =
     (let backoff = (if retryCount \<ge> 0 then baseBackoff * 2 ^ nat retryCount
                     else baseBackoff div 2 ^ nat (- retryCount))
      in if backoff > maxBackoff then maxBackoff else backoff)"

definition decodeHeaders :: "json option \<Rightarrow> err + (string \<times> json) list option" where
  "decodeHeaders raw =
     (case raw of
        None \<Rightarrow> Inr None
      | Some JNull \<Rightarrow> Inr None
      | Some (JObj kvs) \<Rightarrow> Inr (Some kvs)
      | Some _ \<Rightarrow> Inl (ErrOther ''json: cannot unmarshal into Go value of type map[string]interface {}''))"

section \<open>Processor\<close>

text \<open>\<^verbatim>\<open>fail\<close> always returns an error: the cause, or that the failure could not be recorded.\<close>

definition processor_fail :: "OutboxEvent \<Rightarrow> err \<Rightarrow> unit M" where
  "processor_fail event cause =
     bindM time_Now (\<lambda>now.
     attempt (outbox_MarkFailed (oe_ID event) (now + backoffFor (oe_RetryCount event)) (err_Error cause))
       (\<lambda>markErr. throw (ErrOther (''publish failed ('' @ err_Error cause @
          '') and failed to record failure: '' @ err_Error markErr)))
       (\<lambda>_. throw cause))"

definition envelope_of :: "OutboxEvent \<Rightarrow> (string \<times> json) list option \<Rightarrow> EventEnvelope" where
  "envelope_of event headers =
     \<lparr>en_EventID = oe_ID event, en_EventType = oe_EventType event,
      en_Payload = oe_Payload event, en_Headers = headers\<rparr>"

definition processOne :: "lib \<Rightarrow> OutboxEvent \<Rightarrow> unit M" where
  "processOne L event =
     (case decodeHeaders (oe_Headers event) of
        Inl e \<Rightarrow> processor_fail event (ErrOther (''invalid headers: '' @ err_Error e))
      | Inr headers \<Rightarrow>
          attempt (broker_Publish (envelope_of event headers))
            (processor_fail event)
            (\<lambda>_. bindM time_Now (\<lambda>now.
               mapErr (\<lambda>e. ErrOther (''failed to mark event '' @ uuid_String L (oe_ID event) @
                   '' published: '' @ err_Error e))
                 (outbox_MarkPublished (oe_ID event) now))))"

text \<open>The loop of \<^verbatim>\<open>ProcessBatch\<close>: every event is tried, the first error is remembered.\<close>

fun process_events :: "lib \<Rightarrow> err option \<Rightarrow> OutboxEvent list \<Rightarrow> err option M" where
  "process_events L firstErr [] = ret firstErr"
| "process_events L firstErr (event # events) =
     attempt (processOne L event)
       (\<lambda>e. process_events L (case firstErr of None \<Rightarrow> Some e | Some f \<Rightarrow> Some f) events)
       (\<lambda>_. process_events L firstErr events)"

text \<open>\<^verbatim>\<open>ProcessBatch\<close> returns a count and an error together.\<close>

definition ProcessBatch :: "lib \<Rightarrow> uuid list \<Rightarrow> string \<Rightarrow> int \<Rightarrow> (int \<times> err option) M" where
  "ProcessBatch L skip workerID batchSize =
     attempt (outbox_ClaimBatch skip batchSize workerID claimLockDuration)
       (\<lambda>e. ret (0, Some (ErrOther (''outbox: failed to claim pending events: '' @ err_Error e))))
       (\<lambda>events. bindM (process_events L None events) (\<lambda>firstErr. ret (int (length events), firstErr)))"

section \<open>Worker\<close>

record WorkerConfig =
  wc_PollInterval :: duration
  wc_BatchSize :: int

definition defaultWorkerConfig :: WorkerConfig where
  "defaultWorkerConfig = \<lparr>wc_PollInterval = 5 * Second, wc_BatchSize = 50\<rparr>"

definition NewWorker :: "WorkerConfig \<Rightarrow> WorkerConfig" where
  "NewWorker cfg =
     \<lparr>wc_PollInterval = (if wc_PollInterval cfg \<le> 0 then wc_PollInterval defaultWorkerConfig
                         else wc_PollInterval cfg),
      wc_BatchSize = (if wc_BatchSize cfg \<le> 0 then wc_BatchSize defaultWorkerConfig
                      else wc_BatchSize cfg)\<rparr>"

text \<open>\<^verbatim>\<open>tick\<close> only logs what \<^verbatim>\<open>ProcessBatch\<close> returns.\<close>

definition worker_tick :: "lib \<Rightarrow> uuid list \<Rightarrow> string \<Rightarrow> WorkerConfig \<Rightarrow> unit M" where
  "worker_tick L skip workerID cfg =
     bindM (ProcessBatch L skip workerID (wc_BatchSize cfg)) (\<lambda>_. ret ())"

text \<open>
  \<^verbatim>\<open>Run\<close>: a first tick, then the \<^verbatim>\<open>select\<close> loop. The environment is a list of what the
  \<^verbatim>\<open>select\<close> receives: the ticker, after some time, or the end of the context. The result says
  whether the channel \<^verbatim>\<open>stopped\<close> was closed.
\<close>

datatype select_event = Tick nat "uuid list" | CtxDone

fun worker_loop :: "lib \<Rightarrow> string \<Rightarrow> WorkerConfig \<Rightarrow> select_event list \<Rightarrow> bool M" where
  "worker_loop L wk cfg [] = ret False"
| "worker_loop L wk cfg (CtxDone # evs) = ret True"
| "worker_loop L wk cfg (Tick d skip # evs) =
     bindM (modify (\<lambda>w. w\<lparr>w_now := w_now w + int d\<rparr>)) (\<lambda>_.
     bindM (worker_tick L skip wk cfg) (\<lambda>_. worker_loop L wk cfg evs))"

definition worker_Run :: "lib \<Rightarrow> string \<Rightarrow> WorkerConfig \<Rightarrow> uuid list \<Rightarrow> select_event list \<Rightarrow> bool M" where
  "worker_Run L wk cfg skip evs = bindM (worker_tick L skip wk cfg) (\<lambda>_. worker_loop L wk cfg evs)"

section \<open>Table integrity\<close>

lemma keeps_wf_processOne [keeps_intros]: "keeps (db_inv db_wf) (processOne L e)"
  unfolding processOne_def processor_fail_def
  by (cases "decodeHeaders (oe_Headers e)") (auto intro!: keeps_intros)

lemma keeps_process_events:
  assumes "\<And>e. keeps I (processOne L e)"
  shows "keeps I (process_events L f es)"
  by (induction es arbitrary: f) (auto intro!: keeps_intros assms)

lemma keeps_ProcessBatch:
  assumes "\<And>e. keeps I (processOne L e)" "\<And>sk n wk l. keeps I (outbox_ClaimBatch sk n wk l)"
  shows "keeps I (ProcessBatch L skip wk n)"
  unfolding ProcessBatch_def by (intro keeps_intros keeps_process_events assms)

lemma keeps_worker_loop:
  assumes "\<And>sk n. keeps I (ProcessBatch L sk wk n)" "\<And>w n. I w \<Longrightarrow> I (w\<lparr>w_now := w_now w + int n\<rparr>)"
  shows "keeps I (worker_loop L wk cfg evs)"
proof (induction evs)
  case Nil
  then show ?case by (simp only: worker_loop.simps keeps_ret)
next
  case (Cons ev evs)
  show ?case
  proof (cases ev)
    case (Tick d skip)
    then show ?thesis
      by (simp only: worker_loop.simps worker_tick_def)
        (intro keeps_intros keeps_modify assms Cons.IH)
  next
    case CtxDone
    then show ?thesis by (simp only: worker_loop.simps keeps_ret)
  qed
qed

lemma keeps_worker_Run:
  assumes "\<And>sk n. keeps I (ProcessBatch L sk wk n)" "\<And>w n. I w \<Longrightarrow> I (w\<lparr>w_now := w_now w + int n\<rparr>)"
  shows "keeps I (worker_Run L wk cfg skip evs)"
  unfolding worker_Run_def worker_tick_def
  by (intro keeps_intros keeps_worker_loop assms)

lemma keeps_wf_worker_Run: "keeps (db_inv db_wf) (worker_Run L wk cfg skip evs)"
  by (intro keeps_worker_Run keeps_ProcessBatch keeps_intros) simp

section \<open>Back-off\<close>

lemma backoffFor_nonneg: "0 \<le> n \<Longrightarrow> backoffFor n = min (baseBackoff * 2 ^ nat n) maxBackoff"
  by (auto simp: backoffFor_def Let_def)

lemma backoffFor_pos:
  assumes "0 \<le> n"
  shows "baseBackoff \<le> backoffFor n \<and> backoffFor n \<le> maxBackoff"
proof -
  have "baseBackoff * 1 \<le> baseBackoff * 2 ^ nat n"
    by (intro mult_left_mono) (auto simp: backoff_defs)
  then show ?thesis using assms by (auto simp: backoffFor_nonneg min_def backoff_defs)
qed

lemma backoffFor_mono:
  assumes "0 \<le> m" "m \<le> n"
  shows "backoffFor m \<le> backoffFor n"
proof -
  have "baseBackoff * 2 ^ nat m \<le> baseBackoff * 2 ^ nat n"
    using assms by (intro mult_left_mono power_increasing) (auto simp: backoff_defs nat_mono)
  then show ?thesis using assms by (auto simp: backoffFor_nonneg)
qed

lemma backoffFor_cap: "8 \<le> n \<Longrightarrow> backoffFor n = maxBackoff"
proof -
  assume n: "8 \<le> n"
  have "backoffFor 8 = maxBackoff"
    by (simp add: backoffFor_nonneg backoff_defs)
  with backoffFor_mono[of 8 n] backoffFor_pos[of n] n show ?thesis by simp
qed

section \<open>Published means delivered\<close>

text \<open>
  \<open>published_delivered\<close>: an event marked published was accepted by the broker, with its own type
  and payload. \<open>same_content es\<close>: the rows with the identifiers of \<open>es\<close> carry their contents.
\<close>

definition published_delivered :: "world \<Rightarrow> bool" where
  "published_delivered w \<longleftrightarrow>
     (\<forall>e \<in> set (outbox_events (w_db w)). oe_Status e = StatusPublished \<longrightarrow>
        (\<exists>env \<in> set (w_delivered w). en_EventID env = oe_ID e \<and> en_EventType env = oe_EventType e \<and>
           en_Payload env = oe_Payload e))"

definition same_content :: "OutboxEvent list \<Rightarrow> world \<Rightarrow> bool" where
  "same_content es w \<longleftrightarrow>
     (\<forall>e \<in> set es. \<forall>x \<in> set (outbox_events (w_db w)). oe_ID x = oe_ID e \<longrightarrow>
        oe_EventType x = oe_EventType e \<and> oe_Payload x = oe_Payload e)"

definition keeps_content :: "(OutboxEvent \<Rightarrow> OutboxEvent) \<Rightarrow> bool" where
  "keeps_content f \<longleftrightarrow>
     (\<forall>x. oe_ID (f x) = oe_ID x \<and> oe_EventType (f x) = oe_EventType x \<and> oe_Payload (f x) = oe_Payload x)"

lemma exec_conn_events:
  assumes "ExecContext Conn s w = (r, w')" "P (w_db w)" "\<And>t d. s t (w_db w) = Inr d \<Longrightarrow> P d"
  shows "P (w_db w') \<and> w_delivered w' = w_delivered w"
  using assms(1) assms(2,3)
  by (cases "s (w_now w) (w_db w)") (auto simp: ExecContext_Conn exec_conn_def split: if_splits)

lemma update_events_inv:
  assumes "published_delivered w" "same_content es w" "keeps_content f"
    and "outbox_events (w_db w') = update_where p f (outbox_events (w_db w))"
    and "set (w_delivered w) \<subseteq> set (w_delivered w')"
    and "\<And>x. x \<in> set (outbox_events (w_db w)) \<Longrightarrow> p x \<Longrightarrow> oe_Status (f x) = StatusPublished \<Longrightarrow>
      \<exists>env \<in> set (w_delivered w'). en_EventID env = oe_ID x \<and> en_EventType env = oe_EventType x \<and>
        en_Payload env = oe_Payload x"
  shows "published_delivered w' \<and> same_content es w'"
proof
  have f: "oe_ID (f x) = oe_ID x" "oe_EventType (f x) = oe_EventType x" "oe_Payload (f x) = oe_Payload x"
    for x using assms(3) by (auto simp: keeps_content_def)
  show "published_delivered w'"
    unfolding published_delivered_def
  proof (intro ballI impI)
    fix e assume e: "e \<in> set (outbox_events (w_db w'))" "oe_Status e = StatusPublished"
    then obtain x where x: "x \<in> set (outbox_events (w_db w))" "e = (if p x then f x else x)"
      using assms(4) by (metis in_update_where_iff)
    show "\<exists>env \<in> set (w_delivered w'). en_EventID env = oe_ID e \<and> en_EventType env = oe_EventType e \<and>
        en_Payload env = oe_Payload e"
    proof (cases "p x")
      case True
      with x e(2) assms(6)[OF x(1)] f show ?thesis by simp
    next
      case False
      with x e(2) assms(1,5) show ?thesis unfolding published_delivered_def by fastforce
    qed
  qed
  show "same_content es w'"
    using assms(2,4) f by (auto simp: same_content_def in_update_where_iff split: if_splits)
qed

lemma same_tables_inv:
  assumes "published_delivered w" "same_content es w" "w_db w' = w_db w"
    and "set (w_delivered w) \<subseteq> set (w_delivered w')"
  shows "published_delivered w' \<and> same_content es w'"
  using assms unfolding published_delivered_def same_content_def by fastforce

lemma MarkFailed_inv:
  assumes "published_delivered w" "same_content es w" "outbox_MarkFailed i t s w = (r, w')"
  shows "published_delivered w' \<and> same_content es w'"
proof -
  let ?f = "\<lambda>e. e\<lparr>oe_Status := StatusFailed, oe_RetryCount := oe_RetryCount e + 1,
    oe_NextRetryAt := t, oe_LastError := Some s\<rparr>"
  let ?P = "\<lambda>d. d = w_db w \<or>
    outbox_events d = update_where (\<lambda>e. oe_ID e = i) ?f (outbox_events (w_db w))"
  have "?P (w_db w') \<and> w_delivered w' = w_delivered w"
    by (rule exec_conn_events[OF assms(3)[unfolded outbox_MarkFailed_def]])
      (auto simp: mark_failed_stmt_def upd_event_def split: if_splits)
  then consider
    "w_db w' = w_db w" "w_delivered w' = w_delivered w" |
    "outbox_events (w_db w') = update_where (\<lambda>e. oe_ID e = i) ?f (outbox_events (w_db w))"
    "w_delivered w' = w_delivered w"
    by blast
  then show ?thesis
  proof cases
    case 1
    with assms(1,2) show ?thesis by (intro same_tables_inv) auto
  next
    case 2
    show ?thesis
      by (rule update_events_inv[OF assms(1,2) _ 2(1)])
        (auto simp: 2(2) keeps_content_def event_status_defs)
  qed
qed

lemma MarkPublished_inv:
  assumes "published_delivered w" "same_content es w" "outbox_MarkPublished (oe_ID e) t w = (r, w')"
    and "e \<in> set es" "envelope_of e h \<in> set (w_delivered w)"
  shows "published_delivered w' \<and> same_content es w'"
proof -
  let ?f = "\<lambda>e. e\<lparr>oe_Status := StatusPublished, oe_PublishedAt := Some t, oe_LastError := None\<rparr>"
  let ?P = "\<lambda>d. d = w_db w \<or>
    outbox_events d = update_where (\<lambda>x. oe_ID x = oe_ID e) ?f (outbox_events (w_db w))"
  have "?P (w_db w') \<and> w_delivered w' = w_delivered w"
    by (rule exec_conn_events[OF assms(3)[unfolded outbox_MarkPublished_def]])
      (auto simp: upd_event_def)
  then consider
    "w_db w' = w_db w" "w_delivered w' = w_delivered w" |
    "outbox_events (w_db w') = update_where (\<lambda>x. oe_ID x = oe_ID e) ?f (outbox_events (w_db w))"
    "w_delivered w' = w_delivered w"
    by blast
  then show ?thesis
  proof cases
    case 1
    with assms(1,2) show ?thesis by (intro same_tables_inv) auto
  next
    case 2
    have "oe_EventType x = oe_EventType e \<and> oe_Payload x = oe_Payload e"
      if "x \<in> set (outbox_events (w_db w))" "oe_ID x = oe_ID e" for x
      using assms(2,4) that by (auto simp: same_content_def)
    then show ?thesis
      by (intro update_events_inv[OF assms(1,2) _ 2(1)] bexI[OF _ assms(5)[folded 2(2)]])
        (auto simp: 2(2) keeps_content_def envelope_of_def)
  qed
qed

lemma processor_fail_run:
  assumes "processor_fail e c w = (r, w')"
  obtains r1 where
    "outbox_MarkFailed (oe_ID e) (w_now w + backoffFor (oe_RetryCount e)) (err_Error c) (tick w) = (r1, w')"
    "\<not> is_Ok r" "is_Ok r1 \<longrightarrow> r = Err c"
  using assms
  by (auto simp: processor_fail_def bindM_def attempt_def time_Now_eq split: prod.splits res.splits)

lemma processor_fail_inv:
  assumes "published_delivered w" "same_content es w" "processor_fail e c w = (r, w')"
  shows "published_delivered w' \<and> same_content es w'"
proof -
  have t: "published_delivered (tick w)" "same_content es (tick w)"
    using same_tables_inv[OF assms(1,2), of "tick w"] by auto
  from assms(3) show ?thesis by (rule processor_fail_run) (rule MarkFailed_inv[OF t])
qed

lemma processOne_inv:
  assumes "published_delivered w" "same_content es w" "processOne L e w = (r, w')" "e \<in> set es"
  shows "published_delivered w' \<and> same_content es w'"
proof (cases "decodeHeaders (oe_Headers e)")
  case (Inl x)
  with assms(3) have "processor_fail e (ErrOther (''invalid headers: '' @ err_Error x)) w = (r, w')"
    by (simp add: processOne_def)
  then show ?thesis by (rule processor_fail_inv[OF assms(1,2)])
next
  case (Inr h)
  let ?env = "envelope_of e h"
  from assms(3) show ?thesis
    unfolding processOne_def Inr sum.case
  proof (elim attempt_cases, goal_cases)
    case (1 x w1)
    then have "w_delivered w1 = w_delivered w @ [?env]" "w_db w1 = w_db w"
      by (auto dest: broker_Publish_Ok broker_Publish_frame)
    then have i: "published_delivered (tick w1) \<and> same_content es (tick w1)"
      "?env \<in> set (w_delivered (tick w1))"
      using same_tables_inv[OF assms(1,2), of "tick w1"] by auto
    from 1 obtain r1 where "outbox_MarkPublished (oe_ID e) (w_now w1) (tick w1) = (r1, w')"
      by (auto simp: bindM_def mapErr_def attempt_def time_Now_eq split: prod.splits res.splits)
    then show ?thesis
      by (rule MarkPublished_inv[OF conjunct1[OF i(1)] conjunct2[OF i(1)] _ assms(4) i(2)])
  next
    case (2 x w1)
    then have "published_delivered w1 \<and> same_content es w1"
      using same_tables_inv[OF assms(1,2), of w1] broker_Publish_frame[of ?env w "Err x" w1] by auto
    with 2 processor_fail_inv show ?thesis by blast
  next
    case (3 s)
    then show ?thesis by (simp add: broker_Publish_no_panic)
  qed
qed

lemma process_events_inv:
  assumes "published_delivered w" "same_content es w" "process_events L f fs w = (r, w')"
    and "set fs \<subseteq> set es"
  shows "published_delivered w' \<and> same_content es w'"
  using assms
proof (induction fs arbitrary: w f)
  case (Cons e fs)
  obtain r1 w1 where one: "processOne L e w = (r1, w1)" by fastforce
  with Cons.prems processOne_inv[of w es L e r1 w1]
  have "published_delivered w1 \<and> same_content es w1" by simp
  moreover have "(\<exists>f'. process_events L f' fs w1 = (r, w')) \<or> w1 = w'"
    using Cons.prems(3) one by (cases r1) auto
  ultimately show ?case using Cons.IH[of w1] Cons.prems(4) by auto
qed auto

lemma ClaimBatch_inv:
  assumes "published_delivered w" "db_wf (w_db w)" "outbox_ClaimBatch sk n wk l w = (Ok es, w')"
  shows "published_delivered w' \<and> same_content es w'"
proof -
  have ev: "outbox_events (w_db w') = update_where (\<lambda>e. oe_ID e \<in> oe_ID ` set es)
      (lock_event (w_now w) l wk) (outbox_events (w_db w))" by (rule ClaimBatch_events[OF assms(3)])
  have del: "w_delivered w' = w_delivered w"
    using assms(3) by (auto simp: ClaimBatch_Ok_iff ExecContext_Conn_Ok_iff)
  have "same_content es w"
    unfolding same_content_def
  proof (intro ballI impI)
    fix e x assume e: "e \<in> set es" "x \<in> set (outbox_events (w_db w))" "oe_ID x = oe_ID e"
    from in_claim[OF assms(3) e(1)] obtain y where y: "y \<in> set (outbox_events (w_db w))"
      "e = lock_event (w_now w) l wk y" by auto
    with assms(2) e distinct_key_inj[of oe_ID "outbox_events (w_db w)" x y] have "x = y"
      by (simp add: db_wf_def)
    with y show "oe_EventType x = oe_EventType e \<and> oe_Payload x = oe_Payload e" by simp
  qed
  then show ?thesis
    by (rule update_events_inv[OF assms(1) _ _ ev])
      (simp_all add: del keeps_content_def event_status_defs)
qed

lemma ProcessBatch_inv:
  assumes "published_delivered w" "db_wf (w_db w)" "ProcessBatch L sk wk n w = (r, w')"
  shows "published_delivered w'"
proof -
  obtain rc wc where c: "outbox_ClaimBatch sk n wk claimLockDuration w = (rc, wc)" by fastforce
  show ?thesis
  proof (cases rc)
    case (Ok es)
    obtain rp wp where p: "process_events L None es wc = (rp, wp)" by fastforce
    with assms(3) c Ok have "w' = wp"
      by (cases rp) (auto simp: ProcessBatch_def)
    with process_events_inv[of wc es L None es rp wp] ClaimBatch_inv[OF assms(1,2)] c Ok p
    show ?thesis by auto
  next
    case (Err e)
    with c have "w_db wc = w_db w \<and> w_delivered wc = w_delivered w"
      by (auto simp: outbox_ClaimBatch_def bindM_Err_iff ExecContext_Conn exec_conn_def
          split: if_splits sum.splits)
    with assms c Err show ?thesis by (auto simp: ProcessBatch_def published_delivered_def)
  next
    case (Panic s)
    with c show ?thesis
      by (auto simp: outbox_ClaimBatch_def bindM_def attempt_def ExecContext_Conn exec_conn_def
          split: if_splits sum.splits)
  qed
qed

definition outbox_inv :: "world \<Rightarrow> bool" where
  "outbox_inv w \<longleftrightarrow> db_inv db_wf w \<and> published_delivered w"

lemma keeps_outbox_inv: "keeps outbox_inv (ProcessBatch L sk wk n)"
proof (rule keepsI)
  fix w assume inv: "outbox_inv w"
  obtain r w' where run: "ProcessBatch L sk wk n w = (r, w')" by fastforce
  have "keeps (db_inv db_wf) (ProcessBatch L sk wk n)"
    by (intro keeps_ProcessBatch keeps_intros)
  with inv run have "db_inv db_wf w'" using keepsD by (simp add: outbox_inv_def keeps_def) fastforce
  moreover from inv have "published_delivered w'"
    using ProcessBatch_inv[OF _ _ run] by (simp add: outbox_inv_def db_inv_def)
  ultimately show "outbox_inv (snd (ProcessBatch L sk wk n w))" using run by (simp add: outbox_inv_def)
qed

lemma keeps_outbox_inv_Run: "keeps outbox_inv (worker_Run L wk cfg skip evs)"
  by (rule keeps_worker_Run) (auto simp: keeps_outbox_inv outbox_inv_def published_delivered_def)

section \<open>A batch without failures\<close>

definition quiet :: "world \<Rightarrow> bool" where
  "quiet w \<longleftrightarrow> w_faults w = [] \<and> w_pub w = [] \<and> \<not> w_broker_closed w"

lemma quiet_simps [simp]:
  "quiet (tick w) = quiet w" "quiet (deliver b env w) = quiet w" "quiet (w\<lparr>w_db := d\<rparr>) = quiet w"
  "quiet (w\<lparr>w_db := d, w_tx := x\<rparr>) = quiet w"
  by (simp_all add: quiet_def)

lemma broker_Publish_quiet:
  "quiet w \<Longrightarrow> broker_Publish env w = (Ok (), deliver True env (tick w))"
  by (simp add: quiet_def broker_Publish_def next_pub_def bindM_def attempt_def time_Now_eq Let_def)

lemma exec_conn_quiet:
  "quiet w \<Longrightarrow> s (w_now w) (w_db w) = Inr d \<Longrightarrow>
     \<exists>x. ExecContext Conn s w = (Ok (), w\<lparr>w_db := d, w_tx := x\<rparr>)"
  by (auto simp: quiet_def ExecContext_Conn quiet_next_ok quiet_pop exec_conn_def)

definition mark_row :: "time \<Rightarrow> OutboxEvent \<Rightarrow> OutboxEvent" where
  "mark_row t e = e\<lparr>oe_Status := StatusPublished, oe_PublishedAt := Some t, oe_LastError := None\<rparr>"

lemma processOne_quiet:
  assumes "quiet w" "decodeHeaders (oe_Headers e) = Inr h"
  shows "\<exists>w' t. processOne L e w = (Ok (), w') \<and> quiet w' \<and> w_db w' = upd_event (oe_ID e) (mark_row t) (w_db w) \<and>
    w_delivered w' = w_delivered w @ [envelope_of e h]"
proof -
  let ?w = "tick (deliver True (envelope_of e h) (tick w))"
  have q: "quiet ?w" using assms(1) by simp
  obtain x where x: "outbox_MarkPublished (oe_ID e) (w_now (tick w)) ?w =
      (Ok (), ?w\<lparr>w_db := upd_event (oe_ID e) (mark_row (w_now (tick w))) (w_db w), w_tx := x\<rparr>)"
    using exec_conn_quiet[OF q] unfolding outbox_MarkPublished_def mark_row_def by fastforce
  then have "processOne L e w =
      (Ok (), ?w\<lparr>w_db := upd_event (oe_ID e) (mark_row (w_now (tick w))) (w_db w), w_tx := x\<rparr>)"
    using assms by (simp add: processOne_def broker_Publish_quiet time_Now_eq mapErr_def)
  with q show ?thesis by (auto simp: deliver_delivered)
qed

lemma process_events_quiet:
  assumes "quiet w" "\<forall>e \<in> set es. \<exists>h. decodeHeaders (oe_Headers e) = Inr h"
  shows "\<exists>w'. process_events L None es w = (Ok None, w') \<and>
    map en_EventID (w_delivered w') = map en_EventID (w_delivered w) @ map oe_ID es \<and>
    (\<forall>x \<in> set (outbox_events (w_db w')).
       (oe_ID x \<in> oe_ID ` set es \<longrightarrow> oe_Status x = StatusPublished) \<and>
       (oe_ID x \<notin> oe_ID ` set es \<longrightarrow> x \<in> set (outbox_events (w_db w))))"
  using assms
proof (induction es arbitrary: w)
  case (Cons e es)
  then obtain h where "decodeHeaders (oe_Headers e) = Inr h" by auto
  from processOne_quiet[OF Cons.prems(1) this, of L] obtain w1 t where w1:
    "processOne L e w = (Ok (), w1)" "quiet w1" "w_db w1 = upd_event (oe_ID e) (mark_row t) (w_db w)"
    "w_delivered w1 = w_delivered w @ [envelope_of e h]" by blast
  from Cons.IH[OF w1(2)] Cons.prems(2) obtain w2 where w2:
    "process_events L None es w1 = (Ok None, w2)"
    "map en_EventID (w_delivered w2) = map en_EventID (w_delivered w1) @ map oe_ID es"
    "\<forall>x \<in> set (outbox_events (w_db w2)).
       (oe_ID x \<in> oe_ID ` set es \<longrightarrow> oe_Status x = StatusPublished) \<and>
       (oe_ID x \<notin> oe_ID ` set es \<longrightarrow> x \<in> set (outbox_events (w_db w1)))" by auto
  have row: "(oe_ID x = oe_ID e \<longrightarrow> oe_Status x = StatusPublished) \<and>
      (oe_ID x \<noteq> oe_ID e \<longrightarrow> x \<in> set (outbox_events (w_db w)))"
    if "x \<in> set (outbox_events (w_db w1))" for x
  proof (cases "oe_ID x = oe_ID e")
    case True
    with that show ?thesis
      by (auto simp: w1(3) upd_event_def mark_row_def elim!: update_where_hit)
  next
    case False
    with that show ?thesis
      by (auto simp: w1(3) upd_event_def mark_row_def in_update_where_iff split: if_splits)
  qed
  have "(oe_ID x \<in> oe_ID ` set (e # es) \<longrightarrow> oe_Status x = StatusPublished) \<and>
      (oe_ID x \<notin> oe_ID ` set (e # es) \<longrightarrow> x \<in> set (outbox_events (w_db w)))"
    if "x \<in> set (outbox_events (w_db w2))" for x
    using w2(3) row that by auto
  with w1 w2(1,2) show ?case by (auto simp: envelope_of_def)
qed simp

lemma ClaimBatch_quiet:
  assumes "quiet w" "0 \<le> n"
  shows "\<exists>w'. outbox_ClaimBatch sk n wk l w =
      (Ok (map (lock_event (w_now w) l wk) (claimable sk n (w_now w) (w_db w))), w') \<and>
    quiet w' \<and> w_delivered w' = w_delivered w"
proof -
  obtain d where d: "claim_stmt sk n wk l (w_now w) (w_db w) = Inr d"
    using assms(2) by (simp add: claim_stmt_def)
  from exec_conn_quiet[where s = "claim_stmt sk n wk l", OF assms(1) d] obtain x where
    "ExecContext Conn (claim_stmt sk n wk l) w = (Ok (), w\<lparr>w_db := d, w_tx := x\<rparr>)" by blast
  with assms(1) show ?thesis by (auto simp: outbox_ClaimBatch_def bindM_def)
qed

lemma claimable_all:
  assumes "length (filter (eligible now) (outbox_events d)) \<le> nat n"
  shows "set (claimable [] n now d) = {e \<in> set (outbox_events d). eligible now e}"
    and "distinct (map oe_ID (outbox_events d)) \<Longrightarrow> distinct (map oe_ID (claimable [] n now d))"
proof -
  have c: "claimable [] n now d = sort_key oe_CreatedAt (filter (eligible now) (outbox_events d))"
    using assms by (simp add: claimable_def)
  then show "set (claimable [] n now d) = {e \<in> set (outbox_events d). eligible now e}" by auto
  assume "distinct (map oe_ID (outbox_events d))"
  then have "distinct (outbox_events d) \<and> inj_on oe_ID (set (outbox_events d))" by (simp add: distinct_map)
  with c show "distinct (map oe_ID (claimable [] n now d))"
    by (auto simp: distinct_map intro: inj_on_subset)
qed

section \<open>Properties\<close>

text \<open>
  C23: Transactional outbox, safety: whatever the database and the broker do, and however often the
  worker polls, every event the worker's table shows as published was accepted by the broker, with
  the event's own type and payload; and the table keeps its integrity.
\<close>

theorem worker_published_delivered:
  assumes "db_wf (w_db w)" "w_tx w = None" "published_delivered w"
    and "worker_Run L wk (NewWorker cfg) skip evs w = (r, w')"
  shows "published_delivered w' \<and> db_wf (w_db w')"
proof -
  have "outbox_inv w" using assms(1-3) by (simp add: outbox_inv_def db_inv_def)
  then have "outbox_inv w'" by (rule keepsD[OF keeps_outbox_inv_Run assms(4)])
  then show ?thesis by (simp add: outbox_inv_def db_inv_def)
qed

text \<open>
  C24: Transactional outbox, progress: when neither the database nor the broker fails, one batch
  whose limit is at least the number of due events publishes every due event exactly once (the broker
  receives the claimed events and no others), marks each of them published, leaves every other row
  as it was, and reports the number of events and no error. (Nothing is said of the order inside the
  batch: \<^verbatim>\<open>UPDATE .. RETURNING\<close> promises none.)
\<close>

theorem batch_publishes_all_due:
  assumes "db_wf (w_db w)" "w_faults w = []" "w_pub w = []" "\<not> w_broker_closed w"
    and "length (filter (eligible (w_now w)) (outbox_events (w_db w))) \<le> nat n" "0 \<le> n"
    and "\<forall>e \<in> set (outbox_events (w_db w)). \<exists>h. decodeHeaders (oe_Headers e) = Inr h"
  shows "\<exists>w' es. ProcessBatch L [] wk n w = (Ok (int (length es), None), w') \<and>
    set es = {e \<in> set (outbox_events (w_db w)). eligible (w_now w) e} \<and> distinct (map oe_ID es) \<and>
    map en_EventID (w_delivered w') = map en_EventID (w_delivered w) @ map oe_ID es \<and>
    (\<forall>x \<in> set (outbox_events (w_db w')).
       if oe_ID x \<in> oe_ID ` set es then oe_Status x = StatusPublished
       else x \<in> set (outbox_events (w_db w)))"
proof -
  define es where "es = claimable [] n (w_now w) (w_db w)"
  note es = claimable_all[OF assms(5), folded es_def]
  let ?lock = "lock_event (w_now w) claimLockDuration wk"
  from assms(2-4) have "quiet w" by (simp add: quiet_def)
  from ClaimBatch_quiet[OF this assms(6), of "[]" wk claimLockDuration, folded es_def] obtain wc where wc:
    "outbox_ClaimBatch [] n wk claimLockDuration w = (Ok (map ?lock es), wc)" "quiet wc"
    "w_delivered wc = w_delivered w" by blast
  have "\<forall>e \<in> set (map ?lock es). \<exists>h. decodeHeaders (oe_Headers e) = Inr h"
    using assms(7) es(1) by auto
  from process_events_quiet[OF wc(2) this, of L] obtain w' where w':
    "process_events L None (map ?lock es) wc = (Ok None, w')"
    "map en_EventID (w_delivered w') = map en_EventID (w_delivered w) @ map oe_ID es"
    "\<forall>x \<in> set (outbox_events (w_db w')).
       (oe_ID x \<in> oe_ID ` set es \<longrightarrow> oe_Status x = StatusPublished) \<and>
       (oe_ID x \<notin> oe_ID ` set es \<longrightarrow> x \<in> set (outbox_events (w_db wc)))"
    by (auto simp: wc(3) image_image)
  have "x \<in> set (outbox_events (w_db w))"
    if "x \<in> set (outbox_events (w_db wc))" "oe_ID x \<notin> oe_ID ` set es" for x
    using that ClaimBatch_events[OF wc(1)] by (auto simp: in_update_where_iff image_image split: if_splits)
  with w' wc es assms(1) show ?thesis
    by (intro exI[of _ w'] exI[of _ es]) (auto simp: ProcessBatch_def db_wf_def)
qed

text \<open>
  C25: \<^verbatim>\<open>ClaimBatch\<close> returns as many events as there are eligible ones (pending, failed and due, or abandoned
  by a worker whose lock ran out) that no other statement has locked, up to \<open>limit\<close>, each once; each
  returned event is one of those; no such event that was passed over is older than one that was
  returned; and in the table exactly the returned events are now in processing, locked by this worker
  for the lock duration.
\<close>

theorem claim_batch_spec:
  assumes "db_wf (w_db w)" "outbox_ClaimBatch skip limit wk lockDur w = (Ok es, w')"
  shows "length es = min (nat limit)
      (length (filter (\<lambda>x. eligible (w_now w) x \<and> oe_ID x \<notin> set skip) (outbox_events (w_db w)))) \<and> distinct (map oe_ID es) \<and>
    (\<forall>e \<in> set es. \<exists>x \<in> set (outbox_events (w_db w)). eligible (w_now w) x \<and> oe_ID x \<notin> set skip \<and>
       e = lock_event (w_now w) lockDur wk x) \<and>
    (\<forall>x \<in> set (outbox_events (w_db w)). \<forall>e \<in> set es. eligible (w_now w) x \<and> oe_ID x \<notin> set skip \<and>
       oe_ID x \<notin> oe_ID ` set es \<longrightarrow> oe_CreatedAt e \<le> oe_CreatedAt x) \<and>
    outbox_events (w_db w') = map (\<lambda>x. if oe_ID x \<in> oe_ID ` set es
       then lock_event (w_now w) lockDur wk x else x) (outbox_events (w_db w))"
proof (intro conjI ballI impI)
  let ?cand = "filter (\<lambda>e. eligible (w_now w) e \<and> oe_ID e \<notin> set skip) (outbox_events (w_db w))"
  from assms(2) have es: "es = map (lock_event (w_now w) lockDur wk)
      (take (nat limit) (sort_key oe_CreatedAt ?cand))"
    by (simp add: ClaimBatch_Ok_iff claimable_def)
  then show "length es = min (nat limit) (length ?cand)" by (simp add: min.commute)
  show "distinct (map oe_ID es)"
    using distinct_taken[OF db_wf_outboxD(1)[OF assms(1)]] unfolding es by (simp add: comp_def)
  show "outbox_events (w_db w') = map (\<lambda>x. if oe_ID x \<in> oe_ID ` set es
       then lock_event (w_now w) lockDur wk x else x) (outbox_events (w_db w))"
    using ClaimBatch_events[OF assms(2)] by (simp add: update_where_def)
  fix e assume e: "e \<in> set es"
  show "\<exists>x \<in> set (outbox_events (w_db w)). eligible (w_now w) x \<and> oe_ID x \<notin> set skip \<and>
       e = lock_event (w_now w) lockDur wk x"
    using in_claim[OF assms(2) e] by blast
next
  fix x e assume x: "x \<in> set (outbox_events (w_db w))" and e: "e \<in> set es"
    and c: "eligible (w_now w) x \<and> oe_ID x \<notin> set skip \<and> oe_ID x \<notin> oe_ID ` set es"
  let ?cand = "filter (\<lambda>e. eligible (w_now w) e \<and> oe_ID e \<notin> set skip) (outbox_events (w_db w))"
  from assms(2) have es: "es = map (lock_event (w_now w) lockDur wk)
      (take (nat limit) (sort_key oe_CreatedAt ?cand))"
    by (simp add: ClaimBatch_Ok_iff claimable_def)
  from e es obtain y where y: "y \<in> set (take (nat limit) (sort_key oe_CreatedAt ?cand))"
    "oe_CreatedAt e = oe_CreatedAt y" by auto
  have "x \<notin> set (take (nat limit) (sort_key oe_CreatedAt ?cand))"
    using c es by (auto simp: image_image)
  with take_sort_key_le[OF y(1)] x c y(2) show "oe_CreatedAt e \<le> oe_CreatedAt x" by simp
qed

text \<open>
  C26: A claim holds its events: each is in processing under the claim's lock. A second claim, by the same
  worker or another one, that is made before the lock has run out returns none of the events of the
  first as long as each of them is still held or published, whatever else has happened to the tables in
  between. (An event that was marked failed is no longer held: it may be claimed again as soon as its
  back-off has passed, which can be before the lock ends.)
\<close>

theorem claims_exclusive:
  assumes "outbox_ClaimBatch sk n wk claimLockDuration w = (Ok es, w1)"
    and "still_held (w_now w + claimLockDuration) es (w_db w2)" "w_now w2 \<le> w_now w + claimLockDuration"
    and "outbox_ClaimBatch sk' n' wk' l' w2 = (Ok fs, w3)"
  shows "still_held (w_now w + claimLockDuration) es (w_db w1) \<and> oe_ID ` set es \<inter> oe_ID ` set fs = {}"
  using psql_outbox.claim_holds[OF assms(1)] psql_outbox.claims_disjoint[OF assms(1) _ assms(2-4)]
  by (simp add: backoff_defs)

text \<open>
  An event whose publish failed is recorded as failed with one more retry, and becomes due
  again exactly when its back-off has passed: it is never dropped and never retried early.
\<close>

lemma failed_event_rescheduled:
  assumes "db_wf (w_db w)" "w_faults w = []" "e \<in> set (outbox_events (w_db w))"
    and "oe_RetryCount e < 2 ^ 31 - 1" "processor_fail e cause w = (r, w')"
  shows "r = Err cause \<and>
    (\<exists>e' \<in> set (outbox_events (w_db w')). oe_ID e' = oe_ID e \<and> oe_RetryCount e' = oe_RetryCount e + 1 \<and>
       oe_Status e' = StatusFailed \<and> oe_LastError e' = Some (err_Error cause) \<and>
       (\<forall>now. eligible now e' \<longleftrightarrow> w_now w + backoffFor (oe_RetryCount e) \<le> now))"
proof -
  let ?f = "\<lambda>e'. e'\<lparr>oe_Status := StatusFailed, oe_RetryCount := oe_RetryCount e' + 1,
    oe_NextRetryAt := w_now w + backoffFor (oe_RetryCount e), oe_LastError := Some (err_Error cause)\<rparr>"
  have only: "x = e" if "x \<in> set (outbox_events (w_db w))" "oe_ID x = oe_ID e" for x
    using db_wf_outboxD(1)[OF assms(1)] assms(3) that distinct_key_inj by fastforce
  have small: "\<not> (\<exists>x \<in> set (outbox_events (w_db w)). oe_ID x = oe_ID e \<and> oe_RetryCount x \<ge> 2 ^ 31 - 1)"
    using only assms(4) by (metis not_le)
  from assms(5) obtain r1 where r1: "outbox_MarkFailed (oe_ID e)
      (w_now w + backoffFor (oe_RetryCount e)) (err_Error cause) (tick w) = (r1, w')"
    "\<not> is_Ok r" "is_Ok r1 \<longrightarrow> r = Err cause" by (rule processor_fail_run)
  have "r1 = Ok () \<and> outbox_events (w_db w') =
      update_where (\<lambda>x. oe_ID x = oe_ID e) ?f (outbox_events (w_db w))"
    using r1(1) assms(2) small
    by (auto simp: outbox_MarkFailed_def ExecContext_Conn next_ok_def pop_def exec_conn_def
        mark_failed_stmt_def upd_event_def simp del: power_numeral)
  with r1(3) assms(3) have "r = Err cause" "?f e \<in> set (outbox_events (w_db w'))"
    by (auto simp: in_update_where_iff)
  then show ?thesis
    by (intro conjI bexI[of _ "?f e"]) (auto simp: eligible_def event_status_defs)
qed

text \<open>
  The retry limit is not enforced: an event that has failed \<open>maxRetries\<close> times or more is
  claimed again as soon as its back-off has passed, exactly like any other failed event.
\<close>

lemma max_retries_not_enforced:
  assumes "e \<in> set (outbox_events (w_db w))" "oe_Status e = StatusFailed"
    and "maxRetries \<le> oe_RetryCount e" "oe_NextRetryAt e \<le> w_now w"
    and "next_ok w" "int (length (outbox_events (w_db w))) \<le> n"
  shows "\<exists>es w'. outbox_ClaimBatch [] n wk claimLockDuration w = (Ok es, w') \<and> oe_ID e \<in> oe_ID ` set es"
proof -
  have n: "0 \<le> n" "length (filter (eligible (w_now w)) (outbox_events (w_db w))) \<le> nat n"
    using assms(6) length_filter_le[of "eligible (w_now w)" "outbox_events (w_db w)"] by linarith+
  have "e \<in> set (claimable [] n (w_now w) (w_db w))"
    using assms(1,2,4) by (simp add: claimable_all(1)[OF n(2)] eligible_def event_status_defs)
  with n(1) assms(5) show ?thesis
    by (auto simp: outbox_ClaimBatch_def bindM_def attempt_def ExecContext_Conn exec_conn_def
        claim_stmt_def image_image)
qed

text \<open>
  \<^verbatim>\<open>FetchPending\<close> never finds anything: it asks for the statuses Pending and Failed, which
  the CHECK constraint of the table (lower-case names) rules out.
\<close>

lemma fetch_pending_finds_nothing:
  assumes "db_wf (w_db w)" "0 \<le> n" "next_ok w"
  shows "outbox_FetchPending n w = (Ok [], pop w)"
proof -
  have "filter (\<lambda>e. oe_Status e \<in> {''Pending'', ''Failed''} \<and> oe_NextRetryAt e \<le> now)
      (outbox_events (w_db w)) = []" for now
    using db_wf_outboxD(2)[OF assms(1)] by (force simp: outbox_statuses_def filter_empty_conv)
  with assms(2,3) show ?thesis
    by (simp add: outbox_FetchPending_def QueryContext_def roundtrip_bind bindM_def attempt_def
        db_roundtrip_eq query_view_def)
qed

text \<open>
  C27: The back-off is two seconds doubled once per retry, never less than two seconds, and capped at
  five minutes from the eighth retry on; it never decreases.
\<close>

theorem backoff_schedule:
  assumes "0 \<le> n"
  shows "backoffFor n = (if n < 8 then 2 * Second * 2 ^ nat n else 5 * Minute) \<and>
    2 * Second \<le> backoffFor n \<and> backoffFor n \<le> 5 * Minute \<and> backoffFor n \<le> backoffFor (n + 1)"
proof -
  have "baseBackoff * 2 ^ nat n \<le> maxBackoff" if "n < 8"
  proof -
    have "(2::int) ^ nat n \<le> 2 ^ 7" using that by (intro power_increasing) auto
    then show ?thesis by (simp add: backoff_defs)
  qed
  with assms backoffFor_cap[of n] backoffFor_pos[of n] backoffFor_mono[of n "n + 1"] show ?thesis
    by (auto simp: backoffFor_nonneg min_def baseBackoff_def maxBackoff_def)
qed

section \<open>Witnesses\<close>

definition due_event :: OutboxEvent where
  "due_event = sample_event\<lparr>oe_Status := StatusFailed, oe_RetryCount := 9, oe_NextRetryAt := 500\<rparr>"

lemma sample_event_simps [simp]:
  "oe_ID sample_event = 5" "oe_Status sample_event = StatusPending" "oe_Headers sample_event = None"
  "oe_RetryCount sample_event = 0"
  by (simp_all add: sample_event_def new_event_def)

lemma sample_outbox_wf:
  "db_wf (sample_db\<lparr>outbox_events := [sample_event]\<rparr>)"
  "db_wf (sample_db\<lparr>outbox_events := [due_event]\<rparr>)"
  by (rule outbox_world_wf, simp add: outbox_statuses_def event_status_defs due_event_def)+

lemma outbox_world_quiet: "quiet (outbox_world e)"
  by (simp add: quiet_def)

lemma worker_published_delivered_witness:
  "\<exists>r w'. worker_Run sample_lib ''w'' (NewWorker \<lparr>wc_PollInterval = 0, wc_BatchSize = 0\<rparr>) []
      [Tick 5000000000 [], CtxDone] (outbox_world sample_event) = (r, w') \<and>
    published_delivered w' \<and> db_wf (w_db w')"
proof -
  obtain r w' where run: "worker_Run sample_lib ''w'' (NewWorker \<lparr>wc_PollInterval = 0, wc_BatchSize = 0\<rparr>) []
      [Tick 5000000000 [], CtxDone] (outbox_world sample_event) = (r, w')" by fastforce
  have "published_delivered (outbox_world sample_event)"
    by (simp add: published_delivered_def event_status_defs)
  with worker_published_delivered[OF _ _ _ run] run show ?thesis
    by (simp add: sample_outbox_wf)
qed

lemma batch_publishes_all_due_witness:
  "\<exists>w'. ProcessBatch sample_lib [] ''w'' 50 (outbox_world sample_event) = (Ok (1, None), w') \<and>
    map en_EventID (w_delivered w') = [5]"
proof -
  have el: "{e. e = sample_event \<and> eligible 1000 e} = {sample_event}"
    by (auto simp: eligible_def event_status_defs)
  have one: "es = [sample_event]" if "set es = {sample_event}" "distinct (map oe_ID es)" for es
    using that by (cases es; cases "tl es") auto
  have "length (filter (eligible 1000) [sample_event]) \<le> 50" by simp
  with batch_publishes_all_due[of "outbox_world sample_event" 50 sample_lib "''w''"]
  show ?thesis by (auto simp: sample_outbox_wf decodeHeaders_def el dest!: one)
qed

lemma claim_batch_spec_witness:
  "\<exists>es w'. outbox_ClaimBatch [] 1 ''w'' claimLockDuration (outbox_world sample_event) = (Ok es, w') \<and> length es = 1"
proof -
  obtain es w' where run: "outbox_ClaimBatch [] 1 ''w'' claimLockDuration (outbox_world sample_event) = (Ok es, w')"
    using ClaimBatch_quiet[OF outbox_world_quiet, of 1] by fastforce
  have "length es = 1"
    using claim_batch_spec[OF _ run] by (simp add: sample_outbox_wf eligible_def event_status_defs)
  with run show ?thesis by blast
qed

lemma claims_exclusive_witness:
  "\<exists>es fs w1 w3. outbox_ClaimBatch [] 9 ''a'' claimLockDuration (outbox_world sample_event) = (Ok es, w1) \<and>
    outbox_ClaimBatch [] 9 ''b'' claimLockDuration w1 = (Ok fs, w3) \<and> oe_ID ` set es \<inter> oe_ID ` set fs = {}"
proof -
  let ?w = "outbox_world sample_event"
  obtain es w1 where a: "outbox_ClaimBatch [] 9 ''a'' claimLockDuration ?w = (Ok es, w1)" "quiet w1"
    using ClaimBatch_quiet[OF outbox_world_quiet, of 9] by fastforce
  obtain fs w3 where b: "outbox_ClaimBatch [] 9 ''b'' claimLockDuration w1 = (Ok fs, w3)"
    using ClaimBatch_quiet[OF a(2), of 9] by fastforce
  have now: "w_now w1 \<le> w_now ?w + claimLockDuration"
    using a(1) by (auto simp: ClaimBatch_Ok_iff ExecContext_Conn_Ok_iff backoff_defs)
  with claims_exclusive[OF a(1) psql_outbox.claim_holds[OF a(1)] now b] a(1) b show ?thesis by blast
qed

lemma failed_event_rescheduled_witness:
  "fst (processor_fail due_event ErrNoRows (outbox_world due_event)) = Err ErrNoRows"
proof -
  obtain r w' where run: "processor_fail due_event ErrNoRows (outbox_world due_event) = (r, w')" by fastforce
  with failed_event_rescheduled[OF _ _ _ _ run] show ?thesis
    by (simp add: sample_outbox_wf) (simp add: due_event_def)
qed

lemma max_retries_not_enforced_witness:
  "\<exists>es w'. outbox_ClaimBatch [] 50 ''w'' claimLockDuration (outbox_world due_event) = (Ok es, w') \<and>
    5 \<in> oe_ID ` set es"
  using max_retries_not_enforced[of due_event "outbox_world due_event" 50 "''w''"]
  by (simp add: due_event_def maxRetries_def quiet_next_ok)

lemma fetch_pending_finds_nothing_witness:
  "outbox_FetchPending 10 (outbox_world due_event) = (Ok [], outbox_world due_event)"
  using fetch_pending_finds_nothing[of "outbox_world due_event" 10]
  by (simp add: sample_outbox_wf quiet_next_ok quiet_pop)

lemma backoff_schedule_witness: "(0::int) \<le> 3 \<and> backoffFor 3 = 16 * Second"
  using backoff_schedule[of 3] by simp

end
