(* ===== verification/Reachable.thy ===== *)
theory Reachable
  imports Service_Passwords Outbox_Processor
begin

text \<open>
  Histories: any sequence of requests to the service and of runs of the outbox worker, one after
  another, with anything happening to the clock, the network and the mail server in between. The
  integrity of the tables and the structure of the refresh-token families hold in every reachable
  state. (Requests that overlap inside the database are the subject of \<open>Concurrent_Sessions\<close> and
  \<open>Concurrent_Resets\<close>.)
\<close>

section \<open>Invariants of transition systems\<close>

inductive reach :: "('s \<Rightarrow> bool) \<Rightarrow> ('s \<Rightarrow> 's \<Rightarrow> bool) \<Rightarrow> 's \<Rightarrow> bool"
  for init :: "'s \<Rightarrow> bool" and step :: "'s \<Rightarrow> 's \<Rightarrow> bool"
where
  reach_init: "init s \<Longrightarrow> reach init step s"
| reach_step: "reach init step s \<Longrightarrow> step s s' \<Longrightarrow> reach init step s'"

text \<open>The contract of an invariant, and what it gives for every reachable state.\<close>

locale inductive_invariant =
  fixes init :: "'s \<Rightarrow> bool" and step :: "'s \<Rightarrow> 's \<Rightarrow> bool" and inv :: "'s \<Rightarrow> bool"
  assumes init_inv: "init s \<Longrightarrow> inv s"
    and step_inv: "inv s \<Longrightarrow> step s s' \<Longrightarrow> inv s'"
begin

lemma reach_inv: "reach init step s \<Longrightarrow> inv s"
  by (induction rule: reach.induct) (auto intro: init_inv step_inv)

end

section \<open>One request or one run of the worker\<close>

text \<open>
  A transaction that is still open when a request ends is rolled back (the request's context is
  cancelled). \<open>served_env\<close>: between requests everything but the database may change; identifiers may
  be drawn from the supply, but none comes back.
\<close>

definition uuids_from :: "uuid list \<Rightarrow> world \<Rightarrow> bool" where
  "uuids_from us w \<longleftrightarrow> (\<exists>ys. us = ys @ w_uuids w)"

inductive served :: "Service \<Rightarrow> world \<Rightarrow> world \<Rightarrow> bool" for S :: Service where
  served_register: "Register S email pw w = (r, w') \<Longrightarrow> served S w (Rollback w')"
| served_signup: "SignupService S ctx email un pw tn w = (r, w') \<Longrightarrow> served S w (Rollback w')"
| served_verify: "VerifyEmail S raw w = (r, w') \<Longrightarrow> served S w (Rollback w')"
| served_resend: "ResendVerification S ctx email w = (r, w') \<Longrightarrow> served S w (Rollback w')"
| served_login: "Login S ctx email pw ip w = (r, w') \<Longrightarrow> served S w (Rollback w')"
| served_refresh: "Refresh S ctx tok w = (r, w') \<Longrightarrow> served S w (Rollback w')"
| served_logout: "Logout S ctx tok w = (r, w') \<Longrightarrow> served S w (Rollback w')"
| served_revoke: "RevokeAll ctx i w = (r, w') \<Longrightarrow> served S w (Rollback w')"
| served_change: "ChangePassword S ctx req ip w = (r, w') \<Longrightarrow> served S w (Rollback w')"
| served_request: "RequestResetPassword S ctx email ip w = (r, w') \<Longrightarrow> served S w (Rollback w')"
| served_reset: "ResetPassword S ctx raw pw ip w = (r, w') \<Longrightarrow> served S w (Rollback w')"
| served_worker: "worker_Run (sv_lib S) wk cfg skip evs w = (r, w') \<Longrightarrow> served S w (Rollback w')"
| served_env: "w_db w' = w_db w \<Longrightarrow> w_tx w' = None \<Longrightarrow> uuids_from (w_uuids w) w' \<Longrightarrow> w_now w \<le> w_now w' \<Longrightarrow>
    served S w w'"

text \<open>The service starts on integral tables without sessions, and identifiers never repeat.\<close>

definition start :: "world \<Rightarrow> bool" where
  "start w \<longleftrightarrow> db_wf (w_db w) \<and> refresh_tokens (w_db w) = [] \<and> w_tx w = None \<and> distinct (w_uuids w)"

abbreviation reachable :: "Service \<Rightarrow> world \<Rightarrow> bool" where
  "reachable S \<equiv> reach start (served S)"

section \<open>Integrity of the tables\<close>

lemma keeps_metric [keeps_intros]:
  "keeps (db_inv J) (modify inc_signups)" "keeps (db_inv J) (modify inc_login_failure)"
  "keeps (db_inv J) (modify inc_login_success)" "keeps (db_inv J) (modify inc_reuse)"
  by (auto intro!: keeps_modify simp: inc_signups_def inc_login_failure_def inc_login_success_def inc_reuse_def)

lemma keeps_defer_Rollback [keeps_intros]: "keeps (db_inv J) m \<Longrightarrow> keeps (db_inv J) (deferM Rollback m)"
  by (rule keeps_deferM) (auto simp: db_inv_def Rollback_def)

lemma keeps_wf_services:
  "keeps (db_inv db_wf) (Register S email pw)"
  "keeps (db_inv db_wf) (SignupService S ctx email un pw tn)"
  "keeps (db_inv db_wf) (VerifyEmail S raw)"
  "keeps (db_inv db_wf) (ResendVerification S ctx email)"
  "keeps (db_inv db_wf) (Login S ctx email pw ip)"
  "keeps (db_inv db_wf) (Refresh S ctx tok)"
  "keeps (db_inv db_wf) (Logout S ctx tok)"
  "keeps (db_inv db_wf) (RevokeAll ctx i)"
  "keeps (db_inv db_wf) (ChangePassword S ctx req ip)"
  "keeps (db_inv db_wf) (RequestResetPassword S ctx email ip)"
  "keeps (db_inv db_wf) (ResetPassword S ctx raw pw ip)"
  unfolding service_defs rotateHelper_def rotate_live_def rotate_reuse_def login_found_def login_unknown_def
    login_wrong_password_def login_succeed_def susloginfailure_def find_user_def loginFailed_def signUpTransaction_def
    signupResponseBuilder_def
  by (intro keeps_intros)+

definition wf_state :: "world \<Rightarrow> bool" where
  "wf_state w \<longleftrightarrow> db_wf (w_db w) \<and> w_tx w = None"

lemma wf_state_db_inv: "wf_state w \<Longrightarrow> db_inv db_wf w"
  by (simp add: wf_state_def db_inv_def)

lemma served_keeps:
  assumes "served S w w'" and I: "I w" and rb: "\<And>w. I w \<Longrightarrow> I (Rollback w)"
    and env: "\<And>w w'. I w \<Longrightarrow> w_db w' = w_db w \<Longrightarrow> w_tx w' = None \<Longrightarrow> uuids_from (w_uuids w) w' \<Longrightarrow> I w'"
    and k: "\<And>email pw. keeps I (Register S email pw)" "\<And>ctx email un pw tn. keeps I (SignupService S ctx email un pw tn)"
      "\<And>raw. keeps I (VerifyEmail S raw)" "\<And>ctx email. keeps I (ResendVerification S ctx email)"
      "\<And>ctx email pw ip. keeps I (Login S ctx email pw ip)" "\<And>ctx tok. keeps I (Refresh S ctx tok)"
      "\<And>ctx tok. keeps I (Logout S ctx tok)" "\<And>ctx i. keeps I (RevokeAll ctx i)"
      "\<And>ctx req ip. keeps I (ChangePassword S ctx req ip)" "\<And>ctx email ip. keeps I (RequestResetPassword S ctx email ip)"
      "\<And>ctx raw pw ip. keeps I (ResetPassword S ctx raw pw ip)"
      "\<And>wk cfg skip evs. keeps I (worker_Run (sv_lib S) wk cfg skip evs)"
  shows "I w'"
  using assms(1)
proof cases
  case served_env
  then show ?thesis using env I by blast
qed (simp, rule rb, (erule keepsD[OF k(1)] keepsD[OF k(2)] keepsD[OF k(3)] keepsD[OF k(4)] keepsD[OF k(5)]
      keepsD[OF k(6)] keepsD[OF k(7)] keepsD[OF k(8)] keepsD[OF k(9)] keepsD[OF k(10)] keepsD[OF k(11)] keepsD[OF k(12)]), rule I)+

lemma served_wf:
  assumes "wf_state w" "served S w w'"
  shows "wf_state w'"
proof -
  have "db_inv db_wf w'"
  proof (rule served_keeps[where I = "db_inv db_wf", OF assms(2)])
    show "db_inv db_wf (Rollback v)" if "db_inv db_wf v" for v using that by (simp add: db_inv_def Rollback_def)
    show "db_inv db_wf v'" if "db_inv db_wf v" "w_db v' = w_db v" "w_tx v' = None" for v v'
      using that by (simp add: db_inv_def)
  qed (use wf_state_db_inv[OF assms(1)] in \<open>auto intro: keeps_wf_services keeps_wf_worker_Run\<close>)
  moreover have "w_tx w' = None"
    using assms(2) by cases (auto simp: Rollback_def)
  ultimately show ?thesis by (simp add: wf_state_def db_inv_def)
qed

interpretation integrity: inductive_invariant start "served S" wf_state for S
  by unfold_locales (simp add: start_def wf_state_def, rule served_wf)

section \<open>The supply of identifiers\<close>

lemma keeps_uuids_basic [keeps_intros]:
  "keeps (uuids_from us) db_roundtrip" "keeps (uuids_from us) time_Now" "keeps (uuids_from us) (rand_Read n)"
  "keeps (uuids_from us) (ExecContext ex s)" "keeps (uuids_from us) (QueryContext ex q)"
  "keeps (uuids_from us) BeginTx" "keeps (uuids_from us) Commit" "keeps (uuids_from us) (RunScript sc)"
  "keeps (uuids_from us) (SendVerificationEmail to tok)"
  "keeps (uuids_from us) (modify inc_signups)" "keeps (uuids_from us) (modify inc_login_failure)"
  "keeps (uuids_from us) (modify inc_login_success)" "keeps (uuids_from us) (modify inc_reuse)"
  by (auto simp: keeps_def uuids_from_def db_roundtrip_eq time_Now_eq rand_Read_def ExecContext_def roundtrip_bind
      exec_conn_def exec_tx_def QueryContext_def query_view_def BeginTx_eq Commit_eq RunScript_def SendVerificationEmail_def
      inc_signups_def inc_login_failure_def inc_login_success_def inc_reuse_def
      split: list.splits option.splits sum.splits exec.splits prod.splits)

lemma keeps_uuids_new [keeps_intros]: "keeps (uuids_from us) uuid_NewV7"
  by (auto simp: keeps_def uuids_from_def uuid_NewV7_def split: list.splits)

lemma keeps_uuids_composed [keeps_intros]:
  "keeps (uuids_from us) (QueryRowContext ex q)" "keeps (uuids_from us) (uuid_NewString L)"
  "keeps (uuids_from us) m \<Longrightarrow> keeps (uuids_from us) (deferM Rollback m)"
  unfolding QueryRowContext_def uuid_NewString_def
  by (intro keeps_intros keeps_deferM; simp add: uuids_from_def Rollback_def)+

lemma keeps_uuids_withTx [keeps_intros]: "keeps (uuids_from us) m \<Longrightarrow> keeps (uuids_from us) (withTx m)"
  unfolding withTx_def by (intro keeps_intros)

lemma keeps_uuids_publish [keeps_intros]: "keeps (uuids_from us) (broker_Publish env)"
  by (auto simp: keeps_def uuids_from_def broker_Publish_def bindM_def attempt_def time_Now_eq next_pub_def Let_def deliver_def
      split: if_splits pub_outcome.splits list.splits)

lemmas flat_defs = service_defs rotateHelper_def rotate_live_def rotate_reuse_def login_found_def login_unknown_def
    login_wrong_password_def login_succeed_def susloginfailure_def find_user_def loginFailed_def signUpTransaction_def
    signupResponseBuilder_def users_psql_defs email_defs refresh_psql_defs outbox_defs

lemma keeps_uuids_services [keeps_intros]:
  "keeps (uuids_from us) (Register S email pw)"
  "keeps (uuids_from us) (SignupService S ctx email un pw tn)"
  "keeps (uuids_from us) (VerifyEmail S raw)"
  "keeps (uuids_from us) (ResendVerification S ctx email)"
  "keeps (uuids_from us) (Login S ctx email pw ip)"
  "keeps (uuids_from us) (Refresh S ctx tok)"
  "keeps (uuids_from us) (Logout S ctx tok)"
  "keeps (uuids_from us) (RevokeAll ctx i)"
  "keeps (uuids_from us) (ChangePassword S ctx req ip)"
  "keeps (uuids_from us) (RequestResetPassword S ctx email ip)"
  "keeps (uuids_from us) (ResetPassword S ctx raw pw ip)"
  unfolding flat_defs by (intro keeps_intros)+

lemma keeps_uuids_worker: "keeps (uuids_from us) (worker_Run L wk cfg skip evs)"
proof -
  have "keeps (uuids_from us) (processOne L e)" for e
    unfolding processOne_def processor_fail_def outbox_defs
    by (cases "decodeHeaders (oe_Headers e)") (auto intro!: keeps_intros)
  then show ?thesis
    by (intro keeps_worker_Run keeps_ProcessBatch) (auto simp: uuids_from_def outbox_defs intro!: keeps_intros)
qed

lemma uuids_from_trans: "uuids_from us w \<Longrightarrow> uuids_from (w_uuids w) w' \<Longrightarrow> uuids_from us w'"
  by (auto simp: uuids_from_def)

lemma served_uuids: "served S w w' \<Longrightarrow> uuids_from (w_uuids w) w'"
  by (rule served_keeps[where I = "uuids_from (w_uuids w)"])
    (auto intro: keeps_uuids_services keeps_uuids_worker uuids_from_trans simp: uuids_from_def Rollback_def)

section \<open>Families of refresh tokens\<close>

definition live_in :: "uuid \<Rightarrow> db \<Rightarrow> refresh_row list" where
  "live_in f d = filter (\<lambda>r. rr_family_id r = f \<and> rr_revoked_at r = None) (refresh_tokens d)"

definition families :: "db \<Rightarrow> uuid set" where
  "families d = rr_family_id ` set (refresh_tokens d)"

definition lineage_ok :: "db \<Rightarrow> bool" where
  "lineage_ok d \<longleftrightarrow> (\<forall>r \<in> set (refresh_tokens d). \<forall>p. rr_ptoken_id r = Some p \<longrightarrow>
     (\<exists>q \<in> set (refresh_tokens d). rr_token_id q = p \<and> rr_family_id q = rr_family_id r \<and> rr_revoked_at q \<noteq> None))"

definition sess_ok :: "db \<Rightarrow> bool" where
  "sess_ok d \<longleftrightarrow> (\<forall>f. length (live_in f d) \<le> 1) \<and> lineage_ok d"

lemma sess_ok_cong: "refresh_tokens d' = refresh_tokens d \<Longrightarrow> sess_ok d' = sess_ok d"
  by (simp add: sess_ok_def live_in_def lineage_ok_def)

lemma live_in_revoke:
  "live_in f (revoke_rows p t d) = filter (\<lambda>r. \<not> p r) (live_in f d)"
proof -
  have "filter (\<lambda>r. rr_family_id r = f \<and> rr_revoked_at r = None) (update_where p (\<lambda>r. r\<lparr>rr_revoked_at := Some t\<rparr>) rs) =
      filter (\<lambda>r. \<not> p r) (filter (\<lambda>r. rr_family_id r = f \<and> rr_revoked_at r = None) rs)" for rs
    by (induction rs) auto
  then show ?thesis by (simp add: live_in_def)
qed

lemma live_in_add:
  "live_in f (add_refresh r d) = live_in f d @ (if rr_family_id r = f \<and> rr_revoked_at r = None then [r] else [])"
  by (simp add: live_in_def)

lemma families_simps [simp]:
  "families (add_refresh r d) = insert (rr_family_id r) (families d)" "families (revoke_rows p t d) = families d"
proof -
  show "families (add_refresh r d) = insert (rr_family_id r) (families d)" by (simp add: families_def)
  have "rr_family_id ` set (update_where p (\<lambda>r. r\<lparr>rr_revoked_at := Some t\<rparr>) rs) = rr_family_id ` set rs" for rs
    by (induction rs) auto
  then show "families (revoke_rows p t d) = families d" by (simp add: families_def)
qed

lemma live_in_fresh: "f \<notin> families d \<Longrightarrow> live_in f d = []"
  by (auto simp: live_in_def families_def filter_empty_conv)

lemma lineage_revoke: "lineage_ok d \<Longrightarrow> lineage_ok (revoke_rows p t d)"
  unfolding lineage_ok_def
proof (intro ballI allI impI)
  fix r par assume ok: "\<forall>r\<in>set (refresh_tokens d). \<forall>p. rr_ptoken_id r = Some p \<longrightarrow>
      (\<exists>q\<in>set (refresh_tokens d). rr_token_id q = p \<and> rr_family_id q = rr_family_id r \<and> rr_revoked_at q \<noteq> None)"
    and r: "r \<in> set (refresh_tokens (revoke_rows p t d))" "rr_ptoken_id r = Some par"
  from r obtain r0 where "r0 \<in> set (refresh_tokens d)" "rr_ptoken_id r0 = Some par" "rr_family_id r = rr_family_id r0"
    by (auto elim!: update_whereE split: if_splits)
  with ok obtain q where q: "q \<in> set (refresh_tokens d)" "rr_token_id q = par" "rr_family_id q = rr_family_id r"
    "rr_revoked_at q \<noteq> None" by metis
  let ?q = "if p q then q\<lparr>rr_revoked_at := Some t\<rparr> else q"
  have "?q \<in> set (refresh_tokens (revoke_rows p t d))" using q(1) by (auto simp: in_update_where_iff)
  moreover have "rr_token_id ?q = par" "rr_family_id ?q = rr_family_id r" "rr_revoked_at ?q \<noteq> None" using q by auto
  ultimately show "\<exists>q\<in>set (refresh_tokens (revoke_rows p t d)). rr_token_id q = par \<and>
      rr_family_id q = rr_family_id r \<and> rr_revoked_at q \<noteq> None" by blast
qed

lemma lineage_add:
  assumes "lineage_ok d" "\<And>p. rr_ptoken_id r = Some p \<Longrightarrow>
    \<exists>q \<in> set (refresh_tokens d). rr_token_id q = p \<and> rr_family_id q = rr_family_id r \<and> rr_revoked_at q \<noteq> None"
  shows "lineage_ok (add_refresh r d)"
  using assms unfolding lineage_ok_def by simp

lemma sess_ok_revoke: "sess_ok d \<Longrightarrow> sess_ok (revoke_rows p t d)"
  unfolding sess_ok_def by (auto simp: live_in_revoke lineage_revoke intro: le_trans[OF length_filter_le])

lemma sess_ok_fresh:
  assumes "sess_ok d" "rr_family_id r \<notin> families d" "rr_ptoken_id r = None"
  shows "sess_ok (add_refresh r d)"
  using assms live_in_fresh[OF assms(2)] unfolding sess_ok_def by (auto simp: live_in_add intro!: lineage_add)

lemma sess_ok_rotate:
  assumes ok: "sess_ok d" and r: "r \<in> set (refresh_tokens d)" "rr_revoked_at r = None" "rr_tenant_id r = tn"
    and n: "rr_family_id n = rr_family_id r" "rr_ptoken_id n = nullableUUID (rr_token_id r)"
  shows "sess_ok (add_refresh n (revoke_rows (\<lambda>x. rr_token_id x = rr_token_id r \<and> rr_tenant_id x = tn) t d))"
proof -
  let ?p = "\<lambda>x. rr_token_id x = rr_token_id r \<and> rr_tenant_id x = tn"
  let ?d = "revoke_rows ?p t d"
  have ok': "sess_ok ?d" by (rule sess_ok_revoke[OF ok])
  have mem: "r \<in> set (live_in (rr_family_id r) d)" using r by (simp add: live_in_def)
  moreover have "length (live_in (rr_family_id r) d) \<le> 1" using ok by (simp add: sess_ok_def)
  ultimately have "live_in (rr_family_id r) d = [r]" by (cases "live_in (rr_family_id r) d") auto
  then have "live_in (rr_family_id r) ?d = []" by (simp add: live_in_revoke r(3))
  with ok' n(1) have "length (live_in f (add_refresh n ?d)) \<le> 1" for f
    by (auto simp: live_in_add sess_ok_def)
  moreover have "r\<lparr>rr_revoked_at := Some t\<rparr> \<in> set (refresh_tokens ?d)" using r by (auto simp: in_update_where_iff)
  then have "lineage_ok (add_refresh n ?d)"
    using ok' n by (intro lineage_add) (auto simp: sess_ok_def nullableUUID_def split: if_splits intro!: bexI[of _ "r\<lparr>rr_revoked_at := Some t\<rparr>"])
  ultimately show ?thesis by (simp add: sess_ok_def)
qed

text \<open>The invariant that relates the tokens to the identifiers still to be drawn.\<close>

definition sess_inv :: "world \<Rightarrow> bool" where
  "sess_inv w \<longleftrightarrow> sess_ok (w_db w) \<and> distinct (w_uuids w) \<and> families (w_db w) \<inter> set (w_uuids w) = {}"

lemma sess_inv_next:
  assumes "sess_inv w" "w_uuids w = pre @ w_uuids w'" "sess_ok (w_db w')" "families (w_db w') \<subseteq> families (w_db w) \<union> set pre"
  shows "sess_inv w'"
  using assms unfolding sess_inv_def by auto

lemma sess_inv_same:
  assumes "sess_inv w" "uuids_from (w_uuids w) w'" "refresh_tokens (w_db w') = refresh_tokens (w_db w)"
  shows "sess_inv w'"
proof -
  from assms(2) obtain pre where "w_uuids w = pre @ w_uuids w'" by (auto simp: uuids_from_def)
  from sess_inv_next[OF assms(1) this] show ?thesis
    using assms(1,3) by (auto simp: sess_inv_def families_def sess_ok_cong[OF assms(3)])
qed

lemma sess_inv_revoke:
  assumes "sess_inv w" "uuids_from (w_uuids w) w'" "refresh_tokens (w_db w') = refresh_tokens (revoke_rows p t (w_db w))"
  shows "sess_inv w'"
proof -
  from assms(2) obtain pre where "w_uuids w = pre @ w_uuids w'" by (auto simp: uuids_from_def)
  moreover have "sess_ok (w_db w')"
    using assms(1) by (simp only: sess_ok_cong[OF assms(3)]) (simp add: sess_inv_def sess_ok_revoke)
  moreover have "families (w_db w') = families (w_db w)"
    using families_simps(2)[of p t "w_db w"] assms(3) by (simp only: families_def)
  ultimately show ?thesis using sess_inv_next[OF assms(1)] by auto
qed

lemma sess_inv_fresh:
  assumes "sess_inv w" "w_uuids w = pre @ w_uuids w'" "rr_family_id r \<in> set pre" "rr_ptoken_id r = None"
    and "refresh_tokens (w_db w') = refresh_tokens (add_refresh r (w_db w))"
  shows "sess_inv w'"
proof (rule sess_inv_next[OF assms(1,2)])
  have "rr_family_id r \<notin> families (w_db w)" using assms(1,2,3) by (auto simp: sess_inv_def)
  with assms(1,4) show "sess_ok (w_db w')"
    by (simp only: sess_ok_cong[OF assms(5)]) (simp add: sess_inv_def sess_ok_fresh)
  show "families (w_db w') \<subseteq> families (w_db w) \<union> set pre"
    using assms(3,5) by (auto simp: families_def)
qed

lemma Rollback_simps [simp]: "w_db (Rollback w) = w_db w" "w_uuids (Rollback w) = w_uuids w"
  "uuids_from us (Rollback w) = uuids_from us w" "sess_inv (Rollback w) = sess_inv w"
  by (simp_all add: Rollback_def uuids_from_def sess_inv_def)

lemma tokens_kept:
  assumes "keeps (db_inv (\<lambda>d. refresh_tokens d = rs)) m" "m w = (r, w')" "w_tx w = None" "refresh_tokens (w_db w) = rs"
  shows "refresh_tokens (w_db w') = rs"
  using keepsD[OF assms(1,2)] assms(3,4) by (simp add: db_inv_def)

lemma stmts_keep_tokens [keeps_intros]:
  fixes rs :: "refresh_row list"
  defines "J \<equiv> \<lambda>d. refresh_tokens d = rs"
  shows "stmt_keeps J (users_insert u)" "stmt_keeps J (upd_user i g)" "stmt_keeps J (insert_email e)"
    "stmt_keeps J (insert_reset p)" "stmt_keeps J (upd_reset q h)" "stmt_keeps J (insert_outbox oe)"
    "stmt_keeps J (mark_failed_stmt i t msg)" "stmt_keeps J (claim_stmt sk n wk l)"
    "stmt_keeps J (\<lambda>_ d. Inr (upd_event i g' d))"
    "stmt_keeps J (\<lambda>_ d. Inr (d\<lparr>email_tokens := k d\<rparr>))"
  by (auto simp: J_def stmt_keeps_def users_insert_def upd_user_def insert_email_def insert_reset_def upd_reset_def
      insert_outbox_def mark_failed_stmt_def claim_stmt_def upd_event_def split: if_splits)

lemma keeps_tokens_services:
  fixes rs :: "refresh_row list"
  shows "keeps (db_inv (\<lambda>d. refresh_tokens d = rs)) (Register S email pw)"
  "keeps (db_inv (\<lambda>d. refresh_tokens d = rs)) (VerifyEmail S raw)"
  "keeps (db_inv (\<lambda>d. refresh_tokens d = rs)) (ResendVerification S ctx email)"
  "keeps (db_inv (\<lambda>d. refresh_tokens d = rs)) (ChangePassword S ctx req ip)"
  "keeps (db_inv (\<lambda>d. refresh_tokens d = rs)) (RequestResetPassword S ctx email ip)"
  unfolding flat_defs by (intro keeps_intros)+

lemma keeps_tokens_worker:
  "keeps (db_inv (\<lambda>d. refresh_tokens d = (rs :: refresh_row list))) (worker_Run L wk cfg skip evs)"
proof -
  have "keeps (db_inv (\<lambda>d. refresh_tokens d = rs)) (processOne L e)" for e
    unfolding processOne_def processor_fail_def outbox_defs
    by (cases "decodeHeaders (oe_Headers e)") (auto intro!: keeps_intros)
  then show ?thesis
    by (intro keeps_worker_Run keeps_ProcessBatch) (auto simp: outbox_defs intro!: keeps_intros)
qed

section \<open>Every operation keeps the structure of the families\<close>

lemma signup_sess:
  assumes "SignupService S ctx email un pw tn w = (r, w')" "sess_inv w" "uuids_from (w_uuids w) w'"
  shows "sess_inv w'"
  using assms(1)
proof (cases rule: SignupService_cases)
  case Nothing
  then show ?thesis by (intro sess_inv_same[OF assms(2,3)]) simp
next
  case (Added u t pre)
  from Added(1) have "refresh_tokens (w_db w') = refresh_tokens (add_refresh (refresh_row_of (Some tn) t) (w_db w))"
    "rt_ParentToken t = uuid_Nil"
    by (auto simp: signed_up_def signup_rows_def)
  with Added(2,3) show ?thesis
    by (intro sess_inv_fresh[OF assms(2) Added(2), of "refresh_row_of (Some tn) t"]) (auto simp: nullableUUID_def)
qed

lemma login_sess:
  assumes "Login S ctx email pw ip w = (r, w')" "sess_inv w" "uuids_from (w_uuids w) w'"
  shows "sess_inv w'"
proof (cases "is_Ok r")
  case True
  with assms(1) obtain a b c where run: "Login S ctx email pw ip w = (Ok (a, b, c), w')"
    by (auto simp: is_Ok_iff)
  from Login_Ok[OF run] obtain tenant :: Tenant and user t e pre where
    t: "login_token S user b t" "w_uuids w = pre @ w_uuids w'" "rt_FamilyID t \<in> set pre"
    and db: "w_db w' = add_refresh (refresh_row_of (Some (t_ID tenant)) t) (add_event e (w_db w))" by blast
  then show ?thesis
    by (intro sess_inv_fresh[OF assms(2) t(2), of "refresh_row_of (Some (t_ID tenant)) t"])
      (auto simp: nullableUUID_def login_token_def)
next
  case False
  with atomicD[OF Login_atomic assms(1)] show ?thesis by (intro sess_inv_same[OF assms(2,3)]) simp
qed

lemma rotate_sess:
  assumes "rotateHelper S ctx tok w = (r, w')" "sess_inv w" "uuids_from (w_uuids w) w'"
  shows "sess_inv w'"
  using assms(1)
proof (cases rule: rotateHelper_cases)
  case (Rotated tenant plain model)
  from Rotated(3) obtain x at where x: "find_refresh (HashToken tok (sv_tokenSecret S)) (t_ID tenant) (w_db w) = Some x"
    "rr_revoked_at x = None" and m: "rt_FamilyID model = rr_family_id x" "rt_ParentToken model = rr_token_id x"
    and db: "w_db w' = add_refresh (refresh_row_of (Some (t_ID tenant)) model)
      (revoke_rows (\<lambda>y. rr_token_id y = rr_token_id x \<and> rr_tenant_id y = Some (t_ID tenant)) at (w_db w))"
    by (auto simp: rotated_def)
  from find_refresh_Some[OF x(1)] have mem: "x \<in> set (refresh_tokens (w_db w))" "rr_tenant_id x = Some (t_ID tenant)" by auto
  from assms(3) obtain pre where pre: "w_uuids w = pre @ w_uuids w'" by (auto simp: uuids_from_def)
  show ?thesis
  proof (rule sess_inv_next[OF assms(2) pre])
    show "sess_ok (w_db w')" unfolding db
      by (rule sess_ok_rotate[OF _ mem(1) x(2) mem(2)]) (use assms(2) m in \<open>auto simp: sess_inv_def\<close>)
    have "rr_family_id x \<in> families (w_db w)" using mem(1) by (simp add: families_def)
    with m(1) show "families (w_db w') \<subseteq> families (w_db w) \<union> set pre" by (auto simp: db)
  qed
next
  case (Reuse tenant x)
  then show ?thesis by (intro sess_inv_revoke[OF assms(2,3)]) simp
qed (intro sess_inv_same[OF assms(2,3)]; simp)+

lemma Refresh_run:
  assumes "Refresh S ctx tok w = (r, w')"
  shows "\<exists>r1 w1. rotateHelper S ctx tok w = (r1, w1) \<and> w_db w' = w_db w1 \<and> w_uuids w' = w_uuids w1"
proof -
  obtain r1 w1 where r1: "rotateHelper S ctx tok w = (r1, w1)" by fastforce
  have "w_db w' = w_db w1 \<and> w_uuids w' = w_uuids w1"
    using assms r1
    by (cases r1) (auto simp: Refresh_def bindM_def attempt_def users_FindByID_def QueryRow_Conn GenerateAccessToken_def
        time_Now_eq ret_sum_def split: if_splits option.splits sum.splits)
  with r1 show ?thesis by blast
qed

lemma refresh_sess:
  assumes "Refresh S ctx tok w = (r, w')" "sess_inv w" "uuids_from (w_uuids w) w'"
  shows "sess_inv w'"
proof -
  from Refresh_run[OF assms(1)] obtain r1 w1 where r1: "rotateHelper S ctx tok w = (r1, w1)" "w_db w' = w_db w1" "w_uuids w' = w_uuids w1"
    by blast
  with rotate_sess[OF r1(1) assms(2)] assms(3) show ?thesis by (simp add: uuids_from_def sess_inv_def)
qed

lemma maybe_revoked_sess:
  assumes "maybe_revoked (w_db w) (w_db w')" "sess_inv w" "uuids_from (w_uuids w) w'"
  shows "sess_inv w'"
  using assms(1) unfolding maybe_revoked_def
proof (elim disjE exE)
  fix i tn t assume "w_db w' = revoke_rows (of_user i tn) t (w_db w)"
  then show ?thesis by (intro sess_inv_revoke[OF assms(2,3)]) simp
qed (intro sess_inv_same[OF assms(2,3)], simp)

lemma logout_sess:
  assumes "Logout S ctx tok w = (r, w')" "sess_inv w" "uuids_from (w_uuids w) w'"
  shows "sess_inv w'"
proof (cases "is_Ok r")
  case True
  with assms(1) Logout_Ok[of S ctx tok w "()" w'] obtain p t where "w_db w' = revoke_rows p t (w_db w)"
    by (auto simp: is_Ok_iff)
  then show ?thesis by (intro sess_inv_revoke[OF assms(2,3)]) simp
next
  case False
  with atomicD[OF Logout_atomic assms(1)] show ?thesis by (intro sess_inv_same[OF assms(2,3)]) simp
qed

lemma revoke_all_sess:
  assumes "RevokeAll ctx i w = (r, w')" "sess_inv w" "uuids_from (w_uuids w) w'"
  shows "sess_inv w'"
proof (rule maybe_revoked_sess[OF _ assms(2,3)])
  show "maybe_revoked (w_db w) (w_db w')"
    using assms(1) RevokeAllForUser_touch by (auto simp: RevokeAll_def maybe_revoked_def split: option.splits)
qed

lemma reset_sess:
  assumes "ResetPassword S ctx raw pw ip w = (r, w')" "sess_inv w" "uuids_from (w_uuids w) w'"
  shows "sess_inv w'"
proof (cases "is_Ok r")
  case True
  with assms(1) ResetPassword_Ok[of S ctx raw pw ip w "()" w'] obtain e p t d where
    "w_db w' = add_event e (revoke_rows p t d)" "refresh_tokens d = refresh_tokens (w_db w)"
    by (auto simp: is_Ok_iff)
  then show ?thesis by (intro sess_inv_revoke[OF assms(2,3), of p t]) simp
next
  case False
  from on_failureD[OF ResetPassword_failure assms(1) False] show ?thesis by (rule maybe_revoked_sess[OF _ assms(2,3)])
qed

definition session_state :: "world \<Rightarrow> bool" where
  "session_state w \<longleftrightarrow> wf_state w \<and> sess_inv w"

lemma served_session:
  assumes "session_state w" "served S w w'"
  shows "session_state w'"
proof -
  from assms(1) have tx: "w_tx w = None" and s: "sess_inv w" by (auto simp: session_state_def wf_state_def)
  note u = served_uuids[OF assms(2)]
  note same = sess_inv_same[OF s] and kept = tokens_kept[OF _ _ tx refl]
  from assms(2) have "sess_inv w'"
  proof cases
    case (served_register email pw r v)
    with same[OF u] kept[OF keeps_tokens_services(1)] show ?thesis by simp
  next
    case (served_signup ctx email un pw tn r v)
    with signup_sess[OF served_signup(2) s] u show ?thesis by simp
  next
    case (served_verify raw r v)
    with same[OF u] kept[OF keeps_tokens_services(2)] show ?thesis by simp
  next
    case (served_resend ctx email r v)
    with same[OF u] kept[OF keeps_tokens_services(3)] show ?thesis by simp
  next
    case (served_login ctx email pw ip r v)
    with login_sess[OF served_login(2) s] u show ?thesis by simp
  next
    case (served_refresh ctx tok r v)
    with refresh_sess[OF served_refresh(2) s] u show ?thesis by simp
  next
    case (served_logout ctx tok r v)
    with logout_sess[OF served_logout(2) s] u show ?thesis by simp
  next
    case (served_revoke ctx i r v)
    with revoke_all_sess[OF served_revoke(2) s] u show ?thesis by simp
  next
    case (served_change ctx req ip r v)
    with same[OF u] kept[OF keeps_tokens_services(4)] show ?thesis by simp
  next
    case (served_request ctx email ip r v)
    with same[OF u] kept[OF keeps_tokens_services(5)] show ?thesis by simp
  next
    case (served_reset ctx raw pw ip r v)
    with reset_sess[OF served_reset(2) s] u show ?thesis by simp
  next
    case (served_worker wk cfg skip evs r v)
    with same[OF u] kept[OF keeps_tokens_worker] show ?thesis by simp
  next
    case served_env
    then show ?thesis by (intro same[OF u]) simp
  qed
  with served_wf[OF _ assms(2)] assms(1) show ?thesis by (simp add: session_state_def)
qed

interpretation sessions: inductive_invariant start "served S" session_state for S
proof unfold_locales
  fix w assume "start w"
  then show "session_state w"
    by (auto simp: start_def session_state_def wf_state_def sess_inv_def sess_ok_def live_in_def lineage_ok_def families_def)
qed (rule served_session)

section \<open>Properties of all histories\<close>

text \<open>
  After any history the tables satisfy the constraints of the schema: primary keys, one account per tenant
  and address, unique user names and tenants, foreign keys, allowed states.
\<close>

lemma reachable_tables_wf: "reachable S w \<Longrightarrow> db_wf (w_db w)"
  using integrity.reach_inv by (simp add: wf_state_def)

lemma sample_start: "start sample_world"
  using sample_db_wf by (simp add: start_def sample_db_def empty_db_def)

lemma sample_reach: "reachable sample_S sample_world"
  by (rule reach_init) (rule sample_start)

section \<open>Transactions are closed\<close>

text \<open>Outside a transaction: the calls that keep it that way.\<close>

abbreviation no_tx :: "world \<Rightarrow> bool" where
  "no_tx w \<equiv> w_tx w = None"

lemma keeps_no_tx_basic [keeps_intros]:
  "keeps no_tx time_Now" "keeps no_tx (rand_Read n)" "keeps no_tx uuid_NewV7"
  "keeps no_tx (ExecContext Conn s)" "keeps no_tx (QueryContext Conn q)" "keeps no_tx (RunScript sc)"
  "keeps no_tx (SendVerificationEmail to tok)"
  "keeps no_tx (modify inc_signups)" "keeps no_tx (modify inc_login_failure)"
  "keeps no_tx (modify inc_login_success)" "keeps no_tx (modify inc_reuse)"
  by (auto simp: keeps_def db_roundtrip_eq time_Now_eq rand_Read_def uuid_NewV7_def ExecContext_def roundtrip_bind
      exec_conn_def QueryContext_def query_view_def RunScript_def SendVerificationEmail_def
      inc_signups_def inc_login_failure_def inc_login_success_def inc_reuse_def
      split: list.splits option.splits sum.splits prod.splits)

lemma keeps_no_tx_composed [keeps_intros]:
  "keeps no_tx (QueryRowContext Conn q)" "keeps no_tx (uuid_NewString L)" "keeps no_tx (withTx m)"
proof -
  show "keeps no_tx (QueryRowContext Conn q)" "keeps no_tx (uuid_NewString L)"
    unfolding QueryRowContext_def uuid_NewString_def by (intro keeps_intros)+
  show "keeps no_tx (withTx m)"
    unfolding keeps_def using withTx_closes[of m] by (auto intro: prod.collapse[symmetric])
qed

lemma keeps_no_tx_services:
  "keeps no_tx (Register S email pw)"
  "keeps no_tx (SignupService S ctx email un pw tn)"
  "keeps no_tx (VerifyEmail S raw)"
  "keeps no_tx (ResendVerification S ctx email)"
  "keeps no_tx (Refresh S ctx tok)"
  "keeps no_tx (Logout S ctx tok)"
  "keeps no_tx (RevokeAll ctx i)"
  "keeps no_tx (ChangePassword S ctx req ip)"
  "keeps no_tx (RequestResetPassword S ctx email ip)"
  "keeps no_tx (ResetPassword S ctx raw pw ip)"
  unfolding flat_defs by (intro keeps_intros)+

lemma login_parts_no_tx:
  "keeps no_tx (find_user email tn)" "keeps no_tx (login_succeed S user tenant ip)"
  unfolding find_user_def login_succeed_def login_prepare_def users_psql_defs
  by (intro keeps_intros)+

lemma Login_Ok_no_tx:
  assumes "Login S ctx email pw ip w = (Ok x, w')" "w_tx w = None"
  shows "w_tx w' = None"
proof -
  have nofail: "login_unknown email ip v \<noteq> (Ok y, v')" "login_wrong_password u tn email ip v \<noteq> (Ok y, v')"
    for u tn v v' and y :: "string \<times> string \<times> string"
    by (auto simp: login_unknown_def login_wrong_password_def loginFailed_def bindM_Ok_iff attempt_Ok_iff
        deferM_iff split: if_splits)
  obtain tenant where t: "TenantFromContext ctx = Some tenant"
    using assms(1) by (auto simp: Login_def split: option.splits)
  from assms(1) t obtain found w1 where f: "find_user email (t_ID tenant) w = (Ok found, w1)"
    and rest: "(case found of None \<Rightarrow> login_unknown email ip | Some user \<Rightarrow> login_found S tenant email pw ip user) w1 = (Ok x, w')"
    by (auto simp: Login_def bindM_Ok_iff)
  from rest nofail obtain user where "login_succeed S user tenant ip w1 = (Ok x, w')"
    by (cases found) (auto simp: login_found_def split: option.splits if_splits)
  with keepsD[OF login_parts_no_tx(1) f assms(2)] show ?thesis
    by (blast dest: keepsD[OF login_parts_no_tx(2)])
qed

text \<open>
  C14: No operation of the service leaves a transaction open: whatever fails on the way, and when it panics
  too, it has committed or rolled back before it returns. Login is the exception: it is claimed of the
  logins that succeed. (The rollback of a failed one may be missing, see
  \<open>login_leaves_transaction_open\<close>; it then comes with the end of the request's context.)
\<close>

theorem transactions_closed:
  assumes "w_tx w = None"
  shows "w_tx (snd (Register S email pw w)) = None \<and>
    w_tx (snd (SignupService S ctx email un pw tn w)) = None \<and>
    w_tx (snd (VerifyEmail S raw w)) = None \<and>
    w_tx (snd (ResendVerification S ctx email w)) = None \<and>
    (is_Ok (fst (Login S ctx email pw ip w)) \<longrightarrow> w_tx (snd (Login S ctx email pw ip w)) = None) \<and>
    w_tx (snd (Refresh S ctx tok w)) = None \<and>
    w_tx (snd (Logout S ctx tok w)) = None \<and>
    w_tx (snd (RevokeAll ctx i w)) = None \<and>
    w_tx (snd (ChangePassword S ctx req ip w)) = None \<and>
    w_tx (snd (RequestResetPassword S ctx email ip w)) = None \<and>
    w_tx (snd (ResetPassword S ctx raw pw ip w)) = None"
proof -
  note k = keeps_no_tx_services[unfolded keeps_def, rule_format, OF assms]
  have "is_Ok (fst (Login S ctx email pw ip w)) \<longrightarrow> w_tx (snd (Login S ctx email pw ip w)) = None"
    using Login_Ok_no_tx[OF _ assms] by (metis is_Ok_iff prod.collapse)
  then show ?thesis by (intro conjI k)
qed

lemma transactions_closed_witness:
  "\<exists>x w1. Login sample_S acme_ctx ''a@b'' ''password12'' ''1.1.1.1'' sample_world = (Ok x, w1) \<and> w_tx w1 = None \<and>
     w_tx (snd (Refresh sample_S acme_ctx ''tok'' (session_world None))) = None"
proof -
  obtain x w1 where run: "Login sample_S acme_ctx ''a@b'' ''password12'' ''1.1.1.1'' sample_world = (Ok x, w1)"
    using sample_login by blast
  with transactions_closed[of sample_world _ "''a@b''" "''password12''"] have "w_tx w1 = None"
    by (metis sample_world_simps(2) fst_conv snd_conv is_Ok_iff)
  moreover have "w_tx (snd (Refresh sample_S acme_ctx ''tok'' (session_world None))) = None"
    using transactions_closed[of "session_world None"] by simp
  ultimately show ?thesis using run by blast
qed

text \<open>
  C10: After any history every token family has at most one token that is not revoked.
\<close>

theorem one_live_token_per_family:
  assumes "reachable S w"
  shows "length (filter (\<lambda>r. rr_family_id r = f \<and> rr_revoked_at r = None) (refresh_tokens (w_db w))) \<le> 1"
  using sessions.reach_inv[OF assms] by (simp add: session_state_def sess_inv_def sess_ok_def live_in_def)

lemma login_reached:
  "\<exists>a b c w1. Login sample_S acme_ctx ''a@b'' ''password12'' ''1.1.1.1'' sample_world = (Ok (a, b, c), w1) \<and>
     reachable sample_S (Rollback w1) \<and> w_uuids w1 = [14, 15] \<and> w_now w1 = 1000 \<and> w_ticks w1 = [] \<and>
     w_faults w1 = [] \<and> w_rand w1 = [[2], [3], [4], [5], [6]] \<and>
     map rr_token_id (refresh_tokens (w_db w1)) = [12] \<and> map rr_expires_at (refresh_tokens (w_db w1)) = [1000 + refreshTTL]"
proof -
  obtain a b c w1 where run: "Login sample_S acme_ctx ''a@b'' ''password12'' ''1.1.1.1'' sample_world = (Ok (a, b, c), w1)"
    and st: "w_uuids w1 = [14, 15]" "w_now w1 = 1000" "w_ticks w1 = []" "w_faults w1 = []" "w_rand w1 = [[2], [3], [4], [5], [6]]"
      "map rr_token_id (refresh_tokens (w_db w1)) = [12]" "map rr_expires_at (refresh_tokens (w_db w1)) = [1000 + refreshTTL]"
    using sample_login by (metis prod_cases3)
  have "reachable sample_S (Rollback w1)" by (rule reach_step[OF sample_reach]) (rule served_login[OF run])
  then show ?thesis by (intro exI conjI) (rule run, assumption, rule st(1), rule st(2), rule st(3), rule st(4), rule st(5), rule st(6), rule st(7))
qed

lemma one_live_token_per_family_witness:
  "\<exists>w r. reachable sample_S w \<and> refresh_tokens (w_db w) = [r] \<and>
     length (filter (\<lambda>x. rr_family_id x = rr_family_id r \<and> rr_revoked_at x = None) (refresh_tokens (w_db w))) = 1"
proof -
  obtain a b c w1 where run: "Login sample_S acme_ctx ''a@b'' ''password12'' ''1.1.1.1'' sample_world = (Ok (a, b, c), w1)"
    and re: "reachable sample_S (Rollback w1)" using login_reached by blast
  from Login_Ok[OF run] obtain t where t: "refresh_tokens (w_db w1) = [refresh_row_of (Some 3) t]"
    by (auto simp: sample_db_def empty_db_def)
  with re one_live_token_per_family[OF re, of "rt_FamilyID t"] show ?thesis
    by (intro exI[of _ "Rollback w1"] exI[of _ "refresh_row_of (Some 3) t"]) simp
qed

text \<open>
  After any history every refresh token that names a parent was made from a stored token of the same
  family that is revoked.
\<close>

lemma token_lineage:
  assumes "reachable S w" "r \<in> set (refresh_tokens (w_db w))" "rr_ptoken_id r = Some p"
  shows "\<exists>q \<in> set (refresh_tokens (w_db w)). rr_token_id q = p \<and> rr_family_id q = rr_family_id r \<and> rr_revoked_at q \<noteq> None"
  using sessions.reach_inv[OF assms(1)] assms(2,3)
  by (simp add: session_state_def sess_inv_def sess_ok_def lineage_ok_def)

lemma rotate_quiet:
  assumes "w_faults w = []" "w_ticks w = []" "TenantFromContext ctx = Some tenant" "db_wf (w_db w)"
    and f: "find_refresh (HashToken tok (sv_tokenSecret S)) (t_ID tenant) (w_db w) = Some x"
    and "rr_revoked_at x = None" "w_now w \<le> rr_expires_at x"
    and "w_rand w = b # bs" "w_uuids w = i # us" "i \<notin> rr_token_id ` set (refresh_tokens (w_db w))"
  shows "\<exists>plain model w'. rotateHelper S ctx tok w = (Ok (plain, model), w')"
proof -
  have "x \<in> set (refresh_tokens (w_db w))" using find_refresh_Some[OF f] by simp
  then have "rr_user_id x \<in> user_ids (w_db w)" using assms(4) by (simp add: db_wf_def)
  with assms show ?thesis
    by (simp add: rotateHelper_def withTx_eq attempt_def refresh_FindbyHash_def QueryRow_Tx next_ok_def find_refresh_def[symmetric]
      bindM_def time_Now_eq tick_quiet rotate_live_def refresh_Revoke_def ExecContext_Tx exec_tx_def
      upd_refresh_def GenerateRefreshToken_def rand_Read_def uuid_NewV7_def refresh_CreateTx_def
      insert_refresh_def Commit_eq Let_def user_ids_def)
qed

lemma token_lineage_witness:
  "\<exists>w q. reachable sample_S w \<and> q \<in> set (refresh_tokens (w_db w)) \<and> rr_revoked_at q \<noteq> None"
proof -
  obtain a b c w1 where run: "Login sample_S acme_ctx ''a@b'' ''password12'' ''1.1.1.1'' sample_world = (Ok (a, b, c), w1)"
    and re: "reachable sample_S (Rollback w1)"
    and st: "w_uuids w1 = [14, 15]" "w_now w1 = 1000" "w_ticks w1 = []" "w_faults w1 = []" "w_rand w1 = [[2], [3], [4], [5], [6]]"
      "map rr_token_id (refresh_tokens (w_db w1)) = [12]" "map rr_expires_at (refresh_tokens (w_db w1)) = [1000 + refreshTTL]"
    using login_reached by (elim exE conjE) (rule that)
  from Login_Ok[OF run] obtain t where t: "refresh_tokens (w_db w1) = [refresh_row_of (Some 3) t]"
    "rt_TokenHash t = HashToken b ''s''"
    by (auto simp: sample_db_def empty_db_def login_token_def)
  let ?w = "Rollback w1" and ?x = "refresh_row_of (Some 3) t"
  have "find_refresh (HashToken b ''s'') 3 (w_db ?w) = Some ?x" by (simp add: find_refresh_def t)
  then obtain plain model w3 where rot: "rotateHelper sample_S acme_ctx b ?w = (Ok (plain, model), w3)"
    using rotate_quiet[of ?w acme_ctx acme b sample_S ?x "[2]" "[[3], [4], [5], [6]]" 14 "[15]"] st t
      integrity.reach_inv[OF re]
    by (auto simp: Rollback_def wf_state_def refreshTTL_def duration_defs)
  obtain r4 w4 where ref: "Refresh sample_S acme_ctx b ?w = (r4, w4)" by fastforce
  have re4: "reachable sample_S (Rollback w4)" by (rule reach_step[OF re]) (rule served_refresh[OF ref])
  from Refresh_run[OF ref] rot have "w_db w4 = w_db w3" by auto
  moreover from rotateHelper_Ok[OF rot] have "refresh_row_of (Some 3) model \<in> set (refresh_tokens (w_db w3))"
    "rt_ParentToken model = 12" using st(6) t by (auto simp: rotated_def find_refresh_def split: if_splits)
  ultimately show ?thesis
    using token_lineage[OF re4, of "refresh_row_of (Some 3) model" 12] re4
    by (intro exI[of _ "Rollback w4"]) (auto simp: nullableUUID_def uuid_Nil_def)
qed

end
