(* ===== verification/Http_Refinement.thy ===== *)
theory Http_Refinement
  imports Router Reachable
begin

text \<open>
  Every HTTP request, through the whole chain of middlewares and whichever route chi picks, acts on
  the state as a sequence of the steps of \<^theory_text>\<open>Reachable\<close>: nothing but one operation of the service
  and steps that leave the database alone. So every invariant of the histories of the service holds for
  histories of HTTP requests.
\<close>

section \<open>Calls that leave the database alone\<close>

definition benign :: "'a M \<Rightarrow> bool" where
  "benign m \<longleftrightarrow> (\<forall>w r w'. m w = (r, w') \<longrightarrow>
     w_db w' = w_db w \<and> w_tx w' = w_tx w \<and> uuids_from (w_uuids w) w' \<and> w_now w \<le> w_now w')"

named_theorems benign_intros \<open>calls that leave the database alone\<close>

lemma benignD:
  "benign m \<Longrightarrow> m w = (r, w') \<Longrightarrow>
     w_db w' = w_db w \<and> w_tx w' = w_tx w \<and> uuids_from (w_uuids w) w' \<and> w_now w \<le> w_now w'"
  by (auto simp: benign_def)

lemma uuids_from_refl [simp]: "uuids_from (w_uuids w) w" "w_uuids w' = w_uuids w \<Longrightarrow> uuids_from (w_uuids w) w'"
  by (auto simp: uuids_from_def)

lemma benign_pure [benign_intros]:
  "benign (ret a)" "benign (throw e)" "benign (panic s)" "benign (gets f)"
  by (auto simp: benign_def)

lemma benign_attempt [benign_intros]:
  assumes "benign m" "\<And>e. benign (h e)" "\<And>a. benign (k a)"
  shows "benign (attempt m h k)"
  unfolding benign_def
proof (intro allI impI)
  fix w r w' assume "attempt m h k w = (r, w')"
  then show "w_db w' = w_db w \<and> w_tx w' = w_tx w \<and> uuids_from (w_uuids w) w' \<and> w_now w \<le> w_now w'"
  proof (cases rule: attempt_cases)
    case (Ok a w1)
    with benignD[OF assms(1) Ok(1)] benignD[OF assms(3) Ok(2)] show ?thesis by (auto intro: uuids_from_trans)
  next
    case (Err e w1)
    with benignD[OF assms(1) Err(1)] benignD[OF assms(2) Err(2)] show ?thesis by (auto intro: uuids_from_trans)
  next
    case (Panic s)
    with benignD[OF assms(1) Panic(1)] show ?thesis by simp
  qed
qed

lemma benign_bind [benign_intros]: "benign m \<Longrightarrow> (\<And>a. benign (k a)) \<Longrightarrow> benign (bindM m k)"
  unfolding bindM_def by (intro benign_intros)

lemma benign_basic [benign_intros]:
  "benign time_Now" "benign db_roundtrip" "benign (RunScript s)" "benign uuid_NewV7"
  by (auto simp: benign_def time_Now_eq tick_mono db_roundtrip_def RunScript_def uuid_NewV7_def uuids_from_def
      split: list.splits option.splits prod.splits)

lemma benign_uuid_NewString [benign_intros]: "benign (uuid_NewString L)"
  unfolding uuid_NewString_def by (intro benign_intros)

lemma benign_log [benign_intros]: "benign (modify (log_at l m a))" "benign (modify (count_request p q s))"
  "benign (modify (observe_duration p q d))"
  by (auto simp: benign_def)

lemma benign_if [benign_intros]: "benign m \<Longrightarrow> benign n \<Longrightarrow> benign (if b then m else n)" by simp

lemma benign_limiter [benign_intros]:
  "benign (limiter_CheckLogin ip em)" "benign (limiter_CheckSignup ip)" "benign (limiter_CheckPasswordResetRequest ip em)"
  unfolding limiter_defs by (intro benign_intros)+

lemma benign_tenant [benign_intros]: "benign (tenants_FindByTenantName n)"
  unfolding benign_def by (auto dest!: psql_tenants.find_frame)

section \<open>Calls that act like steps of the service\<close>

definition serves :: "Service \<Rightarrow> 'a M \<Rightarrow> bool" where
  "serves S m \<longleftrightarrow> (\<forall>w r w'. w_tx w = None \<longrightarrow> m w = (r, w') \<longrightarrow> (served S)\<^sup>*\<^sup>* w (Rollback w'))"

named_theorems serves_intros \<open>calls that act like steps of the service\<close>

lemma servesD: "serves S m \<Longrightarrow> m w = (r, w') \<Longrightarrow> w_tx w = None \<Longrightarrow> (served S)\<^sup>*\<^sup>* w (Rollback w')"
  by (auto simp: serves_def)

lemma Rollback_fields [simp]: "w_tx (Rollback w) = None" "w_now (Rollback w) = w_now w"
  by (simp_all add: Rollback_def)

lemma env_step:
  "w_db w' = w_db w \<Longrightarrow> w_tx w' = None \<Longrightarrow> uuids_from (w_uuids w) w' \<Longrightarrow> w_now w \<le> w_now w' \<Longrightarrow> (served S)\<^sup>*\<^sup>* w w'"
  by (rule r_into_rtranclp) (rule served_env)

lemma benign_serves: "benign m \<Longrightarrow> serves S m"
  unfolding serves_def by (auto dest!: benignD intro!: env_step)

lemma serves_call:
  assumes "\<And>w r w'. c w = (r, w') \<Longrightarrow> served S w (Rollback w')" "\<And>e. \<exists>x. h e = ret x" "\<And>a. \<exists>x. k a = ret x"
  shows "serves S (attempt c h k)"
  unfolding serves_def
proof (intro allI impI)
  fix w r w' assume "attempt c h k w = (r, w')"
  then have "\<exists>r1. c w = (r1, w')"
  proof (cases rule: attempt_cases)
    case (Ok a w1)
    with assms(3)[of a] show ?thesis by auto
  next
    case (Err e w1)
    with assms(2)[of e] show ?thesis by auto
  qed auto
  with assms(1) show "(served S)\<^sup>*\<^sup>* w (Rollback w')" by blast
qed

lemma serves_after:
  assumes "benign m" "\<And>e. serves S (h e)" "\<And>a. serves S (k a)"
  shows "serves S (attempt m h k)"
  unfolding serves_def
proof (intro allI impI)
  fix w r w' assume tx: "w_tx w = None" and "attempt m h k w = (r, w')"
  from this(2) show "(served S)\<^sup>*\<^sup>* w (Rollback w')"
  proof (cases rule: attempt_cases)
    case (Ok a w1)
    from benignD[OF assms(1) Ok(1)] tx have "(served S)\<^sup>*\<^sup>* w w1" "w_tx w1 = None" by (auto intro: env_step)
    with servesD[OF assms(3) Ok(2)] show ?thesis by auto
  next
    case (Err e w1)
    from benignD[OF assms(1) Err(1)] tx have "(served S)\<^sup>*\<^sup>* w w1" "w_tx w1 = None" by (auto intro: env_step)
    with servesD[OF assms(2) Err(2)] show ?thesis by auto
  next
    case (Panic s)
    with benignD[OF assms(1) Panic(1)] show ?thesis by (auto intro: env_step)
  qed
qed

lemma serves_then:
  assumes "serves S m" "\<And>a. benign (k a)"
  shows "serves S (bindM m k)"
  unfolding serves_def
proof (intro allI impI)
  fix w r w' assume tx: "w_tx w = None" and run: "bindM m k w = (r, w')"
  from run[unfolded bindM_def] show "(served S)\<^sup>*\<^sup>* w (Rollback w')"
  proof (cases rule: attempt_cases)
    case (Ok a w1)
    note b = benignD[OF assms(2) Ok(2)]
    have "(served S)\<^sup>*\<^sup>* (Rollback w1) (Rollback w')" by (rule env_step) (use b in \<open>auto simp: uuids_from_def\<close>)
    with servesD[OF assms(1) Ok(1) tx] show ?thesis by auto
  next
    case (Err e w1)
    with servesD[OF assms(1) Err(1) tx] show ?thesis by auto
  next
    case (Panic s)
    with servesD[OF assms(1) Panic(1) tx] show ?thesis by auto
  qed
qed

lemma serves_bind_after: "benign m \<Longrightarrow> (\<And>a. serves S (k a)) \<Longrightarrow> serves S (bindM m k)"
  unfolding bindM_def by (rule serves_after) (auto intro: benign_serves benign_pure)

lemma serves_if [serves_intros]: "serves S m \<Longrightarrow> serves S n \<Longrightarrow> serves S (if b then m else n)" by simp

lemma serves_case_option [serves_intros]:
  "serves S m \<Longrightarrow> (\<And>x. serves S (k x)) \<Longrightarrow> serves S (case z of None \<Rightarrow> m | Some x \<Rightarrow> k x)"
  by (cases z) auto

lemma serves_case_prod [serves_intros]: "(\<And>a b. serves S (k a b)) \<Longrightarrow> serves S (case z of (a, b) \<Rightarrow> k a b)"
  by (cases z) auto

lemma serves_Let [serves_intros]: "(\<And>a. serves S (k a)) \<Longrightarrow> serves S (let x = z in k x)" by simp

lemma serves_pure [serves_intros]: "serves S (ret a)" "serves S (panic s)"
  by (intro benign_serves benign_intros)+

lemma serves_withBody [serves_intros]:
  "serves S bad \<Longrightarrow> (\<And>f. serves S (good f)) \<Longrightarrow> serves S (withBody strict names r bad good)"
  unfolding withBody_def by (intro serves_intros)

lemma serves_service [serves_intros]:
  assumes "\<And>e. \<exists>x. h e = ret x" "\<And>a. \<exists>x. k a = ret x"
  shows "serves S (attempt (Register S email pw) h k)"
    and "serves S (attempt (VerifyEmail S raw) h k)"
    and "serves S (attempt (ResendVerification S ctx email) h k)"
    and "serves S (attempt (Logout S ctx tok) h k)"
    and "serves S (attempt (RevokeAll ctx i) h k)"
    and "serves S (attempt (ChangePassword S ctx req ip) h k)"
    and "serves S (attempt (RequestResetPassword S ctx email ip) h k)"
    and "serves S (attempt (ResetPassword S ctx raw pw ip) h k)"
  by (rule serves_call[OF _ assms], erule served.intros)+

lemma serves_service_values [serves_intros]:
  assumes "\<And>e. \<exists>x. h e = ret x"
  shows "(\<And>a. \<exists>x. k a = ret x) \<Longrightarrow> serves S (attempt (SignupService S ctx email un pw tn) h k)"
    and "(\<And>a. \<exists>x. k' a = ret x) \<Longrightarrow> serves S (attempt (Login S ctx email pw ip) h k')"
    and "(\<And>a. \<exists>x. k'' a = ret x) \<Longrightarrow> serves S (attempt (Refresh S ctx tok) h k'')"
  by (rule serves_call[OF _ assms], erule served.intros, blast)+

lemma ex_ret: "\<exists>x. ret a = ret x" by (rule exI) (rule refl)

lemma ex_ret_prod: "(\<And>a b. \<exists>x. k a b = ret x) \<Longrightarrow> \<exists>x. (case z of (a, b) \<Rightarrow> k a b) = ret x"
  by (cases z) auto

lemma serves_handlers:
  "serves S (registerHandler S r)" "serves S (signupHandler S r)" "serves S (verifyEmailHandler S r)"
  "serves S (resendVerificationHandler S r)" "serves S (loginHandler S r)" "serves S (refreshHandler S r)"
  "serves S (logoutHandler S r)" "serves S (revokeAllHandler S r)" "serves S (changePasswordHandler S r)"
  "serves S (sendResetPasswordEmailHandler S r)" "serves S (resetPasswordHandler S r)" "serves S (meHandler r)"
  unfolding handler_defs by (intro serves_intros ex_ret ex_ret_prod)+

lemma serves_health: "serves S (healthhandler r)"
  unfolding healthhandler_def by (intro benign_serves benign_intros)

section \<open>The middlewares\<close>

lemma serves_TenantMiddleware:
  "(\<And>r. serves S (next' r)) \<Longrightarrow> serves S (TenantMiddleware next' r)"
  unfolding TenantMiddleware_def by (intro serves_intros serves_after benign_intros)

lemma serves_limited: "benign chk \<Longrightarrow> (\<And>r. serves S (next' r)) \<Longrightarrow> serves S (limited chk next' r)"
  unfolding limited_def by (intro serves_intros serves_after serves_bind_after benign_intros) auto

lemma serves_RateLimitMiddleware:
  "(\<And>r. serves S (next' r)) \<Longrightarrow> serves S (RateLimitMiddleware next' r)"
  unfolding RateLimitMiddleware_def by (intro serves_intros serves_limited benign_intros) auto

lemma serves_JWTMiddleware:
  assumes "\<And>r. serves S (next' r)"
  shows "serves S (JWTMiddleware L pub next' r)"
  unfolding JWTMiddleware_def Let_def
  by (intro serves_intros serves_bind_after benign_intros) (auto split: sum.splits intro!: serves_intros assms)

lemma serves_dispatch: "serves S (dispatch X S r)"
proof (rule dispatch_endpoints)
  show "serves S (tenant_group h r)" if "h \<in> set (tenant_handlers S)" for h
    unfolding tenant_group_def
    by (intro serves_TenantMiddleware serves_RateLimitMiddleware)
      (use that serves_handlers in \<open>auto simp: tenant_handlers_def\<close>)
  show "serves S (jwt_group S meHandler r)" "serves S (jwt_group S (revokeAllHandler S) r)"
    unfolding jwt_group_def by (intro serves_JWTMiddleware serves_handlers)+
qed (intro serves_health benign_serves benign_intros)+

lemma serves_RecovererMiddleware: "serves S (next' r) \<Longrightarrow> serves S (RecovererMiddleware next' r)"
  unfolding serves_def
proof (intro allI impI)
  fix w rs w' assume s: "\<forall>w rs w'. w_tx w = None \<longrightarrow> next' r w = (rs, w') \<longrightarrow> (served S)\<^sup>*\<^sup>* w (Rollback w')"
    and tx: "w_tx w = None" and run: "RecovererMiddleware next' r w = (rs, w')"
  obtain r1 w1 where n: "next' r w = (r1, w1)" by fastforce
  with s tx have "(served S)\<^sup>*\<^sup>* w (Rollback w1)" by blast
  moreover have "w_db w' = w_db w1" "w_uuids w' = w_uuids w1" "w_now w' = w_now w1"
    using run n by (auto simp: RecovererMiddleware_def split: res.splits)
  then have "(served S)\<^sup>*\<^sup>* (Rollback w1) (Rollback w')" by (intro env_step) (auto simp: uuids_from_def)
  ultimately show "(served S)\<^sup>*\<^sup>* w (Rollback w')" by auto
qed

lemma serves_InitRouter: "serves S (InitRouter cfg X S r)"
proof -
  have log: "serves S (LoggingMiddleware (RecovererMiddleware (dispatch X S)) r)" for r
    unfolding LoggingMiddleware_def
    by (intro serves_bind_after serves_then serves_RecovererMiddleware serves_dispatch benign_intros)
  have met: "serves S (MetricsMiddleware p (LoggingMiddleware (RecovererMiddleware (dispatch X S))) r)" for p r
    unfolding MetricsMiddleware_def Let_def by (intro serves_bind_after serves_then log benign_intros)
  have rid: "serves S (RequestIDMiddleware (sv_lib S) (MetricsMiddleware p (LoggingMiddleware (RecovererMiddleware (dispatch X S)))) r)" for p r
    unfolding RequestIDMiddleware_def Let_def
    by (intro serves_intros serves_after serves_bind_after serves_then met benign_intros)
  show ?thesis
    unfolding InitRouter_def limit_body_def cors_Handler_def
    by (intro serves_intros serves_then rid benign_intros)
qed

lemma ServeHTTP_served:
  assumes "w_tx w = None"
  shows "(served S)\<^sup>*\<^sup>* w (snd (ServeHTTP cfg X S r w))"
proof -
  obtain rs w' where "InitRouter cfg X S r w = (rs, w')" by fastforce
  with servesD[OF serves_InitRouter this assms] show ?thesis by (simp add: ServeHTTP_def deferM_def)
qed

section \<open>Histories of HTTP requests\<close>

text \<open>A concrete system whose steps are sequences of abstract steps has the invariants of the abstract one.\<close>

locale step_refinement =
  fixes init :: "'s \<Rightarrow> bool" and conc :: "'s \<Rightarrow> 's \<Rightarrow> bool" and abst :: "'s \<Rightarrow> 's \<Rightarrow> bool"
  assumes simulated: "reach init abst s \<Longrightarrow> conc s s' \<Longrightarrow> abst\<^sup>*\<^sup>* s s'"
begin

lemma reach_closed: "abst\<^sup>*\<^sup>* s s' \<Longrightarrow> reach init abst s \<Longrightarrow> reach init abst s'"
  by (induction rule: rtranclp_induct) (auto intro: reach_step)

lemma reach_abst: "reach init conc s \<Longrightarrow> reach init abst s"
  by (induction rule: reach.induct) (auto intro: reach_init reach_closed simulated)

end

text \<open>
  The running server: any HTTP request, a run of the outbox worker, or anything outside that leaves the
  database alone.
\<close>

inductive http_step :: "Config \<Rightarrow> web \<Rightarrow> Service \<Rightarrow> world \<Rightarrow> world \<Rightarrow> bool"
  for cfg :: Config and X :: web and S :: Service
where
  http_request: "ServeHTTP cfg X S r w = (res, w') \<Longrightarrow> http_step cfg X S w w'"
| http_worker: "worker_Run (sv_lib S) wk wcfg skip evs w = (res, w') \<Longrightarrow> http_step cfg X S w (Rollback w')"
| http_env: "w_db w' = w_db w \<Longrightarrow> w_tx w' = None \<Longrightarrow> uuids_from (w_uuids w) w' \<Longrightarrow> w_now w \<le> w_now w' \<Longrightarrow>
    http_step cfg X S w w'"

interpretation http: step_refinement start "http_step cfg X S" "served S" for cfg X S
proof
  fix w w' assume "reachable S w" and step: "http_step cfg X S w w'"
  then have tx: "w_tx w = None" using integrity.reach_inv by (auto simp: wf_state_def)
  from step show "(served S)\<^sup>*\<^sup>* w w'"
  proof cases
    case (http_request r res)
    with ServeHTTP_served[OF tx, of S cfg X r] show ?thesis by simp
  next
    case (http_worker wk wcfg skip evs res v)
    then show ?thesis by (auto intro: served_worker)
  next
    case http_env
    then show ?thesis by (rule env_step)
  qed
qed

text \<open>
  C31: The whole server refines the service: after any history of HTTP requests (any method, path, headers and
  body, whichever route the router picks, whatever fails and wherever it panics) and of worker runs, the state
  is one that operations of the service alone can reach; so the tables satisfy the constraints of the schema,
  no transaction is open, and every family of refresh tokens has at most one that is not revoked.
\<close>

theorem http_server_safe:
  assumes "reach start (http_step cfg X S) w"
  shows "reachable S w \<and> db_wf (w_db w) \<and> w_tx w = None \<and>
    length (filter (\<lambda>t. rr_family_id t = f \<and> rr_revoked_at t = None) (refresh_tokens (w_db w))) \<le> 1"
  using http.reach_abst[OF assms] integrity.reach_inv[OF http.reach_abst[OF assms]] sessions.reach_inv[OF http.reach_abst[OF assms]]
  by (simp add: wf_state_def session_state_def sess_inv_def sess_ok_def live_in_def)

lemma http_server_safe_witness:
  "\<forall>cfg X r r'. db_wf (w_db (snd (ServeHTTP cfg X sample_S r (snd (ServeHTTP cfg X sample_S r' sample_world)))))"
proof (intro allI)
  fix cfg X r r'
  obtain res1 w1 where r1: "ServeHTTP cfg X sample_S r' sample_world = (res1, w1)" by fastforce
  obtain res2 w2 where r2: "ServeHTTP cfg X sample_S r w1 = (res2, w2)" by fastforce
  have "reach start (http_step cfg X sample_S) sample_world" by (rule reach_init) (rule sample_start)
  then have "reach start (http_step cfg X sample_S) w1" by (rule reach_step) (rule http_request[OF r1])
  then have "reach start (http_step cfg X sample_S) w2" by (rule reach_step) (rule http_request[OF r2])
  from http_server_safe[OF this] r1 r2
  show "db_wf (w_db (snd (ServeHTTP cfg X sample_S r (snd (ServeHTTP cfg X sample_S r' sample_world)))))" by simp
qed

end
