(* ===== verification/Http_Access.thy ===== *)
theory Http_Access
  imports Http_Refinement
begin

text \<open>
  Who gets through: the tenant gate, the token gate, the route that revokes all sessions, and what a
  client learns from an answer. The properties are about whole requests (\<^verbatim>\<open>ServeHTTP\<close>) where the
  route matters, and about the middleware or the handler where it does not.
\<close>

section \<open>From the server to the route\<close>

lemma preset_header_same [simp]:
  "rs_Code (preset_header k v rs) = rs_Code rs" "rs_Body (preset_header k v rs) = rs_Body rs"
  by (simp_all add: preset_header_def)

lemma fold_preset_same [simp]:
  "rs_Code (fold (\<lambda>(k, v). preset_header k v) hs rs) = rs_Code rs"
  "rs_Body (fold (\<lambda>(k, v). preset_header k v) hs rs) = rs_Body rs"
  by (induction hs arbitrary: rs) (auto split: prod.splits)

definition at_route :: "string \<Rightarrow> request \<Rightarrow> request" where
  "at_route i r = r\<lparr>rq_Body := map_option (MaxBytesReader 1048576) (rq_Body r),
     rq_ctx := (rq_ctx r)\<lparr>ctx_RequestID := Some i\<rparr>\<rparr>"

lemma at_route_simps [simp]:
  "rq_Method (at_route i r) = rq_Method r" "rq_Path (at_route i r) = rq_Path r"
  "Header_Get (at_route i r) k = Header_Get r k" "Query_Get (at_route i r) k = Query_Get r k"
  "ctx_Tenant (rq_ctx (at_route i r)) = ctx_Tenant (rq_ctx r)"
  "ctx_UserID (rq_ctx (at_route i r)) = ctx_UserID (rq_ctx r)"
  by (simp_all add: at_route_def Header_Get_def Query_Get_def)

lemma quiet_calls:
  "uuid_NewV7 w = (r', w1) \<Longrightarrow> w_db w1 = w_db w \<and> w_tx w1 = w_tx w \<and> w_faults w1 = w_faults w"
  "uuid_NewString L w = (r'', w1) \<Longrightarrow> w_db w1 = w_db w \<and> w_tx w1 = w_tx w \<and> w_faults w1 = w_faults w"
  by (auto simp: uuid_NewString_def uuid_NewV7_def attempt_def split: list.splits)

lemma inner_run:
  assumes "MetricsMiddleware p (LoggingMiddleware h) r w = (Ok rs, w')"
  shows "\<exists>w0 w1. h r w0 = (Ok rs, w1) \<and> w_db w0 = w_db w \<and> w_tx w0 = w_tx w \<and> w_faults w0 = w_faults w \<and> w_db w' = w_db w1 \<and>
    m_http_requests (w_metrics w') =
      (if p r = [] then ''unmatched'' else p r, rq_Method r, rs_Code rs) # m_http_requests (w_metrics w1)"
proof -
  from assms obtain w1 d where "h r (tick (tick w)) = (Ok rs, w1)"
    and "w' = observe_duration (if p r = [] then ''unmatched'' else p r) (rq_Method r) d
      (tick (count_request (if p r = [] then ''unmatched'' else p r) (rq_Method r) (rs_Code rs)
      (log_at LevelInfo ''HTTP request''
        [(''request_id'', RequestIDFromContext (rq_ctx r)), (''method'', rq_Method r),
         (''route'', rq_Path r), (''status'', status_text (rs_Code rs))] (tick w1))))"
    by (auto simp: MetricsMiddleware_def LoggingMiddleware_def Let_def bindM_Ok_iff time_Now_eq)
  then show ?thesis by (intro exI[of _ "tick (tick w)"] exI[of _ w1]) (simp add: count_request_def)
qed

lemma request_id_run:
  assumes "RequestIDMiddleware L next' r w = (Ok rs, w')"
  shows "\<exists>i w0 rs0. next' (r\<lparr>rq_ctx := (rq_ctx r)\<lparr>ctx_RequestID := Some i\<rparr>\<rparr>) w0 = (Ok rs0, w') \<and>
    rs_Code rs = rs_Code rs0 \<and> rs_Body rs = rs_Body rs0 \<and> w_db w0 = w_db w \<and> w_tx w0 = w_tx w \<and> w_faults w0 = w_faults w"
proof -
  let ?go = "\<lambda>i. bindM (next' (r\<lparr>rq_ctx := (rq_ctx r)\<lparr>ctx_RequestID := Some i\<rparr>\<rparr>)) (\<lambda>rs. ret (preset_header ''X-Request-Id'' i rs))"
  have "\<exists>i w0. ?go i w0 = (Ok rs, w') \<and> w_db w0 = w_db w \<and> w_tx w0 = w_tx w \<and> w_faults w0 = w_faults w"
  proof (cases "Header_Get r ''X-Request-Id'' = []")
    case False
    with assms show ?thesis by (intro exI[of _ "Header_Get r ''X-Request-Id''"] exI[of _ w]) (simp add: RequestIDMiddleware_def Let_def)
  next
    case True
    with assms have "attempt uuid_NewV7 (\<lambda>_. bindM (uuid_NewString L) ?go) (\<lambda>i. ?go (uuid_String L i)) w = (Ok rs, w')"
      by (simp add: RequestIDMiddleware_def Let_def)
    then show ?thesis
    proof (cases rule: attempt_cases)
      case (Ok a w1)
      with quiet_calls(1)[OF Ok(1)] show ?thesis by blast
    next
      case (Err e w1)
      from Err(2) obtain i w2 where i: "uuid_NewString L w1 = (Ok i, w2)" "?go i w2 = (Ok rs, w')"
        unfolding bindM_Ok_iff[of "uuid_NewString L"] by blast
      with quiet_calls(1)[OF Err(1)] quiet_calls(2)[OF i(1)] show ?thesis by metis
    qed simp
  qed
  then show ?thesis by (auto simp: bindM_Ok_iff) (metis preset_header_same)
qed

lemma ServeHTTP_inner:
  assumes "ServeHTTP cfg X S r w = (Ok rs, w')"
    and "\<And>b. cors_preflight X (LoadCors cfg) (r\<lparr>rq_Body := b\<rparr>) = None"
  shows "\<exists>i w0 rs0 w1. RecovererMiddleware (dispatch X S) (at_route i r) w0 = (Ok rs0, w1) \<and>
    rs_Code rs = rs_Code rs0 \<and> rs_Body rs = rs_Body rs0 \<and> w_db w0 = w_db w \<and> w_tx w0 = w_tx w \<and>
    w_faults w0 = w_faults w \<and> w_db w' = w_db w1"
proof -
  let ?r = "r\<lparr>rq_Body := map_option (MaxBytesReader 1048576) (rq_Body r)\<rparr>"
  let ?p = "\<lambda>r. chi_pattern X (patterns X S) (rq_Method r) (rq_Path r)"
  let ?m = "MetricsMiddleware ?p (LoggingMiddleware (RecovererMiddleware (dispatch X S)))"
  from assms obtain rs1 w2 where "RequestIDMiddleware (sv_lib S) ?m ?r w = (Ok rs1, w2)"
    and e: "rs_Code rs = rs_Code rs1" "rs_Body rs = rs_Body rs1" "w_db w' = w_db w2"
    by (auto simp: ServeHTTP_def deferM_iff InitRouter_def limit_body_def cors_Handler_def bindM_Ok_iff Rollback_def)
  from request_id_run[OF this(1)] obtain i w0 rs0 where
    m: "?m (?r\<lparr>rq_ctx := (rq_ctx ?r)\<lparr>ctx_RequestID := Some i\<rparr>\<rparr>) w0 = (Ok rs0, w2)"
    and e2: "rs_Code rs1 = rs_Code rs0" "rs_Body rs1 = rs_Body rs0" "w_db w0 = w_db w" "w_tx w0 = w_tx w"
      "w_faults w0 = w_faults w" by blast
  have at: "?r\<lparr>rq_ctx := (rq_ctx ?r)\<lparr>ctx_RequestID := Some i\<rparr>\<rparr> = at_route i r" by (simp add: at_route_def)
  from inner_run[OF m[unfolded at]] obtain w3 w1 where
    "RecovererMiddleware (dispatch X S) (at_route i r) w3 = (Ok rs0, w1)" "w_db w3 = w_db w0" "w_tx w3 = w_tx w0"
    "w_faults w3 = w_faults w0" "w_db w2 = w_db w1" by blast
  with e e2 show ?thesis by (intro exI[of _ i] exI[of _ w3] exI[of _ rs0] exI[of _ w1]) simp
qed

lemma Recoverer_Ok:
  assumes "RecovererMiddleware next' r w = (Ok rs, w')"
  obtains (Answer) "next' r w = (Ok rs, w')"
    | (Recovered) p w1 where "next' r w = (Panic p, w1)" "w_db w' = w_db w1"
        "rs = writeJSON StatusInternalServerError (MapBody [(''error'', ''internal server error'')])"
  using assms by (auto simp: RecovererMiddleware_def split: prod.splits res.splits)

text \<open>Every request is answered: the supply of identifiers is the only thing outside the recoverer that could panic.\<close>

lemma ServeHTTP_total:
  assumes "w_uuids w \<noteq> []"
  shows "\<exists>rs w'. ServeHTTP cfg X S r w = (Ok rs, w')"
proof -
  let ?h = "RecovererMiddleware (dispatch X S)"
  have log: "\<exists>rs w'. LoggingMiddleware ?h r w = (Ok rs, w')" for r w
    using RecovererMiddleware_answers[of "dispatch X S" r "tick w", OF answers_dispatch]
    by (auto simp: LoggingMiddleware_def bindM_def attempt_def time_Now_eq)
  have met: "\<exists>rs w'. MetricsMiddleware p (LoggingMiddleware ?h) r w = (Ok rs, w')" for p r w
    using log[of r "tick w"] by (auto simp: MetricsMiddleware_def Let_def bindM_def attempt_def time_Now_eq)
  have go: "\<exists>rs w'. bindM (MetricsMiddleware p (LoggingMiddleware ?h) r) (\<lambda>rs. ret (f rs)) w = (Ok rs, w')" for p r w f
    using met[of p r w] by (auto simp: bindM_def attempt_def)
  obtain u us where us: "w_uuids w = u # us" using assms by (cases "w_uuids w") auto
  have rid: "\<exists>rs w'. RequestIDMiddleware (sv_lib S) (MetricsMiddleware p (LoggingMiddleware ?h)) r w = (Ok rs, w')" for p r
    by (simp add: RequestIDMiddleware_def Let_def attempt_def uuid_NewV7_def us) (intro conjI impI go)
  let ?p = "\<lambda>r. chi_pattern X (patterns X S) (rq_Method r) (rq_Path r)"
  let ?r = "r\<lparr>rq_Body := map_option (MaxBytesReader 1048576) (rq_Body r)\<rparr>"
  from rid[of ?p ?r] obtain rs w' where
    "RequestIDMiddleware (sv_lib S) (MetricsMiddleware ?p (LoggingMiddleware ?h)) ?r w = (Ok rs, w')" by blast
  then have "\<exists>rs w'. InitRouter cfg X S r w = (Ok rs, w')"
    by (cases "cors_preflight X (LoadCors cfg) ?r") (simp_all add: InitRouter_def limit_body_def cors_Handler_def)
  then show ?thesis by (auto simp: ServeHTTP_def deferM_def Rollback_def)
qed

section \<open>A router for the witnesses\<close>

definition sample_web :: web where
  "sample_web =
     \<lparr>chi_match = (\<lambda>routes m p.
        if (m, p) \<in> set routes then Inr (length (takeWhile (\<lambda>x. x \<noteq> (m, p)) routes))
        else Inl (http_Error ''404 page not found'' 404)),
      chi_pattern = (\<lambda>routes m p. p),
      cors_preflight = (\<lambda>opts r. None),
      cors_headers = (\<lambda>opts r. []),
      promhttp_Handler = (\<lambda>m. WriteHeader StatusOK),
      httpSwagger_Handler = (\<lambda>r. WriteHeader StatusOK)\<rparr>"

lemma sample_web_simps [simp]:
  "cors_preflight sample_web opts r = None" "cors_headers sample_web opts r = []"
  by (simp_all add: sample_web_def)

lemma takeWhile_nth_index:
  "i < length xs \<Longrightarrow> distinct xs \<Longrightarrow> length (takeWhile (\<lambda>x. x \<noteq> xs ! i) xs) = i"
proof (induction xs arbitrary: i)
  case (Cons x xs)
  then show ?case by (cases i) auto
qed simp

lemma sample_web_static: "chi_static sample_web"
  unfolding chi_static_def
proof (intro allI impI)
  fix routes :: "(string \<times> string) list" and i m p
  assume i: "i < length routes" "routes ! i = (m, p)" and d: "distinct (map snd routes)"
  then have "distinct routes" by (simp add: distinct_map)
  with i takeWhile_nth_index[of i routes] have "length (takeWhile (\<lambda>x. x \<noteq> (m, p)) routes) = i" by simp
  moreover have "(m, p) \<in> set routes" using i nth_mem[of i routes] by simp
  ultimately show "chi_match sample_web routes m p = Inr i" by (simp add: sample_web_def)
qed

definition sample_cfg :: Config where
  "sample_cfg = \<lparr>cf_AppBaseURL = ''http://x'', cf_SMTP = \<lparr>sm_Host = ''h'', sm_Port = 25, sm_Username = ''u'',
       sm_Password = ''p'', sm_From = ''f'', sm_BaseURL = ''http://x''\<rparr>,
     cf_CORS_ALLOWED_ORIGINS = [], cf_Database = \<lparr>dc_Driver = ''postgres'', dc_SqlitePath = [], dc_PostgresConf = empty_pg\<rparr>,
     cf_Redis = zero_redis, cf_Broker = \<lparr>bc_URL = ''u'', bc_Exchange = ''e''\<rparr>, cf_Environment = ''dev'', cf_LogLevel = ''info''\<rparr>"

definition sample_request :: "string \<Rightarrow> string \<Rightarrow> request" where
  "sample_request m p = \<lparr>rq_Method = m, rq_Path = p, rq_RemoteAddr = ''1.2.3.4:5'', rq_Header = [], rq_Query = [],
     rq_Cookies = [], rq_Body = Some ([], False), rq_ctx = background\<rparr>"

section \<open>The tenant gate\<close>

lemma tenant_lookup_inactive:
  assumes "tenants_FindByTenantName n w = (Ok t, w')"
    and "\<And>x. x \<in> set (tenants (w_db w)) \<Longrightarrow> tn_tenant_name x = n \<Longrightarrow> tn_status x \<noteq> TenantStatusActive"
  shows "\<not> Tenant_IsActive t"
proof -
  from assms(1) obtain x where x: "x \<in> set (tenants (w_db w))" "tn_tenant_name x = n" "scanTenant x = Inr t"
    by (auto simp: tenants_FindByTenantName_def bindM_Ok_iff QueryRow_Conn_Ok_iff ret_sum_Ok_iff dest!: find_Some_in)
  with assms(2)[OF x(1,2)] scanTenant_fields[OF x(3)] show ?thesis by (simp add: Tenant_IsActive_def)
qed

lemma tenant_middleware_refuses:
  assumes "TenantMiddleware next' r w = (res, w')"
    and "\<And>x. x \<in> set (tenants (w_db w)) \<Longrightarrow> tn_tenant_name x = TrimSpace (Header_Get r TenantHeader) \<Longrightarrow>
           tn_status x \<noteq> TenantStatusActive"
  shows "w_db w' = w_db w \<and> (\<exists>e \<in> {(ErrTenantHeaderMissing, StatusBadRequest), (ErrTenantNotFound, StatusUnauthorized),
      (ErrTenantInactive, StatusForbidden)}. res = Ok (http_Error (err_Error (fst e)) (snd e)))"
proof (cases "TrimSpace (Header_Get r TenantHeader) = []")
  case True
  with assms(1) show ?thesis by (simp add: TenantMiddleware_def)
next
  case False
  let ?n = "TrimSpace (Header_Get r TenantHeader)"
  from assms(1) False have "attempt (tenants_FindByTenantName ?n)
      (\<lambda>_. ret (http_Error (err_Error ErrTenantNotFound) StatusUnauthorized))
      (\<lambda>tenant. if \<not> Tenant_IsActive tenant then ret (http_Error (err_Error ErrTenantInactive) StatusForbidden)
        else next' (r\<lparr>rq_ctx := (rq_ctx r)\<lparr>ctx_Tenant := Some tenant\<rparr>\<rparr>)) w = (res, w')"
    by (simp add: TenantMiddleware_def Let_def)
  then show ?thesis
  proof (cases rule: attempt_cases)
    case (Ok t w1)
    with tenant_lookup_inactive[OF Ok(1) assms(2)] psql_tenants.find_frame[OF Ok(1)] show ?thesis by auto
  next
    case (Err e w1)
    with psql_tenants.find_frame[OF Err(1)] show ?thesis by auto
  next
    case (Panic p)
    have "False" using Panic(1)
      by (auto simp: tenants_FindByTenantName_def bindM_def attempt_def QueryRow_Conn ret_sum_def
          split: sum.splits option.splits if_splits)
    then show ?thesis ..
  qed
qed

lemma tenant_route_index:
  assumes "(m, p, h) \<in> set (tenant_routes S)"
  shows "\<exists>i < 14. all_routes X S ! i = (m, p, h) \<and> static_pattern p"
proof -
  from assms have p: "static_pattern p" by (auto simp: tenant_routes_def static_pattern_def)
  from assms obtain j where j: "j < length (tenant_routes S)" "tenant_routes S ! j = (m, p, h)"
    by (auto simp: in_set_conv_nth)
  have len: "length (tenant_routes S) = 9" by (simp add: tenant_routes_def)
  have "all_routes X S ! Suc j = (m, p, h)" using j by (simp add: all_routes_def RegisterRoutes_def nth_append)
  with p j(1) len show ?thesis by (intro exI[of _ "Suc j"]) simp
qed

text \<open>
  C5: A request to any of the nine tenant routes whose header does not name an active tenant of the database
  is refused (400 without a name, 401 for an unknown tenant or a failed look-up, 403 for an inactive one),
  and the tables are as before: no handler and no service operation runs.
\<close>

theorem tenant_gate:
  assumes "chi_static X" "(rq_Method r, rq_Path r, h) \<in> set (tenant_routes S)"
    and "\<And>b. cors_preflight X (LoadCors cfg) (r\<lparr>rq_Body := b\<rparr>) = None"
    and "ServeHTTP cfg X S r w = (Ok rs, w')"
    and "\<forall>t \<in> set (tenants (w_db w)).
           tn_tenant_name t = TrimSpace (Header_Get r TenantHeader) \<longrightarrow> tn_status t \<noteq> TenantStatusActive"
  shows "w_db w' = w_db w \<and> (rs_Code rs, rs_Body rs) \<in>
    {(400, TextBody (''missing tenant header'' @ [CHR 0x0A])), (401, TextBody (''tenant not found'' @ [CHR 0x0A])),
     (403, TextBody (''tenant is not active'' @ [CHR 0x0A]))}"
proof -
  from ServeHTTP_inner[OF assms(4,3)] obtain i w0 rs0 w1 where
    run: "RecovererMiddleware (dispatch X S) (at_route i r) w0 = (Ok rs0, w1)"
    and e: "rs_Code rs = rs_Code rs0" "rs_Body rs = rs_Body rs0" "w_db w0 = w_db w" "w_db w' = w_db w1" by blast
  from tenant_route_index[OF assms(2)] obtain j where
    "j < 14" "all_routes X S ! j = (rq_Method r, rq_Path r, h)" "static_pattern (rq_Path r)" by blast
  then have d: "dispatch X S (at_route i r) = h (at_route i r)"
    using dispatch_route[OF assms(1), of j S "at_route i r" h] by simp
  from assms(2) obtain h' where h: "h = tenant_group h'" by (auto simp: tenant_routes_def)
  obtain res w2 where t: "TenantMiddleware (RateLimitMiddleware h') (at_route i r) w0 = (res, w2)" by fastforce
  from tenant_middleware_refuses[OF t] assms(5) e(3) have
    r: "w_db w2 = w_db w0" "\<exists>e \<in> {(ErrTenantHeaderMissing, StatusBadRequest), (ErrTenantNotFound, StatusUnauthorized),
      (ErrTenantInactive, StatusForbidden)}. res = Ok (http_Error (err_Error (fst e)) (snd e))" by auto
  from run have "res = Ok rs0" "w1 = w2"
    using r(2) t by (auto simp: RecovererMiddleware_def d h tenant_group_def)
  with r e show ?thesis by (auto simp: http_Error_def status_defs)
qed

lemma tenant_gate_witness:
  "\<exists>rs w'. ServeHTTP sample_cfg sample_web sample_S (sample_request ''POST'' ''/auth/login'') sample_world = (Ok rs, w') \<and>
     w_db w' = sample_db \<and> rs_Code rs \<in> {400, 401, 403}"
proof -
  let ?r = "sample_request ''POST'' ''/auth/login''"
  obtain res w' where run: "ServeHTTP sample_cfg sample_web sample_S ?r sample_world = (res, w')" by fastforce
  moreover obtain rs where "res = Ok rs"
    using ServeHTTP_total[of sample_world sample_cfg sample_web sample_S ?r] run by auto
  moreover have "(rq_Method ?r, rq_Path ?r, tenant_group (loginHandler sample_S)) \<in> set (tenant_routes sample_S)"
    by (simp add: sample_request_def tenant_routes_def)
  moreover have "TrimSpace (Header_Get ?r TenantHeader) = []"
    by (simp add: sample_request_def Header_Get_def lookup_first_def TrimSpace_def TrimBoth_def)
  ultimately show ?thesis
    using tenant_gate[OF sample_web_static, of ?r "tenant_group (loginHandler sample_S)" sample_S sample_cfg sample_world rs w']
    by (auto simp: sample_defs)
qed

section \<open>The token gate\<close>

lemma jwt_route_index:
  "all_routes X S ! 10 = (''GET'', ''/auth/me'', jwt_group S meHandler)"
  "all_routes X S ! 11 = (''POST'', ''/auth/revoke-all'', jwt_group S (revokeAllHandler S))"
  by (simp_all add: all_routes_def RegisterRoutes_def tenant_routes_def)

lemma JWT_run:
  assumes "JWTMiddleware L pub next' r w = (Ok rs, w')"
  obtains (Refused) msg where "rs = http_Error msg StatusUnauthorized" "w_db w' = w_db w"
    | (Passed) claims token where "Header_Get r ''Authorization'' = ''Bearer '' @ token"
        "jwt_ParseWithClaims L token (jwtKeyFunc pub) (w_now w) = Inr (claims, True)"
        "next' (r\<lparr>rq_ctx := (rq_ctx r)\<lparr>ctx_UserID := Some (uuid_String L (c_UserID claims)), ctx_Email := Some (c_Email claims)\<rparr>\<rparr>)
          (tick w) = (Ok rs, w')"
proof (cases "HasPrefix (Header_Get r ''Authorization'') ''Bearer ''")
  case False
  with assms Refused show ?thesis by (auto simp: JWTMiddleware_def)
next
  case True
  let ?token = "TrimPrefix (Header_Get r ''Authorization'') ''Bearer ''"
  from True have h: "Header_Get r ''Authorization'' = ''Bearer '' @ ?token"
    by (metis HasPrefix_def TrimPrefix_def append_take_drop_id)
  from assms True have run: "(case jwt_ParseWithClaims L ?token (jwtKeyFunc pub) (w_now w) of
          Inl _ \<Rightarrow> ret (http_Error ''invalid token'' StatusUnauthorized)
        | Inr (claims, valid) \<Rightarrow>
            if \<not> valid then ret (http_Error ''invalid token'' StatusUnauthorized)
            else next' (r\<lparr>rq_ctx := (rq_ctx r)\<lparr>ctx_UserID := Some (uuid_String L (c_UserID claims)),
                                               ctx_Email := Some (c_Email claims)\<rparr>\<rparr>)) (tick w) = (Ok rs, w')"
    by (simp add: JWTMiddleware_def Let_def bindM_def attempt_def time_Now_eq)
  show ?thesis
  proof (cases "jwt_ParseWithClaims L ?token (jwtKeyFunc pub) (w_now w)")
    case (Inl e)
    with run Refused show ?thesis by auto
  next
    case (Inr p)
    with run Refused Passed[OF h] show ?thesis by (cases p) (auto split: if_splits)
  qed
qed

text \<open>
  C33: An answer to \<^verbatim>\<open>GET /auth/me\<close> that shows an identity was given for a token in the
  \<^verbatim>\<open>Authorization\<close> header that the JWT library verified, at that moment, with the service's RSA public
  key (the key function hands the key out for RSA signatures only), and the identity shown is that of
  its claims; every other request gets 401 or 500.
\<close>

theorem me_needs_token:
  assumes "chi_static X" "rq_Method r = ''GET''" "rq_Path r = ''/auth/me''"
    and "\<And>b. cors_preflight X (LoadCors cfg) (r\<lparr>rq_Body := b\<rparr>) = None"
    and "ServeHTTP cfg X S r w = (Ok rs, w')"
  shows "rs_Code rs \<in> {401, 500} \<or>
    (\<exists>token claims now. Header_Get r ''Authorization'' = ''Bearer '' @ token \<and>
       jwt_ParseWithClaims (sv_lib S) token (jwtKeyFunc (sv_publicKey S)) now = Inr (claims, True) \<and>
       rs_Code rs = 200 \<and>
       rs_Body rs = MapBody [(''email'', c_Email claims), (''user_id'', uuid_String (sv_lib S) (c_UserID claims))])"
proof -
  from ServeHTTP_inner[OF assms(5,4)] obtain i w0 rs0 w1 where
    run: "RecovererMiddleware (dispatch X S) (at_route i r) w0 = (Ok rs0, w1)"
    and e: "rs_Code rs = rs_Code rs0" "rs_Body rs = rs_Body rs0" by blast
  have d: "dispatch X S (at_route i r) = jwt_group S meHandler (at_route i r)"
    using dispatch_route[OF assms(1), of 10 S "at_route i r"] assms(2,3) by (simp add: jwt_route_index static_pattern_def)
  from run show ?thesis
  proof (cases rule: Recoverer_Ok)
    case Answer
    then have "JWTMiddleware (sv_lib S) (sv_publicKey S) meHandler (at_route i r) w0 = (Ok rs0, w1)"
      by (simp add: d jwt_group_def)
    then show ?thesis
      by (cases rule: JWT_run) (use e in \<open>auto simp: meHandler_def http_Error_def encode_only_def status_defs\<close>)
  next
    case (Recovered p w2)
    with e show ?thesis by (simp add: writeJSON_def status_defs)
  qed
qed

definition me_request :: request where
  "me_request = (sample_request ''GET'' ''/auth/me'')\<lparr>rq_Header := [(''Authorization'', ''Bearer jwt.a@b'')]\<rparr>"

lemma me_needs_token_witness:
  "\<exists>rs w'. ServeHTTP sample_cfg sample_web sample_S me_request sample_world = (Ok rs, w') \<and>
     (rs_Code rs \<in> {401, 500} \<or> (\<exists>token. Header_Get me_request ''Authorization'' = ''Bearer '' @ token \<and> rs_Code rs = 200))"
proof -
  obtain rs w' where run: "ServeHTTP sample_cfg sample_web sample_S me_request sample_world = (Ok rs, w')"
    using ServeHTTP_total[of sample_world sample_cfg sample_web sample_S me_request] by auto
  with me_needs_token[OF sample_web_static, of me_request sample_cfg sample_S sample_world rs w'] show ?thesis
    by (auto simp: me_request_def sample_request_def)
qed

text \<open>
  C34: \<^verbatim>\<open>POST /auth/revoke-all\<close> never revokes anything: the route is behind the token gate only, so no
  request ever carries a tenant there, and the service refuses without one. Every request gets 401 or 500,
  and the tables are as before.
\<close>

theorem revoke_all_never_revokes:
  assumes "chi_static X" "rq_Method r = ''POST''" "rq_Path r = ''/auth/revoke-all''" "rq_ctx r = background"
    and "\<And>b. cors_preflight X (LoadCors cfg) (r\<lparr>rq_Body := b\<rparr>) = None"
    and "ServeHTTP cfg X S r w = (Ok rs, w')"
  shows "rs_Code rs \<in> {401, 500} \<and> w_db w' = w_db w"
proof -
  from ServeHTTP_inner[OF assms(6,5)] obtain i w0 rs0 w1 where
    run: "RecovererMiddleware (dispatch X S) (at_route i r) w0 = (Ok rs0, w1)"
    and e: "rs_Code rs = rs_Code rs0" "rs_Body rs = rs_Body rs0" "w_db w0 = w_db w" "w_db w' = w_db w1" by blast
  have d: "dispatch X S (at_route i r) = jwt_group S (revokeAllHandler S) (at_route i r)"
    using dispatch_route[OF assms(1), of 11 S "at_route i r"] assms(2,3) by (simp add: jwt_route_index static_pattern_def)
  have tn: "ctx_Tenant (rq_ctx (at_route i r)) = None" using assms(4) by (simp add: background_def)
  have step: "JWTMiddleware (sv_lib S) (sv_publicKey S) (revokeAllHandler S) (at_route i r) w0 = (Ok rs0, w1)"
    using run
  proof (cases rule: Recoverer_Ok)
    case (Recovered p w2)
    have "JWTMiddleware (sv_lib S) (sv_publicKey S) (revokeAllHandler S) (at_route i r) w0 \<noteq> (Panic p, w2)"
      using tn by (auto simp: JWTMiddleware_def Let_def bindM_def attempt_def time_Now_eq revokeAllHandler_def RevokeAll_def
          TenantFromContext_def UserIDFromContext_def split: sum.splits option.splits if_splits)
    with Recovered(1) d show ?thesis by (simp add: jwt_group_def)
  qed (simp add: d jwt_group_def)
  then show ?thesis
  proof (cases rule: JWT_run)
    case (Refused msg)
    with e show ?thesis by (simp add: http_Error_def status_defs)
  next
    case (Passed claims token)
    with tn e show ?thesis
      by (auto simp: revokeAllHandler_def RevokeAll_def TenantFromContext_def UserIDFromContext_def
          respondJSONError_def writeJSON_def http_Error_def status_defs split: option.splits)
  qed
qed

definition revoke_request :: request where
  "revoke_request = (sample_request ''POST'' ''/auth/revoke-all'')\<lparr>rq_Header := [(''Authorization'', ''Bearer jwt.a@b'')]\<rparr>"

lemma revoke_all_never_revokes_witness:
  "\<exists>rs w'. ServeHTTP sample_cfg sample_web sample_S revoke_request (session_world None) = (Ok rs, w') \<and>
     rs_Code rs \<in> {401, 500} \<and> refresh_tokens (w_db w') = [session_row None]"
proof -
  obtain rs w' where run: "ServeHTTP sample_cfg sample_web sample_S revoke_request (session_world None) = (Ok rs, w')"
    using ServeHTTP_total[of "session_world None" sample_cfg sample_web sample_S revoke_request] by auto
  with revoke_all_never_revokes[OF sample_web_static, of revoke_request sample_cfg sample_S "session_world None" rs w'] show ?thesis
    by (auto simp: revoke_request_def sample_request_def)
qed

section \<open>Every request is answered\<close>

text \<open>
  C32: Every request that is not a CORS preflight is answered, whatever it holds and whatever the router, the
  database, Redis, the clock and the libraries do. The answer has the status and the body that the handler of the
  route gave, on the tables as they were when the request came in; if that handler panicked the answer is 500 with
  a fixed text, and the tables are as the panic left them. The hypothesis is that an identifier can be
  generated for the request.
\<close>

theorem every_request_answered:
  assumes "w_uuids w \<noteq> []" "\<And>b. cors_preflight X (LoadCors cfg) (r\<lparr>rq_Body := b\<rparr>) = None"
  shows "\<exists>rs w' i w0 res w1. ServeHTTP cfg X S r w = (Ok rs, w') \<and> dispatch X S (at_route i r) w0 = (res, w1) \<and>
    w_db w0 = w_db w \<and> w_faults w0 = w_faults w \<and> w_db w' = w_db w1 \<and>
    (case res of
       Ok rs0 \<Rightarrow> rs_Code rs = rs_Code rs0 \<and> rs_Body rs = rs_Body rs0
     | Panic p \<Rightarrow> rs_Code rs = 500 \<and> rs_Body rs = MapBody [(''error'', ''internal server error'')]
     | Err e \<Rightarrow> False)"
proof -
  from ServeHTTP_total[OF assms(1)] obtain rs w' where run: "ServeHTTP cfg X S r w = (Ok rs, w')" by blast
  from ServeHTTP_inner[OF run assms(2)] obtain i w0 rs0 w1 where
    inner: "RecovererMiddleware (dispatch X S) (at_route i r) w0 = (Ok rs0, w1)"
    and e: "rs_Code rs = rs_Code rs0" "rs_Body rs = rs_Body rs0" "w_db w0 = w_db w" "w_faults w0 = w_faults w"
      "w_db w' = w_db w1" by blast
  from inner show ?thesis
  proof (cases rule: Recoverer_Ok)
    case Answer
    with run e show ?thesis
      by (intro exI[of _ rs] exI[of _ w'] exI[of _ i] exI[of _ w0] exI[of _ "Ok rs0"] exI[of _ w1]) simp
  next
    case (Recovered p w2)
    with run e show ?thesis
      by (intro exI[of _ rs] exI[of _ w'] exI[of _ i] exI[of _ w0] exI[of _ "Panic p"] exI[of _ w2])
        (simp add: writeJSON_def status_defs)
  qed
qed

text \<open>
  A panic that a client can cause: a change of password for an account whose row has no password (the column
  may be NULL, and login checks for it) dereferences a nil pointer.
\<close>

definition no_password :: "db" where
  "no_password = sample_db\<lparr>users := [sample_user\<lparr>u_PasswordHash := None\<rparr>]\<rparr>"

definition change_request :: request where
  "change_request = (sample_request ''POST'' ''/auth/password-change'')\<lparr>rq_Header := [(''X-Tenant'', ''acme'')],
     rq_Body := Some (print_object [(''email'', ''a@b''), (''old_password'', ''0123456789''), (''new_password'', ''abcdefghij''),
       (''new_confirm'', ''abcdefghij'')], False)\<rparr>"

lemma change_request_panics:
  assumes "w_db w = no_password" "w_faults w = []"
  shows "\<exists>p w'. dispatch sample_web sample_S (at_route i change_request) w = (Panic p, w')"
proof -
  let ?r = "at_route i change_request" and ?h = "tenant_group (changePasswordHandler sample_S)"
  let ?kvs = "[(''email'', ''a@b''), (''old_password'', ''0123456789''), (''new_password'', ''abcdefghij''),
       (''new_confirm'', ''abcdefghij'')]"
  have d: "dispatch sample_web sample_S ?r = ?h ?r"
    by (rule dispatch_route[OF sample_web_static, of 1])
      (simp_all add: all_routes_def RegisterRoutes_def tenant_routes_def change_request_def sample_request_def static_pattern_def)
  have b: "rq_Body ?r = Some (print_object ?kvs @ [], False)"
    by (simp add: at_route_def change_request_def MaxBytesReader_def print_object_def)
  have dec: "Decode True [''email'', ''old_password'', ''new_password'', ''new_confirm''] (print_object ?kvs @ [], False) =
      Some (foldl (\<lambda>f (k, v). f(k := v)) zero_fields ?kvs)"
    by (rule Decode_object) (simp_all add: plain_def plain_char_def code_def)
  have t: "TrimSpace (Header_Get change_request TenantHeader) = ''acme''"
    by (simp add: change_request_def sample_request_def Header_Get_def lookup_first_def TenantHeader_def TrimSpace_def TrimBoth_def is_space_def
        at_route_def)
  have w: "pop w = w" using assms(2) by (rule quiet_pop)
  obtain tenant where "tenants_FindByTenantName ''acme'' w = (Ok tenant, w)" "t_ID tenant = 3" "Tenant_IsActive tenant"
    using assms w
    by (simp add: tenants_FindByTenantName_def bindM_def attempt_def QueryRow_Conn next_ok_def no_password_def sample_db_def sample_tenant_def
        scanTenant_def ret_sum_def Tenant_IsActive_def TenantStatusActive_def)
  moreover have "rq_Path change_request = ''/auth/password-change''" by (simp add: change_request_def sample_request_def)
  ultimately have h: "?h ?r w = changePasswordHandler sample_S (?r\<lparr>rq_ctx := (rq_ctx ?r)\<lparr>ctx_Tenant := Some tenant\<rparr>\<rparr>) w"
    and id: "t_ID tenant = 3"
    by (simp_all add: tenant_group_def TenantMiddleware_def t RateLimitMiddleware_def attempt_def Let_def)
  have v: "validateEmail sample_lib ''a@b'' = None"
    by (simp add: validateEmail_def TrimSpace_def TrimBoth_def is_space_def Let_def)
  let ?ip = "ClientIP (?r\<lparr>rq_ctx := (rq_ctx ?r)\<lparr>ctx_Tenant := Some tenant\<rparr>\<rparr>)"
  obtain p w' where "ChangePassword sample_S ((rq_ctx ?r)\<lparr>ctx_Tenant := Some tenant\<rparr>)
     \<lparr>cp_Email = ''a@b'', cp_OldPassword = ''0123456789'', cp_NewPassword = ''abcdefghij'', cp_NewConfirm = ''abcdefghij''\<rparr> ?ip w =
     (Panic p, w')"
    using assms w id
    by (simp add: ChangePassword_def TenantFromContext_def mapErr_def users_FindByEmail_def bindM_def attempt_def QueryRow_Conn
        next_ok_def no_password_def sample_user_def)
  with h b dec v show ?thesis by (simp add: d changePasswordHandler_def withBody_def attempt_def)
qed

lemma every_request_answered_witness:
  "\<exists>rs w'. ServeHTTP sample_cfg sample_web sample_S change_request (sample_world\<lparr>w_db := no_password\<rparr>) = (Ok rs, w') \<and>
     rs_Code rs = 500 \<and> rs_Body rs = MapBody [(''error'', ''internal server error'')]"
proof -
  let ?w = "sample_world\<lparr>w_db := no_password\<rparr>"
  obtain rs w' i w0 res w1 where run: "ServeHTTP sample_cfg sample_web sample_S change_request ?w = (Ok rs, w')"
    "dispatch sample_web sample_S (at_route i change_request) w0 = (res, w1)" "w_db w0 = w_db ?w" "w_faults w0 = w_faults ?w"
    "case res of Ok rs0 \<Rightarrow> rs_Code rs = rs_Code rs0 \<and> rs_Body rs = rs_Body rs0
       | Panic p \<Rightarrow> rs_Code rs = 500 \<and> rs_Body rs = MapBody [(''error'', ''internal server error'')] | Err e \<Rightarrow> False"
    using every_request_answered[of ?w sample_web sample_cfg change_request sample_S] by auto
  from run(3,4) obtain p v where "dispatch sample_web sample_S (at_route i change_request) w0 = (Panic p, v)"
    using change_request_panics[of w0 i] by auto
  with run show ?thesis by auto
qed

end
