(* ===== verification/Http_Answers.thy ===== *)
theory Http_Answers
  imports Http_Access
begin

text \<open>
  What a client learns from the answers: error texts are fixed (but for one handler), a failed login does
  not tell whether the account exists, and the places where the HTTP layer contradicts the service below
  it (short passwords, bodies with something after the JSON value, requests that count with status 0).
\<close>

section \<open>Texts of error answers\<close>

definition yields :: "('a \<Rightarrow> bool) \<Rightarrow> 'a M \<Rightarrow> bool" where
  "yields P m \<longleftrightarrow> (\<forall>w a w'. m w = (Ok a, w') \<longrightarrow> P a)"

named_theorems yields_intros \<open>what the answers of a call satisfy\<close>

lemma yieldsD: "yields P m \<Longrightarrow> m w = (Ok a, w') \<Longrightarrow> P a"
  by (auto simp: yields_def)

lemma yields_ret [yields_intros]: "P a \<Longrightarrow> yields P (ret a)" by (simp add: yields_def)

lemma yields_panic [yields_intros]: "yields P (panic s)" by (simp add: yields_def)

lemma yields_attempt [yields_intros]:
  "(\<And>e. yields P (h e)) \<Longrightarrow> (\<And>a. yields P (k a)) \<Longrightarrow> yields P (attempt m h k)"
  unfolding yields_def attempt_Ok_iff by blast

lemma yields_bind [yields_intros]: "(\<And>a. yields P (k a)) \<Longrightarrow> yields P (bindM m k)"
  unfolding yields_def bindM_Ok_iff by blast

lemma yields_if [yields_intros]: "yields P m \<Longrightarrow> yields P n \<Longrightarrow> yields P (if b then m else n)" by simp

lemma yields_case_option [yields_intros]:
  "(z = None \<Longrightarrow> yields P m) \<Longrightarrow> (\<And>x. z = Some x \<Longrightarrow> yields P (k x)) \<Longrightarrow>
     yields P (case z of None \<Rightarrow> m | Some x \<Rightarrow> k x)"
  by (cases z) auto

lemma yields_case_prod [yields_intros]: "(\<And>a b. yields P (k a b)) \<Longrightarrow> yields P (case z of (a, b) \<Rightarrow> k a b)"
  by (cases z) auto

lemma yields_Let [yields_intros]: "(\<And>a. yields P (k a)) \<Longrightarrow> yields P (let x = z in k x)" by simp

lemma yields_withBody [yields_intros]:
  "yields P bad \<Longrightarrow> (\<And>f. yields P (good f)) \<Longrightarrow> yields P (withBody strict names r bad good)"
  unfolding withBody_def by (intro yields_intros)

definition fixed_texts :: "string set" where
  "fixed_texts =
     {''invalid credentials'', ''invalid token'', ''email not verified'', ''refresh token reuse detected'',
      ''invalid or expired verification token'', ''internal server error'', ''invalid request body'',
      ''email format is invalid'', ''password must be greater than 9 characters'', ''no tenant header'',
      ''refresh token required'', ''invalid JSON body'', ''new_password is required'', ''reset token is required'',
      ''invalid or expired reset token'', ''invalid request'', ''email required'', ''missing tenant header'',
      ''tenant not found'', ''tenant is not active'', ''too many attempts, try again later''}"

text \<open>The texts of an answer: of a plain text, of an error object, and every value of a JSON map.\<close>

fun says :: "body \<Rightarrow> string list" where
  "says (ErrorResponse t) = [t]"
| "says (TextBody t) = [t]"
| "says (MapBody kvs) = map snd kvs"
| "says (OtherBody t) = [t]"
| "says _ = []"

definition fixed_answer :: "response \<Rightarrow> bool" where
  "fixed_answer rs \<longleftrightarrow>
     (\<forall>t \<in> set (says (rs_Body rs)). (\<exists>x \<in> fixed_texts. t = x \<or> t = x @ [CHR 0x0A]) \<or>
        t = ''Email verified successfully, You can close this tab now'')"

lemma fixed_mapAuthError: "snd (mapAuthError e) \<in> fixed_texts"
  by (cases e rule: mapAuthError.cases) (auto simp: fixed_texts_def)

lemma fixed_answers [simp]:
  "fixed_answer (respondJSONError e)" "fixed_answer (respondTextError e)" "fixed_answer (WriteHeader n)" "fixed_answer untouched"
  "fixed_answer (writeJSON n (SignupBody b))" "fixed_answer (writeJSON n (LoginBody c))" "fixed_answer (writeJSON n (RefreshBody d))"
  using fixed_mapAuthError[of e]
  by (auto simp: fixed_answer_def respondJSONError_def respondTextError_def writeJSON_def http_Error_def WriteHeader_def untouched_def
      split: prod.splits)

lemma fixed_texts_answer:
  "t \<in> fixed_texts \<Longrightarrow> fixed_answer (writeJSON n (ErrorResponse t))" "t \<in> fixed_texts \<Longrightarrow> fixed_answer (http_Error t n)"
  by (auto simp: fixed_answer_def writeJSON_def http_Error_def)

lemma validate_fixed:
  "validateEmail L em = Some e \<Longrightarrow> err_Error e \<in> fixed_texts" "validatePassword pw = Some e \<Longrightarrow> err_Error e \<in> fixed_texts"
  by (auto simp: validateEmail_def validatePassword_def Let_def fixed_texts_def split: if_splits)

lemma fixed_texts_members:
  "''invalid request body'' \<in> fixed_texts" "''no tenant header'' \<in> fixed_texts" "''invalid JSON body'' \<in> fixed_texts"
  "''invalid request'' \<in> fixed_texts" "''email required'' \<in> fixed_texts" "''refresh token required'' \<in> fixed_texts"
  "''new_password is required'' \<in> fixed_texts" "''reset token is required'' \<in> fixed_texts"
  "''invalid or expired reset token'' \<in> fixed_texts" "err_Error ErrInvalidEmail \<in> fixed_texts"
  "err_Error ErrTenantHeaderMissing \<in> fixed_texts" "err_Error ErrTenantNotFound \<in> fixed_texts"
  "err_Error ErrTenantInactive \<in> fixed_texts" "''too many attempts, try again later'' \<in> fixed_texts"
  by (simp_all add: fixed_texts_def)

lemma fixed_verified: "fixed_answer ((WriteHeader n)\<lparr>rs_Body := TextBody ''Email verified successfully, You can close this tab now''\<rparr>)"
  by (simp add: fixed_answer_def)

lemma yields_fixed_handlers:
  "yields fixed_answer (signupHandler S r)" "yields fixed_answer (verifyEmailHandler S r)"
  "yields fixed_answer (resendVerificationHandler S r)" "yields fixed_answer (loginHandler S r)"
  "yields fixed_answer (refreshHandler S r)" "yields fixed_answer (logoutHandler S r)"
  "yields fixed_answer (sendResetPasswordEmailHandler S r)" "yields fixed_answer (resetPasswordHandler S r)"
  unfolding handler_defs
  by (intro yields_intros fixed_answers fixed_texts_answer fixed_texts_members fixed_verified validate_fixed; assumption?)+

text \<open>
  C35: Whatever happens below, the answer to a request on a tenant route other than the change of password
  carries no text but one of a fixed list (the tokens and the account of a successful sign-up, login or refresh
  have bodies of their own): no message of the database, of Redis, of the mail server or of a panic reaches the
  client, as plain text, as an error object or as a value of the map that the recoverer sends.
\<close>

theorem error_texts_fixed:
  assumes "chi_static X" "(rq_Method r, rq_Path r, h) \<in> set (tenant_routes S)" "rq_Path r \<noteq> ''/auth/password-change''"
    and "\<And>b. cors_preflight X (LoadCors cfg) (r\<lparr>rq_Body := b\<rparr>) = None"
    and "ServeHTTP cfg X S r w = (Ok rs, w')"
  shows "fixed_answer rs"
proof -
  from ServeHTTP_inner[OF assms(5,4)] obtain i w0 rs0 w1 where
    run: "RecovererMiddleware (dispatch X S) (at_route i r) w0 = (Ok rs0, w1)"
    and e: "rs_Body rs = rs_Body rs0" by blast
  from tenant_route_index[OF assms(2)] obtain j where
    "j < 14" "all_routes X S ! j = (rq_Method r, rq_Path r, h)" "static_pattern (rq_Path r)" by blast
  then have d: "dispatch X S (at_route i r) = h (at_route i r)"
    using dispatch_route[OF assms(1), of j S "at_route i r" h] by simp
  from assms(2,3) obtain h' where h: "h = tenant_group h'" and y: "\<And>r. yields fixed_answer (h' r)"
    using yields_fixed_handlers by (auto simp: tenant_routes_def)
  have g: "yields fixed_answer (tenant_group h' r')" for r'
    unfolding tenant_group_def TenantMiddleware_def RateLimitMiddleware_def limited_def too_many_def
    by (intro yields_intros y fixed_texts_answer fixed_texts_members)
  have m: "fixed_answer (writeJSON StatusInternalServerError (MapBody [(''error'', ''internal server error'')]))"
    by (simp add: fixed_answer_def writeJSON_def fixed_texts_def)
  from run have "fixed_answer rs0"
    by (cases rule: Recoverer_Ok) (use m g in \<open>auto simp: d h dest: yieldsD\<close>)
  with e show ?thesis by (simp add: fixed_answer_def)
qed

definition fail_world :: world where
  "fail_world = sample_world\<lparr>w_faults := [None, Some ''password=secret'']\<rparr>"

definition login_request :: "string \<Rightarrow> request" where
  "login_request body = (sample_request ''POST'' ''/auth/login'')\<lparr>rq_Header := [(''X-Tenant'', ''acme'')],
     rq_Body := Some (body, False)\<rparr>"

lemma error_texts_fixed_witness:
  "\<exists>rs w'. ServeHTTP sample_cfg sample_web sample_S (login_request ''x'') fail_world = (Ok rs, w') \<and> fixed_answer rs"
proof -
  let ?r = "login_request ''x''"
  obtain rs w' where run: "ServeHTTP sample_cfg sample_web sample_S ?r fail_world = (Ok rs, w')"
    using ServeHTTP_total[of fail_world sample_cfg sample_web sample_S ?r] by (auto simp: fail_world_def)
  moreover have "(rq_Method ?r, rq_Path ?r, tenant_group (loginHandler sample_S)) \<in> set (tenant_routes sample_S)"
    by (simp add: login_request_def sample_request_def tenant_routes_def)
  ultimately show ?thesis
    using error_texts_fixed[OF sample_web_static, of ?r "tenant_group (loginHandler sample_S)" sample_S sample_cfg fail_world rs w']
    by (auto simp: login_request_def sample_request_def)
qed

text \<open>The change of password is the exception: it sends the text of whatever error it got.\<close>

lemma change_password_tells_error:
  assumes "rq_Body r = Some b" "Decode True [''email'', ''old_password'', ''new_password'', ''new_confirm''] b = Some f"
    and "validateEmail (sv_lib S) (f ''email'') = None" "f ''new_password'' = f ''new_confirm''" "f ''old_password'' \<noteq> f ''new_password''"
    and "TenantFromContext (rq_ctx r) = Some tenant" "w_faults w = Some msg # fs"
  shows "fst (changePasswordHandler S r w) = Ok (writeJSON StatusBadRequest (ErrorResponse msg))"
  using assms
  by (simp add: changePasswordHandler_def withBody_def ChangePassword_def mapErr_def users_FindByEmail_def
      bindM_def attempt_def QueryRow_Conn next_ok_def next_err_def)

section \<open>Failed logins\<close>

lemma record_failure_quiet:
  assumes "w_redis_faults w = []"
  shows "\<exists>v rd. limiter_RecordLoginFailure ip em n w = (Ok v, (tick w)\<lparr>w_redis := rd, w_redis_faults := []\<rparr>)"
  using assms by (auto simp: limiter_RecordLoginFailure_def bindM_def attempt_def time_Now_eq RunScript_quiet)

lemma login_unknown_quiet:
  assumes "w_redis_faults w = []"
  shows "fst (login_unknown em ip w) = Err ErrInvalidCredentials"
proof -
  obtain v rd where "limiter_RecordLoginFailure ip em suspiciousLoginNotifyAt w = (Ok v, (tick w)\<lparr>w_redis := rd, w_redis_faults := []\<rparr>)"
    using record_failure_quiet[OF assms] by blast
  then show ?thesis by (simp add: login_unknown_def loginFailed_def bindM_def attempt_def)
qed

lemma login_wrong_password_quiet:
  assumes "w_redis_faults w = []" "w_faults w = []" "\<And>i. i \<in> set (w_uuids w) \<Longrightarrow> i \<notin> oe_ID ` set (outbox_events (w_db w))"
  shows "fst (login_wrong_password user tenant em ip w) = Err ErrInvalidCredentials"
proof -
  obtain v rd where r: "limiter_RecordLoginFailure ip em suspiciousLoginNotifyAt w = (Ok v, (tick w)\<lparr>w_redis := rd, w_redis_faults := []\<rparr>)"
    using record_failure_quiet[OF assms(1)] by blast
  show ?thesis
  proof (cases "w_uuids w")
    case Nil
    then show ?thesis
      by (simp add: login_wrong_password_def r loginFailed_def bindM_def attempt_def BeginTx_eq next_ok_def assms(2)
          susloginfailure_def uuid_NewV7_def)
  next
    case (Cons i us)
    with assms(3) have "i \<notin> oe_ID ` set (outbox_events (w_db w))" by simp
    then show ?thesis
      by (simp add: login_wrong_password_def r loginFailed_def bindM_def attempt_def BeginTx_eq next_ok_def assms(2) Cons
          susloginfailure_def uuid_NewV7_def time_Now_eq outbox_CreateTx_def ExecContext_Tx exec_tx_def insert_outbox_def
          new_event_simps StatusPending_def outbox_statuses_def deferM_def)
  qed
qed

text \<open>
  C36: No enumeration of accounts by login: when nothing fails below, a login with an unknown address, with the
  address of an account without a password, and with a wrong password for an existing account get the very
  same answer (401, the same text and headers).
\<close>

theorem login_failures_alike:
  assumes "rq_Body r = Some b" "Decode True [''email'', ''password''] b = Some f"
    and "validateEmail (sv_lib S) (f ''email'') = None" "validatePassword (f ''password'') = None"
    and "TenantFromContext (rq_ctx r) = Some tenant" "w_faults w = []" "w_redis_faults w = []"
    and "\<forall>i \<in> set (w_uuids w). i \<notin> oe_ID ` set (outbox_events (w_db w))"
    and "\<forall>u \<in> set (users (w_db w)). u_Email u = f ''email'' \<and> u_Tenant_ID u = t_ID tenant \<longrightarrow>
           (\<forall>h. u_PasswordHash u = Some h \<longrightarrow> ComparePassword (sv_lib S) h (f ''password'') \<noteq> None)"
  shows "\<exists>w'. loginHandler S r w = (Ok (writeJSON 401 (ErrorResponse ''invalid credentials'')), w')"
proof -
  have w: "pop w = w" using assms(6) by (rule quiet_pop)
  have "fst (Login S (rq_ctx r) (f ''email'') (f ''password'') (ClientIP r) w) = Err ErrInvalidCredentials"
  proof (cases "List.find (\<lambda>u. u_Email u = f ''email'' \<and> u_Tenant_ID u = t_ID tenant) (users (w_db w))")
    case None
    then show ?thesis
      using login_unknown_quiet[OF assms(7)] assms(5,6)
      by (simp add: Login_def find_user_def users_FindByEmail_def bindM_def attempt_def QueryRow_Conn next_ok_def w)
  next
    case (Some u)
    from find_Some_in[OF Some] assms(9) have u: "\<And>h. u_PasswordHash u = Some h \<Longrightarrow> ComparePassword (sv_lib S) h (f ''password'') \<noteq> None"
      by auto
    have "fst (login_found S tenant (f ''email'') (f ''password'') (ClientIP r) u w) = Err ErrInvalidCredentials"
      using u login_unknown_quiet[OF assms(7)] login_wrong_password_quiet[OF assms(7,6)] assms(8)
      by (cases "u_PasswordHash u") (auto simp: login_found_def)
    with Some show ?thesis
      using assms(5,6)
      by (simp add: Login_def find_user_def users_FindByEmail_def bindM_def attempt_def QueryRow_Conn next_ok_def w)
  qed
  then obtain w' where run: "Login S (rq_ctx r) (f ''email'') (f ''password'') (ClientIP r) w = (Err ErrInvalidCredentials, w')"
    by (metis prod.collapse)
  with assms(1-4) show ?thesis
    by (simp add: loginHandler_def withBody_def respondJSONError_def status_defs)
qed

definition bad_login :: string where
  "bad_login = print_object [(''email'', ''x@y''), (''password'', ''0123456789'')]"

lemma plain_simps:
  "plain ''email''" "plain ''password''" "plain ''x@y''" "plain ''a@b''" "plain ''0123456789''" "plain ''new_password''" "plain ''short''"
  by (simp_all add: plain_def plain_char_def code_def)

lemma login_failures_alike_witness:
  "\<exists>w'. loginHandler sample_S ((login_request bad_login)\<lparr>rq_ctx := acme_ctx\<rparr>) sample_world =
     (Ok (writeJSON 401 (ErrorResponse ''invalid credentials'')), w')"
proof -
  let ?f = "zero_fields(''email'' := ''x@y'', ''password'' := ''0123456789'')"
  let ?r = "(login_request bad_login)\<lparr>rq_ctx := acme_ctx\<rparr>"
  have d: "Decode True [''email'', ''password''] (bad_login, False) = Some ?f"
    using Decode_object[of "[(''email'', ''x@y''), (''password'', ''0123456789'')]" "[''email'', ''password'']" True "[]" False]
    by (simp add: bad_login_def plain_simps)
  have b: "rq_Body ?r = Some (bad_login, False)" by (simp add: login_request_def)
  have v: "validateEmail (sv_lib sample_S) (?f ''email'') = None" "validatePassword (?f ''password'') = None"
    by (simp_all add: validateEmail_def validatePassword_def TrimSpace_def TrimBoth_def is_space_def Let_def)
  from login_failures_alike[OF b d v, of acme sample_world] show ?thesis
    by (simp add: sample_db_def empty_db_def sample_user_def)
qed

section \<open>Text after the JSON value\<close>

lemma ClientIP_body [simp]: "ClientIP (r\<lparr>rq_Body := b\<rparr>) = ClientIP r"
  by (simp add: ClientIP_def Header_Get_def cong: option.case_cong)

lemma foldName_lower: "list_all (\<lambda>c. code c < 128) s \<Longrightarrow> foldName s = ToLower s"
proof (induction s)
  case (Cons c s)
  then have "map code (take 2 (c # s)) \<noteq> [197, 191]" "map code (take 3 (c # s)) \<noteq> [226, 132, 170]" by auto
  with Cons show ?case by (subst foldName.simps) (simp add: ToLower_def)
qed (simp add: foldName.simps ToLower_def)

lemma email_field: "find_field [''email''] ''email'' = Some ''email''" "find_field [''email''] ''password'' = None"
proof -
  have "foldName ''email'' \<noteq> foldName ''password''"
    by (simp add: foldName_lower code_def ToLower_def lower_char_def Let_def)
  then show "find_field [''email''] ''password'' = None" by (simp add: find_field_def)
qed (simp add: find_field_def)

definition login_text :: "string \<Rightarrow> string \<Rightarrow> string" where
  "login_text email password = print_object [(''email'', email), (''password'', password)]"

lemma peek_login:
  assumes "plain em" "plain pw" "rq_Body r = Some (login_text em pw @ rest, False)"
  shows "peekEmail r = (if skip_ws rest = [] then em else [], r)"
proof -
  let ?kvs = "[(''email'', em), (''password'', pw)]"
  have p: "\<forall>(k, v) \<in> set ?kvs. plain k \<and> plain v" using assms(1,2) plain_simps by simp
  have r: "r\<lparr>rq_Body := Some (login_text em pw @ rest, False)\<rparr> = r" using assms(3) by simp
  have "Unmarshal [''email''] (login_text em pw @ rest) ''email'' = (if skip_ws rest = [] then em else [])"
    using json_value_object[OF _ p, of 0 rest]
    by (simp add: login_text_def Unmarshal_def store_value_def maxNestingDepth_def email_field zero_fields_def)
  with assms(3) r show ?thesis by (simp add: peekEmail_def Let_def)
qed

lemma decode_login:
  assumes "plain em" "plain pw"
  shows "Decode True [''email'', ''password''] (login_text em pw @ rest, b) = Some (zero_fields(''email'' := em, ''password'' := pw))"
  using Decode_object[of "[(''email'', em), (''password'', pw)]" "[''email'', ''password'']" True rest b] assms
  by (simp add: login_text_def plain_simps)

lemma check_login_quiet:
  assumes "w_ticks w = []" "w_redis_faults w = []"
  shows "\<exists>w1. limiter_CheckLogin ip em w =
    ((if login_check (w_now w) (RedisKeyBuilder ''login'' ip em) (Unix (w_now w)) (w_redis w) = 1
      then Err LimiterRateLimited else Ok ()), w1) \<and> w_db w1 = w_db w \<and> w_faults w1 = w_faults w"
  using assms
  by (simp add: limiter_CheckLogin_def bindM_def attempt_def time_Now_eq tick_quiet RunScript_quiet)

text \<open>
  The block of an account does not hold: when an account is blocked for a client (too many failed
  logins), the client's login request is answered with 429; but the same JSON object followed by any text
  that is not blank passes the limiter, because the limiter wants the whole body to be one JSON value and
  otherwise looks up the empty address, while the login handler reads the same address and password from
  either body. Only the block of the network address (and of the empty address) is still checked.
\<close>

lemma trailing_text_evades_account_block:
  assumes "plain em" "plain pw" "skip_ws rest \<noteq> []" "rq_Path r = ''/auth/login''" "w_ticks w = []" "w_redis_faults w = []"
    and "login_check (w_now w) (RedisKeyBuilder ''login'' (ClientIP r) em) (Unix (w_now w)) (w_redis w) = 1"
    and "login_check (w_now w) (RedisKeyBuilder ''login'' (ClientIP r) []) (Unix (w_now w)) (w_redis w) = 0"
    and "r1 = r\<lparr>rq_Body := Some (login_text em pw, False)\<rparr>" "r2 = r\<lparr>rq_Body := Some (login_text em pw @ rest, False)\<rparr>"
  shows "fst (RateLimitMiddleware (loginHandler S) r1 w) = Ok too_many \<and>
    (\<exists>w1. RateLimitMiddleware (loginHandler S) r2 w = loginHandler S r2 w1 \<and> w_db w1 = w_db w \<and> w_faults w1 = w_faults w) \<and>
    loginHandler S r1 = loginHandler S r2"
proof (intro conjI)
  have ip: "ClientIP r1 = ClientIP r" "ClientIP r2 = ClientIP r"
    by (simp_all add: assms(9,10))
  have pk: "peekEmail r1 = (em, r1)" "peekEmail r2 = ([], r2)"
    using peek_login[OF assms(1,2), of r1 "[]"] peek_login[OF assms(1,2), of r2 rest] assms(3)
    by (auto simp: assms(9,10) skip_ws_def)
  have path: "rq_Path r1 = ''/auth/login''" "rq_Path r2 = ''/auth/login''" using assms(4) by (simp_all add: assms(9,10))
  obtain w1 where "limiter_CheckLogin (ClientIP r) em w = (Err LimiterRateLimited, w1)"
    using check_login_quiet[OF assms(5,6), of "ClientIP r" em] assms(7) by auto
  then show "fst (RateLimitMiddleware (loginHandler S) r1 w) = Ok too_many"
    by (simp add: RateLimitMiddleware_def Let_def path pk ip limited_def)
  obtain w2 where "limiter_CheckLogin (ClientIP r) [] w = (Ok (), w2)" "w_db w2 = w_db w" "w_faults w2 = w_faults w"
    using check_login_quiet[OF assms(5,6), of "ClientIP r" "[]"] assms(8) by auto
  then show "\<exists>w1. RateLimitMiddleware (loginHandler S) r2 w = loginHandler S r2 w1 \<and> w_db w1 = w_db w \<and> w_faults w1 = w_faults w"
    by (intro exI[of _ w2]) (simp add: RateLimitMiddleware_def Let_def path pk ip limited_def)
  show "loginHandler S r1 = loginHandler S r2"
    using decode_login[OF assms(1,2), of "[]" False] decode_login[OF assms(1,2), of rest False]
    by (simp add: loginHandler_def withBody_def assms(9,10) split: option.split)
qed

definition blocked_world :: world where
  "blocked_world = sample_world\<lparr>w_redis := [''auth:login:account:a@b'' \<mapsto> ([''next_try'' \<mapsto> 900], None)]\<rparr>"

lemma trailing_text_evades_account_block_witness:
  "fst (RateLimitMiddleware (loginHandler sample_S) ((login_request [])\<lparr>rq_Body := Some (login_text ''a@b'' ''0123456789'', False)\<rparr>)
     blocked_world) = Ok too_many"
proof -
  let ?r = "login_request []"
  have ip: "ClientIP ?r = ''1.2.3.4''"
    by (simp add: ClientIP_def login_request_def sample_request_def Header_Get_def lookup_first_def TrimSpace_def TrimBoth_def
        ParseIP_def SplitHostPort_def last_index_def)
  have w: "w_now blocked_world = 1000" "w_ticks blocked_world = []" "w_redis_faults blocked_world = []"
    "w_redis blocked_world = [''auth:login:account:a@b'' \<mapsto> ([''next_try'' \<mapsto> 900], None)]"
    by (simp_all add: blocked_world_def)
  have c: "login_check 1000 (RedisKeyBuilder ''login'' ''1.2.3.4'' ''a@b'') (Unix 1000) (w_redis blocked_world) = 1"
    "login_check 1000 (RedisKeyBuilder ''login'' ''1.2.3.4'' []) (Unix 1000) (w_redis blocked_world) = 0"
    by (simp_all add: login_check_def RedisKeyBuilder_def Let_def key_blocked_def HGET_def live_def w Unix_def Second_def)
  show ?thesis
    using trailing_text_evades_account_block[of "''a@b''" "''0123456789''" "''x''" ?r blocked_world _ _ sample_S] c w
    by (simp add: ip plain_simps skip_ws_def json_space_def code_def) (simp add: login_request_def sample_request_def)
qed

section \<open>Short passwords\<close>

text \<open>
  A reset accepts any password that is not empty, but login refuses passwords of nine characters or less
  before it looks at the account: after a reset to such a password (which also ended every session) no login
  request with that password is ever let through, whatever the state: the answer is 400.
\<close>

lemma short_reset_locks_out:
  assumes "rq_Body r = Some b" "Decode True [''new_password''] b = Some f" "f ''new_password'' \<noteq> []" "length (f ''new_password'') \<le> 9"
    and "Query_Get r ''t'' \<noteq> []"
    and "ResetPassword S (rq_ctx r) (Query_Get r ''t'') (f ''new_password'') (ClientIP r) w = (Ok (), w1)"
    and "rq_Body r' = Some b'" "Decode True [''email'', ''password''] b' = Some g" "g ''password'' = f ''new_password''"
  shows "resetPasswordHandler S r w = (Ok (WriteHeader 204), w1) \<and>
    (\<exists>t. loginHandler S r' w2 = (Ok (writeJSON 400 (ErrorResponse t)), w2))"
  using assms
  by (auto simp: resetPasswordHandler_def loginHandler_def withBody_def validatePassword_def status_defs split: option.splits)

definition reset_request :: request where
  "reset_request = (sample_request ''POST'' ''/auth/reset-password'')\<lparr>rq_Query := [(''t'', ''tok'')], rq_ctx := acme_ctx,
     rq_Body := Some (print_object [(''new_password'', ''short'')], False)\<rparr>"

lemma short_reset_locks_out_witness:
  "\<exists>w1. resetPasswordHandler sample_S reset_request (reset_world None) = (Ok (WriteHeader 204), w1) \<and>
     (\<exists>t. loginHandler sample_S (login_request (login_text ''a@b'' ''short'')) w1 = (Ok (writeJSON 400 (ErrorResponse t)), w1))"
proof -
  let ?r' = "login_request (login_text ''a@b'' ''short'')"
  have d: "Decode True [''new_password''] (print_object [(''new_password'', ''short'')], False) = Some (zero_fields(''new_password'' := ''short''))"
    using Decode_object[of "[(''new_password'', ''short'')]" "[''new_password'']" True "[]" False] by (simp add: plain_simps)
  have "fst (ResetPassword sample_S acme_ctx ''tok'' ''short'' (ClientIP reset_request) (reset_world None)) = Ok ()"
    by (simp add: reset_run sample_db_def empty_db_def sample_user_def StatusPending_def)
  then obtain w1 where r: "ResetPassword sample_S acme_ctx ''tok'' ''short'' (ClientIP reset_request) (reset_world None) = (Ok (), w1)"
    by (metis prod.collapse)
  have b: "rq_Body reset_request = Some (print_object [(''new_password'', ''short'')], False)"
    "rq_Body ?r' = Some (login_text ''a@b'' ''short'' @ [], False)" by (simp_all add: reset_request_def login_request_def)
  have q: "Query_Get reset_request ''t'' = ''tok''" "rq_ctx reset_request = acme_ctx"
    by (simp_all add: reset_request_def Query_Get_def lookup_first_def)
  from short_reset_locks_out[OF b(1) d _ _ _ _ b(2) decode_login[OF plain_simps(4,7)], of sample_S "reset_world None" w1 w1] r q
  show ?thesis by auto
qed

section \<open>Counting requests\<close>

lemma yields_change: "yields (\<lambda>rs. rs_Code rs = 400 \<or> rs = untouched) (changePasswordHandler S r)"
  unfolding changePasswordHandler_def by (intro yields_intros; simp add: writeJSON_def status_defs)

text \<open>
  A successful change of password writes nothing, so that the client gets 200 while the request is counted
  (and logged) with status 0.
\<close>

lemma password_change_counted_as_zero:
  assumes "MetricsMiddleware p (LoggingMiddleware (RecovererMiddleware (changePasswordHandler S))) r w = (Ok rs, w')"
    and "rs_Code rs \<noteq> 400" "rs_Code rs \<noteq> 500"
  shows "sent_status rs = 200 \<and> snd (snd (hd (m_http_requests (w_metrics w')))) = 0"
proof -
  from inner_run[OF assms(1)] obtain w0 w1 where
    run: "RecovererMiddleware (changePasswordHandler S) r w0 = (Ok rs, w1)"
    and m: "m_http_requests (w_metrics w') =
      (if p r = [] then ''unmatched'' else p r, rq_Method r, rs_Code rs) # m_http_requests (w_metrics w1)" by blast
  from run have "rs = untouched"
  proof (cases rule: Recoverer_Ok)
    case Answer
    with yieldsD[OF yields_change] assms(2) show ?thesis by blast
  next
    case (Recovered q w2)
    with assms(3) show ?thesis by (simp add: writeJSON_def status_defs)
  qed
  with m show ?thesis by (simp add: untouched_def sent_status_def status_defs)
qed

end
