(* ===== verification/Db_Open.thy ===== *)
theory Db_Open
  imports Config
begin

text \<open>
  \<^verbatim>\<open>internal/db\<close>: opening the database, with the retry loop and the migrations (\<^verbatim>\<open>open.go\<close>,
  \<^verbatim>\<open>postgres.go\<close>, \<^verbatim>\<open>sqlite.go\<close>, \<^verbatim>\<open>migrate.go\<close>). What the database drivers answer is a
  parameter: the error of the \<open>i\<close>-th attempt to open and ping a PostgreSQL server by its connection string,
  of opening and of pinging an SQLite file, of executing a script, and the answers to the look-ups of the
  table \<^verbatim>\<open>users\<close> in SQLite and in PostgreSQL.
\<close>

record db_driver =
  pg_connect :: "string \<Rightarrow> nat \<Rightarrow> string option"
  sqlite_open :: "string \<Rightarrow> err option"
  sqlite_ping :: "string \<Rightarrow> err option"
  db_Exec :: "string \<Rightarrow> err option"
  users_table :: "err + string"
  information_schema_users :: "err + bool"

type_synonym file_system = "string \<rightharpoonup> string"

section \<open>Migrations\<close>

definition executeMigration :: "file_system \<Rightarrow> db_driver \<Rightarrow> string \<Rightarrow> err option" where
  "executeMigration fs D path =
     (case ReadFile fs path of
        Inl e \<Rightarrow> Some (ErrOther (''reading migration '' @ path @ '': '' @ err_Error e))
      | Inr migration \<Rightarrow>
          (case db_Exec D migration of
             Some e \<Rightarrow> Some (ErrOther (''executing migration '' @ path @ '': '' @ err_Error e))
           | None \<Rightarrow> None))"

definition postgres_migration :: string where "postgres_migration = ''./migrations/postgres/001_init.sql''"

definition RunPostgresMigrations :: "file_system \<Rightarrow> db_driver \<Rightarrow> err option" where
  "RunPostgresMigrations fs D = executeMigration fs D postgres_migration"

text \<open>Unlike its SQLite counterpart, \<^verbatim>\<open>postgresSchemaExists\<close> is never called: the migration always runs.\<close>

definition postgresSchemaExists :: "db_driver \<Rightarrow> err + bool" where
  "postgresSchemaExists D = (case information_schema_users D of Inl e \<Rightarrow> Inl e | Inr ex \<Rightarrow> Inr ex)"

definition SqliteMigration :: "file_system \<Rightarrow> db_driver \<Rightarrow> string \<Rightarrow> err option" where
  "SqliteMigration fs D path =
     (case ReadFile fs path of Inl e \<Rightarrow> Some e | Inr migration \<Rightarrow> db_Exec D migration)"

definition schemaExists :: "db_driver \<Rightarrow> err + bool" where
  "schemaExists D = (case users_table D of Inl e \<Rightarrow> if e = ErrNoRows then Inr False else Inl e | Inr _ \<Rightarrow> Inr True)"

section \<open>Connecting\<close>

definition int_text :: "int \<Rightarrow> string" where
  "int_text n = (if n < 0 then CHR ''-'' # dec_digits (nat (- n)) else dec_digits (nat n))"

definition postgres_dsn :: "PostgresConfig \<Rightarrow> string" where
  "postgres_dsn cfg =
     ''host='' @ pg_Host cfg @ '' port='' @ int_text (pg_Port cfg) @ '' user='' @ pg_User cfg
     @ '' password='' @ pg_Password cfg @ '' dbname='' @ pg_Database cfg"

definition maxTries :: nat where "maxTries = 5"

text \<open>The retry loop: the attempt that succeeded, or the error of the last one, and the seconds slept.\<close>

function connect_loop :: "(nat \<Rightarrow> string option) \<Rightarrow> nat \<Rightarrow> nat \<Rightarrow> (err + nat) \<times> nat" where
  "connect_loop ping i slept =
     (case ping i of
        None \<Rightarrow> (Inr i, slept)
      | Some e \<Rightarrow>
          if i \<ge> maxTries
          then (Inl (ErrOther (''failed to connect to database after 5 attempts: '' @ e)), slept)
          else connect_loop ping (i + 1) (slept + 1))"
  by pat_completeness auto
termination by (relation "measure (\<lambda>(ping, i, slept). maxTries - i)") auto

declare connect_loop.simps [simp del]

text \<open>The result of opening is the error, or nothing (the handle is not modelled), with the seconds slept.\<close>

definition OpenPostgres :: "file_system \<Rightarrow> db_driver \<Rightarrow> PostgresConfig \<Rightarrow> (err + unit) \<times> nat" where
  "OpenPostgres fs D cfg =
     (case connect_loop (pg_connect D (postgres_dsn cfg)) 1 0 of
        (Inl e, slept) \<Rightarrow> (Inl e, slept)
      | (Inr _, slept) \<Rightarrow> (case RunPostgresMigrations fs D of Some e \<Rightarrow> (Inl e, slept) | None \<Rightarrow> (Inr (), slept)))"

definition OpenSQLite :: "file_system \<Rightarrow> db_driver \<Rightarrow> string \<Rightarrow> err + unit" where
  "OpenSQLite fs D path =
     (case sqlite_open D path of
        Some e \<Rightarrow> Inl e
      | None \<Rightarrow>
          (case sqlite_ping D path of
             Some e \<Rightarrow> Inl e
           | None \<Rightarrow>
               bind_sum (schemaExists D) (\<lambda>ok.
               if ok then Inr ()
               else (case SqliteMigration fs D ''migrations/sqlite/001_init.sql'' of Some e \<Rightarrow> Inl e | None \<Rightarrow> Inr ()))))"

definition db_Open :: "file_system \<Rightarrow> db_driver \<Rightarrow> DatabaseConfig \<Rightarrow> err + unit" where
  "db_Open fs D cfg =
     (if dc_Driver cfg = ''sqlite'' then OpenSQLite fs D (dc_SqlitePath cfg)
      else if dc_Driver cfg = ''postgres'' then fst (OpenPostgres fs D (dc_PostgresConf cfg))
      else Inl (ErrOther (''unsupported database driver '' @ dquote (dc_Driver cfg))))"

section \<open>Facts\<close>

text \<open>The loop succeeds iff one of the attempts from \<open>i\<close> to the fifth does, and then with the first that does.\<close>

lemma connect_loop_spec:
  assumes "i \<le> maxTries" "connect_loop ping i slept = (r, s)"
  shows "(\<exists>j. r = Inr j \<and> i \<le> j \<and> j \<le> maxTries \<and> ping j = None \<and> (\<forall>k. i \<le> k \<and> k < j \<longrightarrow> ping k \<noteq> None) \<and> s = slept + (j - i)) \<or>
    ((\<exists>e. r = Inl e) \<and> (\<forall>k. i \<le> k \<and> k \<le> maxTries \<longrightarrow> ping k \<noteq> None) \<and> s = slept + (maxTries - i))"
  using assms
proof (induction ping i slept rule: connect_loop.induct)
  case (1 ping i slept)
  show ?case
  proof (cases "ping i")
    case None
    with 1(3) have "r = Inr i" "s = slept" by (auto simp: connect_loop.simps)
    with None 1(2) show ?thesis by auto
  next
    case (Some e)
    show ?thesis
    proof (cases "i \<ge> maxTries")
      case True
      with Some 1(2,3) show ?thesis by (auto simp: connect_loop.simps dest: le_antisym)
    next
      case False
      with Some 1(3) have "connect_loop ping (i + 1) (slept + 1) = (r, s)" by (simp add: connect_loop.simps[of ping i])
      from 1(1)[OF Some False _ this] False consider
        j where "r = Inr j" "i + 1 \<le> j" "j \<le> maxTries" "ping j = None" "\<forall>k. i + 1 \<le> k \<and> k < j \<longrightarrow> ping k \<noteq> None"
          "s = slept + 1 + (j - (i + 1))"
        | "\<exists>e. r = Inl e" "\<forall>k. i + 1 \<le> k \<and> k \<le> maxTries \<longrightarrow> ping k \<noteq> None" "s = slept + 1 + (maxTries - (i + 1))"
        by auto
      then show ?thesis
      proof cases
        case 1
        moreover have "ping k \<noteq> None" if "i \<le> k" "k < j" for k
          using that 1(5) Some by (cases "k = i") auto
        ultimately show ?thesis by (intro disjI1 exI[of _ j]) auto
      next
        case 2
        moreover have "ping k \<noteq> None" if "i \<le> k" "k \<le> maxTries" for k
          using that 2(2) Some by (cases "k = i") auto
        ultimately show ?thesis using False by (intro disjI2) auto
      qed
    qed
  qed
qed

lemma executeMigration_None:
  "executeMigration fs D path = None \<longleftrightarrow> (\<exists>sql. fs path = Some sql \<and> db_Exec D sql = None)"
  by (auto simp: executeMigration_def ReadFile_def split: option.splits)

lemma OpenPostgres_run:
  "(fst (OpenPostgres fs D c) = Inr () \<longleftrightarrow>
      list_ex (\<lambda>i. pg_connect D (postgres_dsn c) i = None) [1..<6] \<and>
      (\<exists>sql. fs postgres_migration = Some sql \<and> db_Exec D sql = None)) \<and>
   snd (OpenPostgres fs D c) = min 4 (length (takeWhile (\<lambda>i. pg_connect D (postgres_dsn c) i \<noteq> None) [1..<6]))"
proof -
  let ?p = "pg_connect D (postgres_dsn c)"
  obtain r s where cl: "connect_loop ?p 1 0 = (r, s)" by fastforce
  have five: "(1::nat) \<le> maxTries" by (simp add: maxTries_def)
  have mig: "RunPostgresMigrations fs D = None \<longleftrightarrow> (\<exists>sql. fs postgres_migration = Some sql \<and> db_Exec D sql = None)"
    by (simp add: RunPostgresMigrations_def executeMigration_None)
  from connect_loop_spec[OF five cl] show ?thesis
  proof (elim disjE exE conjE)
    fix j assume r: "r = Inr j" and j: "1 \<le> j" "j \<le> maxTries" "?p j = None" and s: "s = 0 + (j - 1)"
      and before: "\<forall>k. 1 \<le> k \<and> k < j \<longrightarrow> ?p k \<noteq> None"
    from j have "[1..<6] = [1..<j] @ j # [Suc j..<6]"
      using upt_add_eq_append[of 1 j "6 - j"] upt_conv_Cons[of j 6] by (auto simp: maxTries_def)
    moreover have "takeWhile (\<lambda>i. ?p i \<noteq> None) ([1..<j] @ j # [Suc j..<6]) = [1..<j] @ takeWhile (\<lambda>i. ?p i \<noteq> None) (j # [Suc j..<6])"
      using before by (intro takeWhile_append2) auto
    ultimately have "length (takeWhile (\<lambda>i. ?p i \<noteq> None) [1..<6]) = j - 1" using j(3) by simp
    moreover from j have "list_ex (\<lambda>i. ?p i = None) [1..<6]" by (auto simp: list_ex_iff maxTries_def)
    moreover from j have "j - 1 \<le> 4" by (simp add: maxTries_def)
    ultimately show ?thesis using r s
      by (simp add: OpenPostgres_def cl mig[symmetric] del: One_nat_def split: option.split)
  next
    fix e assume r: "r = Inl e" and none: "\<forall>k. 1 \<le> k \<and> k \<le> maxTries \<longrightarrow> ?p k \<noteq> None" and s: "s = 0 + (maxTries - 1)"
    from none have "takeWhile (\<lambda>i. ?p i \<noteq> None) [1..<6] = [1..<6]" by (auto simp: takeWhile_eq_all_conv maxTries_def)
    then have "length (takeWhile (\<lambda>i. ?p i \<noteq> None) [1..<6]) = 5" by (simp del: takeWhile_eq_all_conv)
    moreover from none have "\<not> list_ex (\<lambda>i. ?p i = None) [1..<6]" by (auto simp: list_ex_iff maxTries_def)
    ultimately show ?thesis using r s by (simp add: OpenPostgres_def cl maxTries_def del: One_nat_def)
  qed
qed

lemmas OpenPostgres_success = conjunct1[OF OpenPostgres_run]
lemmas OpenPostgres_slept = conjunct2[OF OpenPostgres_run]

text \<open>
  C39: Connecting to PostgreSQL ends after at most five attempts and four seconds of waiting. It succeeds exactly
  when one of the first five attempts with the configured connection string does and the migration script can
  be read and runs; it waits one second after each failed attempt but the fifth.
\<close>

theorem open_postgres_bounded:
  "(fst (OpenPostgres fs D c) = Inr () \<longleftrightarrow>
      list_ex (\<lambda>i. pg_connect D (postgres_dsn c) i = None) [1..<6] \<and>
      (\<exists>sql. fs postgres_migration = Some sql \<and> db_Exec D sql = None)) \<and>
   snd (OpenPostgres fs D c) = min 4 (length (takeWhile (\<lambda>i. pg_connect D (postgres_dsn c) i \<noteq> None) [1..<6]))"
  using OpenPostgres_success OpenPostgres_slept by blast

end
