(* ===== verification/Mailer.thy ===== *)
theory Mailer
  imports Db_Open Router
begin

text \<open>
  \<^verbatim>\<open>internal/auth/mail/smtp.go\<close>: the message of \<^verbatim>\<open>SendVerificationEmail\<close> byte for byte, and the
  call of \<^verbatim>\<open>net/smtp\<close>, whose outcome is a parameter. The page is kept in the four pieces that the link
  separates.
\<close>

section \<open>The message\<close>

definition tab :: string where "tab = [CHR 0x09]"
definition crlf :: string where "crlf = [CHR 0x0D, CHR 0x0A]"

definition page_head :: string where
  "page_head = join [CHR 0x0A]
     [''<!DOCTYPE html>'',
      ''<html>'',
      ''<head>'',
      tab @ ''<meta charset=\"UTF-8\">'',
      tab @ ''<style>'',
      tab @ tab @ ''body { font-family: Arial, sans-serif; line-height: 1.6; color: #333333; }'',
      tab @ tab @ ''.container { max-width: 600px; margin: 0 auto; padding: 20px; border: 1px solid #e0e0e0; border-radius: 8px; }'',
      tab @ tab @ ''.header { font-size: 24px; font-weight: bold; color: #1a73e8; margin-bottom: 20px; }'',
      tab @ tab @ ''.button { display: inline-block; padding: 12px 24px; margin: 20px 0; color: #ffffff !important; background-color: #1a73e8; text-decoration: none; border-radius: 4px; font-weight: bold; }'',
      tab @ tab @ ''.footer { margin-top: 30px; font-size: 12px; color: #666666; border-top: 1px solid #eeeeee; padding-top: 10px; }'',
      tab @ ''</style>'',
      ''</head>'',
      ''<body>'',
      tab @ ''<div class=\"container\">'',
      tab @ tab @ ''<div class=\"header\">Welcome aboard!</div>'',
      tab @ tab @ ''<p>Hi there,</p>'',
      tab @ tab @ ''<p>Thank you for signing up. Please click the button below to verify your email address and activate your account:</p>'',
      [],
      tab @ tab @ ''<a href=\"'']"

definition page_middle :: string where
  "page_middle = join [CHR 0x0A]
     [''\" class=\"button\">Verify Email Address</a>'',
      [],
      tab @ tab @ ''<p>If the button doesn't work, copy and paste this link:</p>'',
      tab @ tab @ ''<p style=\"font-size: 12px; word-break: break-all;\">'',
      tab @ tab @ tab @ ''<a href=\"'']"

definition page_link :: string where
  "page_link = join [CHR 0x0A]
     [''\">'']"

definition page_foot :: string where
  "page_foot = join [CHR 0x0A]
     [''</a>'',
      tab @ tab @ ''</p>'',
      [],
      tab @ tab @ ''<div class=\"footer\">'',
      tab @ tab @ tab @ ''<p>If you didn't create an account, you can safely ignore this email.</p>'',
      tab @ tab @ tab @ ''<p>&copy; Grillworks</p>'',
      tab @ tab @ ''</div>'',
      tab @ ''</div>'',
      ''</body>'',
      ''</html>'']"

definition verification_link :: "SMTPMailer \<Rightarrow> string \<Rightarrow> string" where
  "verification_link m token = sm_BaseURL m @ ''/verify-email?t='' @ token"

definition verification_page :: "string \<Rightarrow> string" where
  "verification_page link = page_head @ link @ page_middle @ link @ page_link @ link @ page_foot"

definition verification_headers :: "SMTPMailer \<Rightarrow> string \<Rightarrow> string list" where
  "verification_headers m to =
     [''From: '' @ sm_From m, ''To: '' @ to, ''Subject: Verify your email'', ''MIME-Version: 1.0'',
      ''Content-Type: text/html; charset=UTF-8'', []]"

definition verification_message :: "SMTPMailer \<Rightarrow> string \<Rightarrow> string \<Rightarrow> string" where
  "verification_message m to link = concat (map (\<lambda>h. h @ crlf) (verification_headers m to)) @ verification_page link"

section \<open>Sending\<close>

record smtp_call =
  sc_addr :: string
  sc_auth :: "string \<times> string \<times> string \<times> string"
  sc_from :: string
  sc_to :: "string list"
  sc_msg :: string

definition SendVerificationEmail :: "(smtp_call \<Rightarrow> err option) \<Rightarrow> SMTPMailer \<Rightarrow> string \<Rightarrow> string \<Rightarrow> err option" where
  "SendVerificationEmail smtp_SendMail m to token =
     (let auth = ([], sm_Username m, sm_Password m, sm_Host m);
          link = verification_link m token;
          msg = verification_message m to link;
          addr = sm_Host m @ '':'' @ int_text (sm_Port m)
      in smtp_SendMail \<lparr>sc_addr = addr, sc_auth = auth, sc_from = sm_Username m, sc_to = [to], sc_msg = msg\<rparr>)"

section \<open>Facts\<close>

text \<open>
  The path in the mailed link is not a route of the server, with either method: the handler is registered under
  \<^verbatim>\<open>/auth/verify-email\<close>.
\<close>

lemma verification_link_not_routed:
  "(meth, ''/verify-email'', h) \<notin> set (all_routes X S)"
  by (auto simp: all_routes_def RegisterRoutes_def tenant_routes_def)

end
