(* ===== verification/Logger.thy ===== *)
theory Logger
  imports Middleware
begin

text \<open>
  \<^verbatim>\<open>internal/auth/logger\<close>: the choice of the handler and of the level (\<^verbatim>\<open>logger.go\<close>) and the
  coloured handler for development (\<^verbatim>\<open>dev_logger.go\<close>). An attribute's value is an error or anything else
  by its \<^verbatim>\<open>%v\<close> text. The mutex that keeps lines apart is not modelled: a line is written by one call.
\<close>

section \<open>Levels (logger.go)\<close>

definition parseLevel :: "string \<Rightarrow> int" where
  "parseLevel levelStr =
     (let l = ToLower (TrimSpace levelStr) in
      if l = ''debug'' then LevelDebug
      else if l = ''warn'' \<or> l = ''warning'' then LevelWarn
      else if l = ''error'' then LevelError
      else LevelInfo)"

definition isProd :: "string \<Rightarrow> bool" where
  "isProd env = (let e = ToLower (TrimSpace env) in e = ''production'' \<or> e = ''prod'')"

section \<open>The development handler (dev\_logger.go)\<close>

definition esc :: "string \<Rightarrow> string" where "esc s = CHR 0x1B # s"

definition colorReset :: string where "colorReset = esc ''[0m''"
definition colorGray :: string where "colorGray = esc ''[90m''"
definition colorGreen :: string where "colorGreen = esc ''[32m''"
definition colorYellow :: string where "colorYellow = esc ''[33m''"
definition colorRed :: string where "colorRed = esc ''[31m''"

datatype attr_value = ErrorValue string | TextValue string

type_synonym attr = "string \<times> attr_value"

record slog_Record =
  sr_Time :: time
  sr_Level :: int
  sr_Message :: string
  sr_Attrs :: "attr list"

record devHandler =
  dh_level :: int
  dh_attrs :: "attr list"
  dh_groups :: "string list"

definition NewDevHandler :: "int option \<Rightarrow> devHandler" where
  "NewDevHandler level =
     \<lparr>dh_level = (case level of None \<Rightarrow> LevelInfo | Some l \<Rightarrow> l), dh_attrs = [], dh_groups = []\<rparr>"

definition Enabled :: "devHandler \<Rightarrow> int \<Rightarrow> bool" where
  "Enabled h level \<longleftrightarrow> level \<ge> dh_level h"

definition levelDisplay :: "int \<Rightarrow> string \<times> string" where
  "levelDisplay level =
     (if level < LevelInfo then (''DEBUG'', colorGray)
      else if level < LevelWarn then (''INFO'', colorGreen)
      else if level < LevelError then (''WARN'', colorYellow)
      else (''ERROR'', colorRed))"

text \<open>\<^verbatim>\<open>Format("15:04:05")\<close> in a zone \<open>off\<close> seconds east of UTC, and \<^verbatim>\<open>%-5s\<close>.\<close>

definition clock_text :: "int \<Rightarrow> time \<Rightarrow> string" where
  "clock_text off t =
     (let r = (Unix t + off) mod 86400 in two (r div 3600) @ '':'' @ two (r div 60 mod 60) @ '':'' @ two (r mod 60))"

definition pad5 :: "string \<Rightarrow> string" where
  "pad5 s = s @ replicate (5 - length s) (CHR '' '')"

text \<open>\<^verbatim>\<open>appendAttr\<close>: the last error and the texts of the other attributes, in order; an empty key is dropped.\<close>

definition appendAttr :: "attr \<Rightarrow> string \<times> string list \<Rightarrow> string \<times> string list" where
  "appendAttr a acc =
     (if fst a = [] then acc
      else case snd a of
             ErrorValue e \<Rightarrow> (e, snd acc)
           | TextValue v \<Rightarrow> (fst acc, snd acc @ [fst a @ ''='' @ v]))"

definition dev_Handle :: "int \<Rightarrow> devHandler \<Rightarrow> slog_Record \<Rightarrow> string" where
  "dev_Handle off h r =
     (let (levelStr, color) = levelDisplay (sr_Level r);
          (errStr, attrs) = fold appendAttr (sr_Attrs r) (fold appendAttr (dh_attrs h) ([], []))
      in colorGray @ ''['' @ clock_text off (sr_Time r) @ '']'' @ colorReset @ '' ''
         @ color @ ''['' @ pad5 levelStr @ '']'' @ colorReset @ '' '' @ sr_Message r
         @ concat (map (\<lambda>a. CHR '' '' # a) attrs)
         @ (if errStr \<noteq> [] then '' '' @ colorRed @ errStr @ colorReset else [])
         @ [CHR 0x0A])"

definition WithAttrs :: "devHandler \<Rightarrow> attr list \<Rightarrow> devHandler" where
  "WithAttrs h attrs = h\<lparr>dh_attrs := dh_attrs h @ attrs\<rparr>"

definition WithGroup :: "devHandler \<Rightarrow> string \<Rightarrow> devHandler" where
  "WithGroup h name = h"

text \<open>\<^verbatim>\<open>New\<close>: which handler, and its level.\<close>

datatype log_handler = JSONHandler int | DevHandler devHandler

definition logger_New :: "string \<Rightarrow> string \<Rightarrow> log_handler" where
  "logger_New env levelStr =
     (let level = parseLevel levelStr in
      if isProd env then JSONHandler level else DevHandler (NewDevHandler (Some level)))"

definition log_enabled :: "log_handler \<Rightarrow> int \<Rightarrow> bool" where
  "log_enabled lh level = (case lh of JSONHandler l \<Rightarrow> level \<ge> l | DevHandler h \<Rightarrow> Enabled h level)"

section \<open>Facts\<close>

text \<open>
  The development handler's \<^verbatim>\<open>WithAttrs\<close> is what the logging interface asks for: a record handled by the
  derived handler is printed exactly as the base handler prints the record with the bound attributes put in
  front of its own; deriving twice is deriving once with both lists; and the level is kept.
\<close>

lemma with_attrs_equivalent:
  "dev_Handle off (WithAttrs h as) r = dev_Handle off h (r\<lparr>sr_Attrs := as @ sr_Attrs r\<rparr>) \<and>
   WithAttrs (WithAttrs h as) bs = WithAttrs h (as @ bs) \<and> Enabled (WithAttrs h as) l = Enabled h l"
  by (simp add: dev_Handle_def WithAttrs_def Enabled_def)

text \<open>Errors of level Error are never filtered out, whatever the configured environment and level.\<close>

lemma errors_always_logged: "log_enabled (logger_New env levelStr) LevelError"
  by (simp add: log_enabled_def logger_New_def NewDevHandler_def Enabled_def parseLevel_def Let_def LevelDebug_def
      LevelInfo_def LevelWarn_def LevelError_def)

end
