(* ===== verification/Startup.thy ===== *)
theory Startup
  imports Db_Open Logger Router Broker Outbox_Repo
begin

text \<open>
  \<^verbatim>\<open>cmd/server/main.go\<close> up to the moment the server listens, with \<^verbatim>\<open>luascripts.Init\<close>: the steps in the
  order of the code over what the machine answers (environment, files, the database, Redis, the message
  broker). \<^verbatim>\<open>log.Fatal\<close> ends the process with an error, a repository factory may panic. What
  the process does from then on is in \<open>Shutdown\<close>.
\<close>

section \<open>Lua scripts\<close>

record lua_scripts =
  CheckLoginScript :: string
  RecordLoginFailureScript :: string
  CheckSignupScript :: string
  RecordSignupFailureScript :: string
  CheckResetRequestScript :: string
  RecordResetRequestFailureScript :: string

definition embed_ReadFile :: "file_system \<Rightarrow> string \<Rightarrow> err + string" where
  "embed_ReadFile fs path =
     (case fs path of None \<Rightarrow> Inl (ErrOther (''open '' @ path @ '': file does not exist'')) | Some s \<Rightarrow> Inr s)"

definition lua_Init :: "(string \<rightharpoonup> string) \<Rightarrow> err + lua_scripts" where
  "lua_Init files =
     bind_sum (embed_ReadFile files ''login_check.lua'') (\<lambda>checkLogin.
     bind_sum (embed_ReadFile files ''login_recordfailure.lua'') (\<lambda>recordLogin.
     bind_sum (embed_ReadFile files ''signup_check.lua'') (\<lambda>checkSignup.
     bind_sum (embed_ReadFile files ''signup_recordfailure.lua'') (\<lambda>recordSignup.
     bind_sum (embed_ReadFile files ''resetpasswordrequest_check.lua'') (\<lambda>checkresetrequest.
     bind_sum (embed_ReadFile files ''resetpasswordrequest_recordfailure.lua'') (\<lambda>recordresetrequest.
     Inr \<lparr>CheckLoginScript = checkLogin, RecordLoginFailureScript = recordLogin, CheckSignupScript = checkSignup,
          RecordSignupFailureScript = recordSignup, CheckResetRequestScript = checkresetrequest,
          RecordResetRequestFailureScript = recordresetrequest\<rparr>))))))"

section \<open>main\<close>

record machine =
  mc_env :: env
  mc_fs :: "string \<rightharpoonup> string"
  mc_embedded :: "string \<rightharpoonup> string"
  mc_keylib :: keylib
  mc_db :: db_driver
  mc_redis_ping :: "err option"
  mc_dial :: "err option"
  mc_channel :: "err option"
  mc_exchange :: "err option"
  mc_confirm :: "err option"

record App =
  ap_UserRepo :: driver
  ap_RefreshRepo :: driver
  ap_EmailRepo :: driver
  ap_TenantRepo :: driver
  ap_Mailer :: SMTPMailer
  ap_PrivateKey :: privkey
  ap_PublicKey :: pubkey
  ap_TokenSecret :: string
  ap_Logger :: log_handler
  ap_Scripts :: lua_scripts
  ap_Config :: Config
  ap_Worker :: bool

datatype started = Fatal err | Panicked string | Serving App

definition orFatal :: "err + 'a \<Rightarrow> ('a \<Rightarrow> started) \<Rightarrow> started" where
  "orFatal s k = (case s of Inl e \<Rightarrow> Fatal e | Inr a \<Rightarrow> k a)"

definition orPanic :: "(err, 'a) res \<Rightarrow> ('a \<Rightarrow> started) \<Rightarrow> started" where
  "orPanic r k = (case r of Ok a \<Rightarrow> k a | Err e \<Rightarrow> Fatal e | Panic p \<Rightarrow> Panicked p)"

definition err_sum :: "err option \<Rightarrow> err + unit" where
  "err_sum e = (case e of None \<Rightarrow> Inr () | Some x \<Rightarrow> Inl x)"

definition connect_broker :: "machine \<Rightarrow> err + unit" where
  "connect_broker M =
     (case fst (NewRabbitMQ (mc_dial M) (mc_channel M) (mc_exchange M) (mc_confirm M)) of
        Ok _ \<Rightarrow> Inr () | Err e \<Rightarrow> Inl e | Panic p \<Rightarrow> Inl (ErrOther p))"

definition main_start :: "machine \<Rightarrow> started" where
  "main_start M =
     orFatal (Load (mc_env M)) (\<lambda>cfg.
     let logger = logger_New (cf_Environment cfg) (cf_LogLevel cfg) in
     orFatal (LoadKeys (mc_keylib M) (mc_env M) (mc_fs M)) (\<lambda>(priv, pub).
     orFatal (LoadTokenSecret (mc_env M)) (\<lambda>tokenSecret.
     orFatal (db_Open (mc_fs M) (mc_db M) (cf_Database cfg)) (\<lambda>_.
     orFatal (LoadRedisConfig (mc_env M)) (\<lambda>redisoptions.
     let cfg' = cfg\<lparr>cf_Redis := RedisOptionstoConfig redisoptions\<rparr>; driver = dc_Driver (cf_Database cfg') in
     orFatal (err_sum (mc_redis_ping M)) (\<lambda>_.
     orFatal (lua_Init (mc_embedded M)) (\<lambda>scripts.
     orPanic (NewUserRepo driver) (\<lambda>userRepo.
     orPanic (NewRefreshRepo driver) (\<lambda>refreshRepo.
     orPanic (NewEmailVerificationRepo driver) (\<lambda>emailRepo.
     orPanic (NewOutboxRepo driver) (\<lambda>_.
     orPanic (NewTenantRepo driver) (\<lambda>tenantRepo.
     let app = (\<lambda>worker. \<lparr>ap_UserRepo = userRepo, ap_RefreshRepo = refreshRepo, ap_EmailRepo = emailRepo,
       ap_TenantRepo = tenantRepo, ap_Mailer = cf_SMTP cfg', ap_PrivateKey = priv, ap_PublicKey = pub,
       ap_TokenSecret = tokenSecret, ap_Logger = logger, ap_Scripts = scripts, ap_Config = cfg', ap_Worker = worker\<rparr>) in
     if driver = ''postgres'' then orFatal (connect_broker M) (\<lambda>_. Serving (app True))
     else Serving (app False)))))))))))))"

section \<open>What a running server has\<close>

lemma orFatal_Serving: "orFatal s k = Serving a \<longleftrightarrow> (\<exists>x. s = Inr x \<and> k x = Serving a)"
  by (cases s) (auto simp: orFatal_def)

lemma orPanic_Serving: "orPanic r k = Serving a \<longleftrightarrow> (\<exists>x. r = Ok x \<and> k x = Serving a)"
  by (cases r) (auto simp: orPanic_def)

lemma getEnv_Inr [simp]: "getEnv env k = Inr v \<longleftrightarrow> v = env k \<and> v \<noteq> []"
  by (auto simp: getEnv_def)

lemma case_sum_Inr: "(case s of Inl _ \<Rightarrow> Inl e | Inr a \<Rightarrow> k a) = Inr b \<longleftrightarrow> (\<exists>a. s = Inr a \<and> k a = Inr b)"
  by (cases s) auto

lemma Load_database: "Load env = Inr cfg \<Longrightarrow> LoadDBconfigs env = Inr (cf_Database cfg)"
  by (auto simp: Load_def case_sum_Inr)

lemma postgres_config:
  assumes "LoadDBconfigs env = Inr c" "dc_Driver c = ''postgres''"
  shows "env ''DB_DRIVER'' = ''postgres'' \<and> PostgresConfLoader env = Inr (dc_PostgresConf c)"
  using assms by (auto simp: LoadDBconfigs_def Let_def getEnv_def split: sum.splits if_splits)

lemma postgres_loaded:
  assumes "PostgresConfLoader env = Inr c"
  shows "env ''PSQL_HOST'' \<noteq> [] \<and> env ''PSQL_USER'' \<noteq> [] \<and> env ''PSQL_PASSWORD'' \<noteq> [] \<and> env ''PSQL_DATABASE'' \<noteq> [] \<and>
    Atoi (env ''PSQL_PORT'') = Some (pg_Port c)"
  using assms by (auto simp: PostgresConfLoader_def Let_def split: if_splits)

lemma main_start_steps:
  assumes "main_start M = Serving app"
  obtains cfg kp sec u ro v sc ur rr er ob tr where "Load (mc_env M) = Inr cfg" "LoadKeys (mc_keylib M) (mc_env M) (mc_fs M) = Inr kp"
    "LoadTokenSecret (mc_env M) = Inr sec" "db_Open (mc_fs M) (mc_db M) (cf_Database cfg) = Inr u"
    "LoadRedisConfig (mc_env M) = Inr ro"
    "err_sum (mc_redis_ping M) = Inr v" "lua_Init (mc_embedded M) = Inr sc"
    "NewUserRepo (dc_Driver (cf_Database cfg)) = Ok ur" "NewRefreshRepo (dc_Driver (cf_Database cfg)) = Ok rr"
    "NewEmailVerificationRepo (dc_Driver (cf_Database cfg)) = Ok er" "NewOutboxRepo (dc_Driver (cf_Database cfg)) = Ok ob"
    "NewTenantRepo (dc_Driver (cf_Database cfg)) = Ok tr"
    "app = \<lparr>ap_UserRepo = ur, ap_RefreshRepo = rr, ap_EmailRepo = er, ap_TenantRepo = tr, ap_Mailer = cf_SMTP cfg,
       ap_PrivateKey = fst kp, ap_PublicKey = snd kp, ap_TokenSecret = sec, ap_Logger = logger_New (cf_Environment cfg) (cf_LogLevel cfg),
       ap_Scripts = sc, ap_Config = cfg\<lparr>cf_Redis := RedisOptionstoConfig ro\<rparr>, ap_Worker = (dc_Driver (cf_Database cfg) = ''postgres'')\<rparr>"
proof -
  have dr: "dc_Driver (cf_Database (cfg\<lparr>cf_Redis := r\<rparr>)) = dc_Driver (cf_Database cfg)" "cf_SMTP (cfg\<lparr>cf_Redis := r\<rparr>) = cf_SMTP cfg" for cfg r
    by simp_all
  have ends: "(if d = ''postgres'' then orFatal b (\<lambda>_. Serving (A True)) else Serving (A False)) = Serving app \<Longrightarrow> app = A (d = ''postgres'')"
    for d A and b :: "err + 'b"
    by (simp add: orFatal_Serving split: if_splits)
  from assms that show thesis
    unfolding main_start_def Let_def orFatal_Serving orPanic_Serving split_beta dr
    apply (elim exE conjE)
    apply (drule ends)
    apply blast
    done
qed

text \<open>
  C37: The server starts on PostgreSQL only: if start-up reaches the point of serving requests, then
  \<^verbatim>\<open>DB_DRIVER\<close> is postgres, every PostgreSQL variable is set and its port is a number, all four
  repositories are the PostgreSQL ones, the database answered within five attempts and was migrated, Redis
  answered, the token secret is not empty, the six scripts were found and the outbox worker runs. In
  particular the documented default (SQLite), an explicit \<^verbatim>\<open>DB_DRIVER=sqlite\<close> and the fallback to SQLite
  on an incomplete configuration all end before serving: the outbox factory panics.
\<close>

theorem serving_needs_postgres:
  assumes "main_start M = Serving app"
  shows "mc_env M ''DB_DRIVER'' = ''postgres'' \<and> PostgresConfLoader (mc_env M) = Inr (dc_PostgresConf (cf_Database (ap_Config app))) \<and>
    mc_env M ''PSQL_HOST'' \<noteq> [] \<and> Atoi (mc_env M ''PSQL_PORT'') \<noteq> None \<and>
    {ap_UserRepo app, ap_RefreshRepo app, ap_EmailRepo app, ap_TenantRepo app} = {Postgres} \<and>
    list_ex (\<lambda>i. pg_connect (mc_db M) (postgres_dsn (dc_PostgresConf (cf_Database (ap_Config app)))) i = None) [1..<6] \<and>
    (\<exists>sql. mc_fs M postgres_migration = Some sql \<and> db_Exec (mc_db M) sql = None) \<and> mc_redis_ping M = None \<and>
    ap_TokenSecret app = mc_env M ''TOKEN_SECRET'' \<and> ap_TokenSecret app \<noteq> [] \<and>
    lua_Init (mc_embedded M) = Inr (ap_Scripts app) \<and> ap_Worker app"
proof -
  obtain cfg kp sec u ro v sc ur rr er ob tr where l: "Load (mc_env M) = Inr cfg" and
    sec: "LoadTokenSecret (mc_env M) = Inr sec" and o: "db_Open (mc_fs M) (mc_db M) (cf_Database cfg) = Inr u" and
    ping: "err_sum (mc_redis_ping M) = Inr v" and sc: "lua_Init (mc_embedded M) = Inr sc" and
    repos: "NewUserRepo (dc_Driver (cf_Database cfg)) = Ok ur" "NewRefreshRepo (dc_Driver (cf_Database cfg)) = Ok rr"
      "NewEmailVerificationRepo (dc_Driver (cf_Database cfg)) = Ok er" "NewOutboxRepo (dc_Driver (cf_Database cfg)) = Ok ob"
      "NewTenantRepo (dc_Driver (cf_Database cfg)) = Ok tr" and
    app: "app = \<lparr>ap_UserRepo = ur, ap_RefreshRepo = rr, ap_EmailRepo = er, ap_TenantRepo = tr, ap_Mailer = cf_SMTP cfg,
       ap_PrivateKey = fst kp, ap_PublicKey = snd kp, ap_TokenSecret = sec, ap_Logger = logger_New (cf_Environment cfg) (cf_LogLevel cfg),
       ap_Scripts = sc, ap_Config = cfg\<lparr>cf_Redis := RedisOptionstoConfig ro\<rparr>, ap_Worker = (dc_Driver (cf_Database cfg) = ''postgres'')\<rparr>"
    by (rule main_start_steps[OF assms])
  from repos have d: "dc_Driver (cf_Database cfg) = ''postgres''"
    by (simp add: NewOutboxRepo_def split: if_splits)
  from repos d have r: "ur = Postgres" "rr = Postgres" "er = Postgres" "tr = Postgres"
    by (simp_all add: NewUserRepo_def NewRefreshRepo_def NewEmailVerificationRepo_def NewTenantRepo_def select_driver_def)
  from sec have t: "sec = mc_env M ''TOKEN_SECRET''" "sec \<noteq> []"
    by (auto simp: LoadTokenSecret_def split: if_splits)
  from ping have p: "mc_redis_ping M = None" by (simp add: err_sum_def split: option.splits)
  from postgres_config[OF Load_database[OF l] d] have c: "mc_env M ''DB_DRIVER'' = ''postgres''"
    "PostgresConfLoader (mc_env M) = Inr (dc_PostgresConf (cf_Database cfg))" by auto
  from o d have op: "fst (OpenPostgres (mc_fs M) (mc_db M) (dc_PostgresConf (cf_Database cfg))) = Inr ()"
    by (simp add: db_Open_def)
  with app r t p sc d c op[unfolded OpenPostgres_success] postgres_loaded[OF c(2)] show ?thesis by simp
qed

definition sample_env :: env where
  "sample_env k =
     (if k = ''DB_DRIVER'' then ''postgres'' else if k \<in> {''SMTP_PORT'', ''PSQL_PORT'', ''REDIS_PROTOCOL'', ''REDIS_DB''} then ''2'' else ''x'')"

definition sample_machine :: machine where
  "sample_machine = \<lparr>mc_env = sample_env, mc_fs = (\<lambda>_. Some ''pem''), mc_embedded = (\<lambda>_. Some ''lua''),
     mc_keylib = \<lparr>pem_Decode = Some, ParsePKCS8PrivateKey = (\<lambda>_. Inr (RSAPrivate 1)), ParsePKIXPublicKey = (\<lambda>_. Inr (RSAPublic 1))\<rparr>,
     mc_db = \<lparr>pg_connect = (\<lambda>dsn i. if i = 2 then None else Some ''refused''), sqlite_open = (\<lambda>_. None), sqlite_ping = (\<lambda>_. None),
       db_Exec = (\<lambda>_. None), users_table = Inr ''users'', information_schema_users = Inr True\<rparr>,
     mc_redis_ping = None, mc_dial = None, mc_channel = None, mc_exchange = None, mc_confirm = None\<rparr>"

lemma sample_serves: "\<exists>app. main_start sample_machine = Serving app"
proof -
  have "Atoi ''2'' = Some 2" by (simp add: Atoi_def digit_val_def int64_range_def Let_def)
  then show ?thesis
    by (simp add: main_start_def sample_machine_def sample_env_def orFatal_def orPanic_def Load_def bind_sum_def getEnv_def atoi_def
        LoadMailerConfig_def LoadDBconfigs_def PostgresConfLoader_def LoadKeys_def LoadPrivateKey_def LoadPublicKey_def ReadFile_def
        LoadTokenSecret_def db_Open_def OpenPostgres_def connect_loop.simps maxTries_def RunPostgresMigrations_def executeMigration_def LoadRedisConfig_def err_sum_def lua_Init_def embed_ReadFile_def
        NewUserRepo_def NewRefreshRepo_def NewEmailVerificationRepo_def NewOutboxRepo_def NewTenantRepo_def select_driver_def
        connect_broker_def NewRabbitMQ_def Let_def)
qed

lemma serving_needs_postgres_witness:
  "\<exists>app. main_start sample_machine = Serving app \<and> ap_UserRepo app = Postgres \<and> ap_Worker app"
proof -
  obtain app where "main_start sample_machine = Serving app" using sample_serves by blast
  with serving_needs_postgres[OF this] show ?thesis by auto
qed

section \<open>Cross-origin requests\<close>

text \<open>
  The wildcard is never combined with credentials by default: with no usable origin configured every origin
  is allowed, without credentials; otherwise exactly the configured origins are allowed (trimmed, none empty),
  with credentials. The header that names the tenant is never among the allowed ones.
\<close>

lemma cors_policy:
  "(case filter (\<lambda>x. x \<noteq> []) (map TrimSpace (cf_CORS_ALLOWED_ORIGINS cfg)) of
      [] \<Rightarrow> co_AllowedOrigins (LoadCors cfg) = [''*''] \<and> \<not> co_AllowCredentials (LoadCors cfg)
    | origins \<Rightarrow> co_AllowedOrigins (LoadCors cfg) = origins \<and> co_AllowCredentials (LoadCors cfg)) \<and>
   TenantHeader \<notin> set (co_AllowedHeaders (LoadCors cfg))"
  by (simp add: LoadCors_def Let_def TenantHeader_def split: list.split)

text \<open>A configured wildcard is taken as an origin and keeps credentials.\<close>

lemma configured_wildcard_keeps_credentials:
  "cf_CORS_ALLOWED_ORIGINS cfg = [''*''] \<Longrightarrow> co_AllowedOrigins (LoadCors cfg) = [''*''] \<and> co_AllowCredentials (LoadCors cfg)"
  by (simp add: LoadCors_def Let_def TrimSpace_def TrimBoth_def is_space_def)

text \<open>The Redis database and protocol are stored in eight bits: numbers outside wrap around.\<close>

lemma redis_numbers_wrap:
  "uint (rc_DB (RedisOptionstoConfig ro)) = ro_DB ro mod 256 \<and> uint (rc_Protocol (RedisOptionstoConfig ro)) = ro_Protocol ro mod 256"
  by (simp add: RedisOptionstoConfig_def uint_word_of_int)

end
