(* ===== verification/Shutdown.thy ===== *)
theory Shutdown
  imports Startup Reachable
begin

text \<open>
  \<^verbatim>\<open>cmd/server/main.go\<close> from the moment the server is up: the goroutine that runs
  \<^verbatim>\<open>ListenAndServe\<close>, the goroutine of the outbox worker and the main goroutine, which waits for a signal,
  shuts the server down and runs its deferred calls. The three interleave; a step of the worker is one claim
  or one event of a batch, so the signal, the end of the server and the closing of the broker may fall between
  any two events. Of the requests the machine has the events they add to the outbox.
\<close>

section \<open>The server\<close>

record http_Server =
  hs_Addr :: string
  hs_ReadHeaderTimeout :: duration
  hs_ReadTimeout :: duration
  hs_WriteTimeout :: duration
  hs_IdleTimeout :: duration

definition srv :: http_Server where
  "srv = \<lparr>hs_Addr = '':8081'', hs_ReadHeaderTimeout = 5 * Second, hs_ReadTimeout = 15 * Second,
     hs_WriteTimeout = 15 * Second, hs_IdleTimeout = 60 * Second\<rparr>"

definition ErrServerClosed :: err where
  "ErrServerClosed = ErrOther ''http: Server closed''"

section \<open>The process\<close>

text \<open>
  The stack of deferred calls of \<^verbatim>\<open>main\<close>: \<^verbatim>\<open>stop\<close> of the signal context, the closing of the broker,
  \<^verbatim>\<open>cancel\<close> of the shutdown context. The worker claims, works through a batch, or waits in its
  \<^verbatim>\<open>select\<close>.
\<close>

datatype deferred = StopSignals | CloseBroker | CancelShutdown

datatype main_pc = Awaiting | Draining | Returning | Exited

text \<open>
  The goroutine of the server: inside \<^verbatim>\<open>ListenAndServe\<close>; back from it with an error that is not
  \<^verbatim>\<open>ErrServerClosed\<close>, before the error is logged and before \<^verbatim>\<open>panic(err)\<close>; or done.
\<close>

datatype server_pc = NotListening | Listening | ServerFailed err | Panicking err | ServerReturned

datatype worker_pc = NoWorker | Claiming | Batch "OutboxEvent list" | Selecting | WorkerStopped

record process =
  pr_world :: world
  pr_main :: main_pc
  pr_server :: server_pc
  pr_worker :: worker_pc
  pr_cancelled :: bool
  pr_shutdown :: bool
  pr_defers :: "deferred list"
  pr_crashed :: "err option"

definition base_defers :: "deferred list" where
  "base_defers = [CloseBroker, StopSignals]"

definition serving :: "App \<Rightarrow> world \<Rightarrow> process" where
  "serving app w =
     \<lparr>pr_world = w, pr_main = Awaiting, pr_server = NotListening,
      pr_worker = (if ap_Worker app then Claiming else NoWorker), pr_cancelled = False, pr_shutdown = False,
      pr_defers = (if ap_Worker app then base_defers else [StopSignals]), pr_crashed = None\<rparr>"

text \<open>The process ends when \<^verbatim>\<open>main\<close> has returned or when a goroutine panics, wherever the others are.\<close>

definition alive :: "process \<Rightarrow> bool" where
  "alive p \<longleftrightarrow> pr_main p \<noteq> Exited \<and> pr_crashed p = None"

definition log_error :: "string \<Rightarrow> err option \<Rightarrow> world \<Rightarrow> world" where
  "log_error msg e w = (case e of None \<Rightarrow> w | Some x \<Rightarrow> log_at LevelError msg [(''error'', err_Error x)] w)"

text \<open>One deferred call; the arguments are the outcomes of closing the AMQP channel and connection.\<close>

definition run_deferred :: "deferred \<Rightarrow> err option \<Rightarrow> err option \<Rightarrow> world \<Rightarrow> world" where
  "run_deferred d chErr connErr w =
     (if d = CloseBroker
      then (case broker_Close chErr connErr w of
              (Err e, w') \<Rightarrow> log_error ''broker: error during close'' (Some e) w'
            | (_, w') \<Rightarrow> w')
      else w)"

text \<open>What \<^verbatim>\<open>main\<close> logs when \<^verbatim>\<open>Shutdown\<close> returns.\<close>

definition drained :: "err option \<Rightarrow> world \<Rightarrow> world" where
  "drained e w =
     (case e of None \<Rightarrow> w | Some x \<Rightarrow> log_at LevelError (''error during server shutdown: '' @ err_Error x) [] w)"

definition worker_id :: string where "worker_id = ''outbox-worker-1''"

definition worker_config :: WorkerConfig where
  "worker_config = NewWorker \<lparr>wc_PollInterval = 0, wc_BatchSize = 0\<rparr>"

text \<open>
  The steps. \<^verbatim>\<open>ListenAndServe\<close> returns \<^verbatim>\<open>ErrServerClosed\<close> after \<^verbatim>\<open>Shutdown\<close> was called, or another error at
  any time; then its goroutine logs the error and panics, and between any two of these steps the others may move:
  the signal may arrive, \<^verbatim>\<open>main\<close> may shut the server down and run deferred calls. The panic ends the process; the
  deferred calls of \<^verbatim>\<open>main\<close> that have not run by then never run.
\<close>

inductive pstep :: "lib \<Rightarrow> process \<Rightarrow> process \<Rightarrow> bool" for L :: lib where
  p_signal: "alive p \<Longrightarrow> pstep L p (p\<lparr>pr_cancelled := True\<rparr>)"
| p_wake: "alive p \<Longrightarrow> pr_main p = Awaiting \<Longrightarrow> pr_cancelled p \<Longrightarrow>
    pstep L p (p\<lparr>pr_main := Draining, pr_shutdown := True, pr_defers := CancelShutdown # pr_defers p,
      pr_world := log_at LevelError ''shutting down...'' [] (pr_world p)\<rparr>)"
| p_drained: "alive p \<Longrightarrow> pr_main p = Draining \<Longrightarrow>
    pstep L p (p\<lparr>pr_main := Returning, pr_world := drained e (pr_world p)\<rparr>)"
| p_defer: "alive p \<Longrightarrow> pr_main p = Returning \<Longrightarrow> pr_defers p = d # ds \<Longrightarrow>
    pstep L p (p\<lparr>pr_defers := ds, pr_world := run_deferred d chErr connErr (pr_world p)\<rparr>)"
| p_exit: "alive p \<Longrightarrow> pr_main p = Returning \<Longrightarrow> pr_defers p = [] \<Longrightarrow> pstep L p (p\<lparr>pr_main := Exited\<rparr>)"
| p_listen: "alive p \<Longrightarrow> pr_server p = NotListening \<Longrightarrow>
    pstep L p (p\<lparr>pr_server := Listening, pr_world := log_at LevelDebug ''Auth service running on :8081'' [] (pr_world p)\<rparr>)"
| p_server_closed: "alive p \<Longrightarrow> pr_server p = Listening \<Longrightarrow> pr_shutdown p \<Longrightarrow>
    pstep L p (p\<lparr>pr_server := ServerReturned\<rparr>)"
| p_server_failed: "alive p \<Longrightarrow> pr_server p = Listening \<Longrightarrow> e \<noteq> ErrServerClosed \<Longrightarrow>
    pstep L p (p\<lparr>pr_server := ServerFailed e\<rparr>)"
| p_server_logs: "alive p \<Longrightarrow> pr_server p = ServerFailed e \<Longrightarrow>
    pstep L p (p\<lparr>pr_server := Panicking e, pr_world := log_at LevelError (err_Error e) [] (pr_world p)\<rparr>)"
| p_panic: "alive p \<Longrightarrow> pr_server p = Panicking e \<Longrightarrow>
    pstep L p (p\<lparr>pr_server := ServerReturned, pr_crashed := Some e\<rparr>)"
| p_request: "alive p \<Longrightarrow> pr_server p \<noteq> NotListening \<Longrightarrow> oe_Status e = StatusPending \<Longrightarrow>
    outbox_Create e (pr_world p) = (r, w') \<Longrightarrow> pstep L p (p\<lparr>pr_world := w'\<rparr>)"
| p_claim: "alive p \<Longrightarrow> pr_worker p = Claiming \<Longrightarrow>
    outbox_ClaimBatch skip (wc_BatchSize worker_config) worker_id claimLockDuration (pr_world p) = (Ok es, w') \<Longrightarrow>
    pstep L p (p\<lparr>pr_worker := Batch es, pr_world := w'\<rparr>)"
| p_claim_failed: "alive p \<Longrightarrow> pr_worker p = Claiming \<Longrightarrow>
    outbox_ClaimBatch skip (wc_BatchSize worker_config) worker_id claimLockDuration (pr_world p) = (Err x, w') \<Longrightarrow>
    pstep L p (p\<lparr>pr_worker := Selecting, pr_world := w'\<rparr>)"
| p_event: "alive p \<Longrightarrow> pr_worker p = Batch (e # es) \<Longrightarrow> processOne L e (pr_world p) = (r, w') \<Longrightarrow>
    pstep L p (p\<lparr>pr_worker := Batch es, pr_world := w'\<rparr>)"
| p_batch_done: "alive p \<Longrightarrow> pr_worker p = Batch [] \<Longrightarrow> pstep L p (p\<lparr>pr_worker := Selecting\<rparr>)"
| p_tick: "alive p \<Longrightarrow> pr_worker p = Selecting \<Longrightarrow> pstep L p (p\<lparr>pr_worker := Claiming\<rparr>)"
| p_worker_stops: "alive p \<Longrightarrow> pr_worker p = Selecting \<Longrightarrow> pr_cancelled p \<Longrightarrow>
    pstep L p (p\<lparr>pr_worker := WorkerStopped, pr_world := log_at LevelInfo ''outbox: worker shutting down'' [] (pr_world p)\<rparr>)"
| p_time: "alive p \<Longrightarrow> w_now (pr_world p) \<le> t \<Longrightarrow>
    pstep L p (p\<lparr>pr_world := (pr_world p)\<lparr>w_now := t, w_faults := fs, w_pub := ps\<rparr>\<rparr>)"

inductive_cases pstepE: "pstep L p p'"

text \<open>The process starts when \<^verbatim>\<open>main\<close> has set everything up, on integral tables.\<close>

definition launched :: "process \<Rightarrow> bool" where
  "launched p \<longleftrightarrow> (\<exists>M app w. main_start M = Serving app \<and> p = serving app w \<and> outbox_inv w \<and> \<not> w_broker_closed w)"

section \<open>The invariant\<close>

definition defers_ok :: "process \<Rightarrow> bool" where
  "defers_ok p =
     (case pr_main p of
        Draining \<Rightarrow> pr_defers p = CancelShutdown # base_defers
      | Returning \<Rightarrow> pr_defers p \<in> {CancelShutdown # base_defers, base_defers, [StopSignals], []}
      | Exited \<Rightarrow> pr_defers p = [] \<and> pr_crashed p = None
      | Awaiting \<Rightarrow> pr_defers p = base_defers)"

definition control_ok :: "process \<Rightarrow> bool" where
  "control_ok p \<longleftrightarrow> defers_ok p \<and> (pr_shutdown p \<longleftrightarrow> pr_main p \<in> {Draining, Returning, Exited}) \<and>
     (pr_shutdown p \<longrightarrow> pr_cancelled p) \<and> (w_broker_closed (pr_world p) \<longleftrightarrow> CloseBroker \<notin> set (pr_defers p))"

definition batch_of :: "process \<Rightarrow> OutboxEvent list" where
  "batch_of p = (case pr_worker p of Batch es \<Rightarrow> es | _ \<Rightarrow> [])"

definition outbox_ok :: "process \<Rightarrow> bool" where
  "outbox_ok p \<longleftrightarrow> outbox_inv (pr_world p) \<and> same_content (batch_of p) (pr_world p) \<and>
     oe_ID ` set (batch_of p) \<subseteq> oe_ID ` set (outbox_events (w_db (pr_world p)))"

definition process_ok :: "process \<Rightarrow> bool" where
  "process_ok p \<longleftrightarrow> control_ok p \<and> outbox_ok p"

lemma log_broker [simp]:
  "w_broker_closed (log_at l m a w) = w_broker_closed w" "w_delivered (log_at l m a w) = w_delivered w"
  "w_broker_closed (drained e w) = w_broker_closed w" "w_delivered (drained e w) = w_delivered w"
  "w_db (drained e w) = w_db w" "w_tx (drained e w) = w_tx w"
  by (simp_all add: log_at_def drained_def split: option.splits)

lemma run_deferred_simps [simp]:
  "w_db (run_deferred d c k w) = w_db w" "w_tx (run_deferred d c k w) = w_tx w"
  "w_delivered (run_deferred d c k w) = w_delivered w"
  "w_broker_closed (run_deferred d c k w) = (w_broker_closed w \<or> d = CloseBroker)"
  by (auto simp: run_deferred_def broker_Close_def log_error_def bindM_def attempt_def split: option.splits)

text \<open>The calls of the worker and of the requests leave the broker's flag alone.\<close>

lemma keeps_flag_basic:
  "keeps (\<lambda>w. w_broker_closed w = b) time_Now" "keeps (\<lambda>w. w_broker_closed w = b) (ExecContext Conn s)"
  "keeps (\<lambda>w. w_broker_closed w = b) (broker_Publish env)"
proof -
  show "keeps (\<lambda>w. w_broker_closed w = b) time_Now" by (auto simp: keeps_def time_Now_eq)
  show "keeps (\<lambda>w. w_broker_closed w = b) (ExecContext Conn s)"
    by (auto simp: keeps_def ExecContext_Conn exec_conn_def split: sum.splits)
  show "keeps (\<lambda>w. w_broker_closed w = b) (broker_Publish env)"
    using broker_Publish_frame[OF prod.collapse[symmetric], of env] by (auto simp: keeps_def)
qed

lemma keeps_flag:
  "keeps (\<lambda>w. w_broker_closed w = b) (outbox_Create e)"
  "keeps (\<lambda>w. w_broker_closed w = b) (outbox_ClaimBatch sk n wk l)"
  "keeps (\<lambda>w. w_broker_closed w = b) (processOne L e)"
  unfolding outbox_defs processOne_def processor_fail_def
  by (intro keeps_intros keeps_flag_basic | simp split: sum.split, intro conjI allI impI)+

lemma flag_kept:
  assumes "m w = (r, w')" "keeps (\<lambda>v. w_broker_closed v = w_broker_closed w) m"
  shows "w_broker_closed w' = w_broker_closed w"
  using keepsD[OF assms(2,1)] by simp

lemma control_ok_world:
  "w_broker_closed w' = w_broker_closed (pr_world p) \<Longrightarrow> control_ok p \<Longrightarrow>
     control_ok (p\<lparr>pr_worker := wk, pr_world := w'\<rparr>)"
  by (simp add: control_ok_def defers_ok_def cong: main_pc.case_cong)

lemma control_ok_step:
  assumes "control_ok p" "pstep L p p'"
  shows "control_ok p'"
  using assms(2)
proof cases
  case (p_request e r w')
  with control_ok_world[OF flag_kept[OF p_request(5) keeps_flag(1)] assms(1), of "pr_worker p"]
  show ?thesis by simp
next
  case (p_claim skip es w')
  with control_ok_world[OF flag_kept[OF p_claim(4) keeps_flag(2)] assms(1), of "Batch es"]
  show ?thesis by simp
next
  case (p_claim_failed skip x w')
  with control_ok_world[OF flag_kept[OF p_claim_failed(4) keeps_flag(2)] assms(1), of Selecting]
  show ?thesis by simp
next
  case (p_event e es r w')
  with control_ok_world[OF flag_kept[OF p_event(4) keeps_flag(3)] assms(1), of "Batch es"]
  show ?thesis by simp
qed (use assms(1) in \<open>auto simp: control_ok_def defers_ok_def base_defers_def alive_def split: main_pc.splits\<close>)

lemma outbox_inv_same:
  assumes "outbox_inv w" "same_content es w" "w_db w' = w_db w" "w_tx w' = w_tx w" "w_delivered w' = w_delivered w"
  shows "outbox_inv w' \<and> same_content es w'"
  using assms by (simp add: outbox_inv_def db_inv_def published_delivered_def same_content_def)

lemma wf_kept:
  assumes "m w = (r, w')" "keeps (db_inv db_wf) m" "outbox_inv w"
  shows "db_inv db_wf w'"
  using keepsD[OF assms(2,1)] assms(3) by (simp add: outbox_inv_def)

text \<open>Rows never leave the outbox.\<close>

lemma keeps_conn:
  assumes "stmt_keeps J s"
  shows "keeps (\<lambda>w. J (w_db w)) (ExecContext Conn s)"
  using assms by (auto simp: keeps_def ExecContext_Conn exec_conn_def stmt_keeps_def split: sum.splits)

lemma keeps_ids_basic:
  "keeps (\<lambda>w. J (w_db w)) time_Now" "keeps (\<lambda>w. J (w_db w)) (broker_Publish env)"
proof -
  show "keeps (\<lambda>w. J (w_db w)) time_Now" by (auto simp: keeps_def time_Now_eq)
  show "keeps (\<lambda>w. J (w_db w)) (broker_Publish env)"
    using broker_Publish_frame[OF prod.collapse[symmetric], of env] by (auto simp: keeps_def)
qed

abbreviation has_ids :: "uuid set \<Rightarrow> db \<Rightarrow> bool" where
  "has_ids I d \<equiv> I \<subseteq> oe_ID ` set (outbox_events d)"

lemma ids_update_where:
  assumes "\<And>e. oe_ID (f e) = oe_ID e"
  shows "oe_ID ` set (update_where P f xs) = oe_ID ` set xs"
  using map_update_where[of P oe_ID f xs] assms by (metis list.set_map)

lemma stmts_keep_ids:
  "stmt_keeps (has_ids I) (insert_outbox e)" "stmt_keeps (has_ids I) (claim_stmt sk n wk l)"
  "stmt_keeps (has_ids I) (mark_failed_stmt i t m)"
  "stmt_keeps (has_ids I) (\<lambda>_ d. Inr (upd_event i
     (\<lambda>e. e\<lparr>oe_Status := StatusPublished, oe_PublishedAt := Some q, oe_LastError := None\<rparr>) d))"
  by (rule stmt_keepsI, auto simp: insert_outbox_def claim_stmt_def mark_failed_stmt_def upd_event_def ids_update_where
      split: if_splits; blast)+

lemma keeps_ids:
  "keeps (\<lambda>w. has_ids I (w_db w)) (outbox_Create e)"
  "keeps (\<lambda>w. has_ids I (w_db w)) (outbox_ClaimBatch sk n wk l)"
  "keeps (\<lambda>w. has_ids I (w_db w)) (processOne L e)"
  unfolding outbox_defs processOne_def processor_fail_def
  by (intro keeps_intros keeps_ids_basic[where J = "has_ids I"] keeps_conn stmts_keep_ids
      | simp split: sum.split, intro conjI allI impI)+

lemma outbox_Create_inv:
  assumes "outbox_inv w" "same_content es w" "oe_Status e = StatusPending" "outbox_Create e w = (r, w')"
    and "has_ids (oe_ID ` set es) (w_db w)"
  shows "outbox_inv w' \<and> same_content es w'"
proof -
  have "db_inv db_wf w'" by (rule wf_kept[where m = "outbox_Create e", OF assms(4) _ assms(1)]) (intro keeps_intros)
  moreover have "(w_db w' = w_db w \<or> oe_ID e \<notin> oe_ID ` set (outbox_events (w_db w)) \<and>
      outbox_events (w_db w') = outbox_events (w_db w) @ [e\<lparr>oe_LockedAt := None, oe_LockedUntil := None, oe_LockedBy := None\<rparr>]) \<and>
    w_delivered w' = w_delivered w"
    using assms(4) by (auto simp: outbox_Create_def ExecContext_Conn exec_conn_def insert_outbox_def split: sum.splits if_splits)
  moreover have "oe_ID e \<notin> oe_ID ` set es" if "oe_ID e \<notin> oe_ID ` set (outbox_events (w_db w))"
    using that assms(5) by blast
  ultimately show ?thesis
    using assms(1-3) by (auto simp: outbox_inv_def published_delivered_def same_content_def event_status_defs)
qed

lemma ClaimBatch_batch:
  assumes "outbox_inv w" "outbox_ClaimBatch sk n wk l w = (Ok es, w')"
  shows "outbox_inv w' \<and> same_content es w' \<and> has_ids (oe_ID ` set es) (w_db w')"
proof (intro conjI)
  have "db_inv db_wf w'" by (rule wf_kept[where m = "outbox_ClaimBatch sk n wk l", OF assms(2) _ assms(1)]) (intro keeps_intros)
  moreover have c: "published_delivered w' \<and> same_content es w'"
    using assms(1) by (intro ClaimBatch_inv[OF _ _ assms(2)]) (simp_all add: outbox_inv_def db_inv_def)
  ultimately show "outbox_inv w'" by (simp add: outbox_inv_def)
  from c show "same_content es w'" ..
  have "has_ids (oe_ID ` set es) (w_db w)"
    using in_claim[OF assms(2)] by force
  with keepsD[OF keeps_ids(2)[of "oe_ID ` set es" sk n wk l] assms(2)] show "has_ids (oe_ID ` set es) (w_db w')" by blast
qed

lemma ClaimBatch_failed:
  assumes "outbox_inv w" "outbox_ClaimBatch sk n wk l w = (Err x, w')"
  shows "outbox_inv w'"
proof -
  have "w_db w' = w_db w" "w_delivered w' = w_delivered w" "w_tx w' = w_tx w"
    using assms(2) by (auto simp: outbox_ClaimBatch_def bindM_Err_iff ExecContext_Conn exec_conn_def split: if_splits sum.splits)
  with assms(1) outbox_inv_same[of w "[]" w'] show ?thesis by (simp add: same_content_def)
qed

lemma processOne_batch:
  assumes "outbox_inv w" "same_content (e # es) w" "has_ids (oe_ID ` set (e # es)) (w_db w)" "processOne L e w = (r, w')"
  shows "outbox_inv w' \<and> same_content es w' \<and> has_ids (oe_ID ` set es) (w_db w')"
proof -
  have "db_inv db_wf w'" by (rule wf_kept[where m = "processOne L e", OF assms(4) _ assms(1)]) (intro keeps_intros)
  moreover have "published_delivered w' \<and> same_content (e # es) w'"
    using assms by (intro processOne_inv[OF _ assms(2,4)]) (simp_all add: outbox_inv_def)
  moreover have "has_ids (oe_ID ` set (e # es)) (w_db w')" by (rule keepsD[OF keeps_ids(3) assms(4,3)])
  ultimately show ?thesis by (simp add: outbox_inv_def same_content_def)
qed

lemma outbox_ok_step:
  assumes "outbox_ok p" "pstep L p p'"
  shows "outbox_ok p'"
proof -
  note o = assms(1)[unfolded outbox_ok_def]
  have same: "outbox_ok p'" if "w_db (pr_world p') = w_db (pr_world p)" "w_tx (pr_world p') = w_tx (pr_world p)"
    "w_delivered (pr_world p') = w_delivered (pr_world p)" "batch_of p' = batch_of p \<or> batch_of p' = []"
    using that o outbox_inv_same[of "pr_world p" "batch_of p" "pr_world p'"] by (auto simp: outbox_ok_def same_content_def)
  from assms(2) show ?thesis
  proof cases
    case (p_request e r w')
    have b: "batch_of p' = batch_of p" by (simp add: p_request(1) batch_of_def)
    from outbox_Create_inv[OF _ _ p_request(4,5), of "batch_of p"] keepsD[OF keeps_ids(1) p_request(5)] o
    show ?thesis unfolding outbox_ok_def b by (simp add: p_request(1))
  next
    case (p_claim skip es w')
    with ClaimBatch_batch[OF _ p_claim(4)] o show ?thesis by (simp add: outbox_ok_def batch_of_def)
  next
    case (p_claim_failed skip x w')
    with ClaimBatch_failed[OF _ p_claim_failed(4)] o show ?thesis by (simp add: outbox_ok_def batch_of_def same_content_def)
  next
    case (p_event e es r w')
    with processOne_batch[OF _ _ _ p_event(4), of es] o show ?thesis by (simp add: outbox_ok_def batch_of_def)
  qed (rule same; simp add: batch_of_def)+
qed

lemma launched_worker:
  assumes "main_start M = Serving app"
  shows "ap_Worker app"
proof -
  obtain d ob where "NewOutboxRepo d = Ok ob" "ap_Worker app = (d = ''postgres'')"
  proof (rule main_start_steps[OF assms], goal_cases)
    case (1 cfg kp sec u ro v sc ur rr er ob tr)
    then show ?case by (intro that[of "dc_Driver (cf_Database cfg)" ob]) simp_all
  qed
  then show ?thesis by (simp add: NewOutboxRepo_def split: if_splits)
qed

lemma launched_ok: "launched p \<Longrightarrow> process_ok p"
  by (auto simp: launched_def process_ok_def control_ok_def defers_ok_def outbox_ok_def serving_def batch_of_def base_defers_def
      same_content_def dest!: launched_worker)

interpretation lifecycle: inductive_invariant launched "pstep L" process_ok for L
  by unfold_locales (auto simp: process_ok_def intro: control_ok_step outbox_ok_step dest: launched_ok[unfolded process_ok_def])

section \<open>Ending\<close>

text \<open>Once the signal is there, \<^verbatim>\<open>main\<close> needs nobody to end the process; the tables stay as they are.\<close>

lemma deferred_run:
  assumes "pr_main p = Returning" "pr_crashed p = None"
  shows "\<exists>p'. (pstep L)\<^sup>*\<^sup>* p p' \<and> pr_main p' = Exited \<and> pr_server p' = pr_server p \<and> pr_worker p' = pr_worker p \<and>
    w_db (pr_world p') = w_db (pr_world p) \<and> w_delivered (pr_world p') = w_delivered (pr_world p)"
  using assms
proof (induction "pr_defers p" arbitrary: p)
  case Nil
  then show ?case by (intro exI[of _ "p\<lparr>pr_main := Exited\<rparr>"]) (simp add: r_into_rtranclp p_exit alive_def)
next
  case (Cons d ds)
  let ?q = "p\<lparr>pr_defers := ds, pr_world := run_deferred d None None (pr_world p)\<rparr>"
  have "pstep L p ?q" by (rule p_defer) (use Cons.prems Cons.hyps(2) in \<open>simp_all add: alive_def\<close>)
  moreover from Cons.hyps(1)[of ?q] Cons.prems obtain p' where "(pstep L)\<^sup>*\<^sup>* ?q p'" "pr_main p' = Exited"
    "pr_server p' = pr_server p" "pr_worker p' = pr_worker p" "w_db (pr_world p') = w_db (pr_world p)"
    "w_delivered (pr_world p') = w_delivered (pr_world p)"
    by auto
  ultimately show ?case by (blast intro: converse_rtranclp_into_rtranclp)
qed

lemma drain_run:
  assumes "pr_main p = Draining" "pr_crashed p = None"
  shows "\<exists>p'. (pstep L)\<^sup>*\<^sup>* p p' \<and> pr_main p' = Exited \<and> pr_server p' = pr_server p \<and> pr_worker p' = pr_worker p \<and>
    w_db (pr_world p') = w_db (pr_world p) \<and> w_delivered (pr_world p') = w_delivered (pr_world p)"
  using deferred_run[of "p\<lparr>pr_main := Returning, pr_world := drained None (pr_world p)\<rparr>" L] p_drained[OF _ assms(1), of L None] assms
  by (auto simp: alive_def intro: converse_rtranclp_into_rtranclp)

lemma exit_run:
  assumes "alive p" "pr_cancelled p"
  shows "\<exists>p'. (pstep L)\<^sup>*\<^sup>* p p' \<and> pr_main p' = Exited \<and> pr_server p' = pr_server p \<and> pr_worker p' = pr_worker p \<and>
    w_db (pr_world p') = w_db (pr_world p) \<and> w_delivered (pr_world p') = w_delivered (pr_world p)"
proof (cases "pr_main p")
  case Awaiting
  let ?q = "p\<lparr>pr_main := Draining, pr_shutdown := True, pr_defers := CancelShutdown # pr_defers p,
      pr_world := log_at LevelError ''shutting down...'' [] (pr_world p)\<rparr>"
  from drain_run[of ?q L] p_wake[OF assms(1) Awaiting assms(2), of L] assms(1) show ?thesis
    by (auto simp: alive_def intro: converse_rtranclp_into_rtranclp)
qed (use assms(1) drain_run deferred_run in \<open>auto simp: alive_def\<close>)

lemma reach_rtranclp: "step\<^sup>*\<^sup>* s s' \<Longrightarrow> reach init step s \<Longrightarrow> reach init step s'"
  by (induction rule: rtranclp_induct) (auto intro: reach_step)

section \<open>Properties\<close>

text \<open>
  C38: Orderly end: in every interleaving of the main goroutine, the server and the outbox worker, the broker
  is closed only after a signal arrived and \<^verbatim>\<open>Shutdown\<close> was called and returned; when \<^verbatim>\<open>main\<close> has
  returned, all deferred calls have run and the broker is closed, and the process did not crash. When the panic of
  the server's goroutine ends the process and no signal has arrived, no deferred call has run and the broker was not
  closed. At every moment, after either end too, each event marked published was accepted by the broker and the
  tables keep their integrity. After a signal, as long as the process has not ended, it can end by steps of
  the main goroutine alone, whatever the server and the worker are doing.
\<close>

theorem shutdown_order:
  assumes "reach launched (pstep L) p"
  shows "published_delivered (pr_world p) \<and> db_wf (w_db (pr_world p)) \<and>
    (w_broker_closed (pr_world p) \<longrightarrow> pr_cancelled p \<and> pr_shutdown p \<and> pr_main p \<in> {Returning, Exited}) \<and>
    (pr_main p = Exited \<longrightarrow> w_broker_closed (pr_world p) \<and> pr_shutdown p \<and> pr_defers p = [] \<and> pr_crashed p = None) \<and>
    (pr_crashed p \<noteq> None \<and> \<not> pr_cancelled p \<longrightarrow> \<not> w_broker_closed (pr_world p) \<and> \<not> pr_shutdown p \<and> pr_defers p = base_defers) \<and>
    (alive p \<and> pr_cancelled p \<longrightarrow> (\<exists>p'. (pstep L)\<^sup>*\<^sup>* p p' \<and> pr_main p' = Exited \<and> pr_server p' = pr_server p \<and>
       pr_worker p' = pr_worker p \<and> w_db (pr_world p') = w_db (pr_world p)))"
proof -
  from lifecycle.reach_inv[OF assms] have c: "control_ok p" and o: "outbox_inv (pr_world p)"
    by (auto simp: process_ok_def outbox_ok_def)
  from o have "published_delivered (pr_world p) \<and> db_wf (w_db (pr_world p))"
    by (simp add: outbox_inv_def db_inv_def)
  with c exit_run[of p L] show ?thesis
    by (cases "pr_main p") (auto simp: control_ok_def defers_ok_def base_defers_def)
qed

section \<open>Witnesses\<close>

lemma sample_launched: "\<exists>p. launched p \<and> pr_world p = outbox_world sample_event \<and> pr_worker p = Claiming \<and> pr_main p = Awaiting \<and>
    pr_crashed p = None \<and> pr_server p = NotListening"
proof -
  obtain app where app: "main_start sample_machine = Serving app" using sample_serves by blast
  have "outbox_inv (outbox_world sample_event)"
    by (simp add: outbox_inv_def db_inv_def published_delivered_def sample_outbox_wf event_status_defs)
  with app launched_worker[OF app] show ?thesis
    by (intro exI[of _ "serving app (outbox_world sample_event)"]) (auto simp: launched_def serving_def)
qed

text \<open>
  The worker is not awaited: the process can end while a claimed batch is half done. The event it had claimed
  stays in processing and unpublished, and can be claimed again only when its lock has run out.
\<close>

lemma worker_not_awaited:
  "\<exists>p e. reach launched (pstep sample_lib) p \<and> pr_main p = Exited \<and> pr_worker p = Batch [e] \<and>
     outbox_events (w_db (pr_world p)) = [e] \<and> oe_Status e = StatusProcessing \<and> w_delivered (pr_world p) = [] \<and>
     (\<forall>t. eligible t e \<longleftrightarrow> 1000 + claimLockDuration < t)"
proof -
  obtain p where p: "launched p" "pr_world p = outbox_world sample_event" "pr_worker p = Claiming" "pr_main p = Awaiting"
    "pr_crashed p = None"
    using sample_launched by blast
  let ?e = "lock_event 1000 claimLockDuration worker_id sample_event"
  have n: "wc_BatchSize worker_config = 50"
    by (simp add: worker_config_def NewWorker_def defaultWorkerConfig_def)
  have cl: "claimable [] 50 1000 (sample_db\<lparr>outbox_events := [sample_event]\<rparr>) = [sample_event]"
    by (simp add: claimable_def eligible_def event_status_defs)
  obtain w where w: "outbox_ClaimBatch [] 50 worker_id claimLockDuration (pr_world p) = (Ok [?e], w)" "w_delivered w = []"
    using ClaimBatch_quiet[OF outbox_world_quiet[of sample_event], of 50 "[]" worker_id claimLockDuration] by (auto simp: p(2) cl)
  from ClaimBatch_events[OF w(1)] have ev: "outbox_events (w_db w) = [?e]" by (simp add: p(2))
  define q where "q = p\<lparr>pr_worker := Batch [?e], pr_world := w\<rparr>"
  have "pstep sample_lib p q" unfolding q_def by (rule p_claim[where skip = "[]", OF _ p(3)]) (simp_all add: alive_def p(4,5) n w)
  moreover have "pstep sample_lib q (q\<lparr>pr_cancelled := True\<rparr>)" by (rule p_signal) (simp add: q_def alive_def p(4,5))
  ultimately have r: "reach launched (pstep sample_lib) (q\<lparr>pr_cancelled := True\<rparr>)"
    using p(1) by (blast intro: reach_init reach_step)
  obtain p' where "(pstep sample_lib)\<^sup>*\<^sup>* (q\<lparr>pr_cancelled := True\<rparr>) p'" "pr_main p' = Exited" "pr_worker p' = Batch [?e]"
    "w_db (pr_world p') = w_db w" "w_delivered (pr_world p') = []"
    using exit_run[of "q\<lparr>pr_cancelled := True\<rparr>" sample_lib] by (auto simp: q_def alive_def p(4,5) w(2))
  with reach_rtranclp[OF _ r] ev show ?thesis
    by (intro exI[of _ p'] exI[of _ ?e]) (auto simp: eligible_def lock_event_def event_status_defs)
qed

text \<open>
  A panic of the server's goroutine can fall into the return of \<^verbatim>\<open>main\<close>: when \<^verbatim>\<open>ListenAndServe\<close> fails and
  a signal arrives before the panic, the process can crash after the broker was closed and before the rest of the
  deferred calls.
\<close>

lemma crash_after_broker_closed:
  "\<exists>p. reach launched (pstep L) p \<and> pr_crashed p \<noteq> None \<and> w_broker_closed (pr_world p) \<and> pr_defers p = [StopSignals]"
proof -
  obtain p where p: "launched p" "pr_main p = Awaiting" "pr_crashed p = None" "pr_server p = NotListening"
    using sample_launched by blast
  from lifecycle.init_inv[OF p(1)] p(2) have d: "pr_defers p = base_defers"
    by (simp add: process_ok_def control_ok_def defers_ok_def)
  let ?e = "ErrOther ''bind''"
  define p1 where "p1 = p\<lparr>pr_server := Listening, pr_world := log_at LevelDebug ''Auth service running on :8081'' [] (pr_world p)\<rparr>"
  define p2 where "p2 = p1\<lparr>pr_server := ServerFailed ?e\<rparr>\<lparr>pr_cancelled := True\<rparr>"
  define p3 where "p3 = p2\<lparr>pr_main := Draining, pr_shutdown := True, pr_defers := CancelShutdown # pr_defers p2,
      pr_world := log_at LevelError ''shutting down...'' [] (pr_world p2)\<rparr>"
  define p4 where "p4 = p3\<lparr>pr_main := Returning, pr_world := drained None (pr_world p3)\<rparr>"
  define p5 where "p5 = p4\<lparr>pr_defers := base_defers, pr_world := run_deferred CancelShutdown None None (pr_world p4)\<rparr>"
  define p6 where "p6 = p5\<lparr>pr_defers := [StopSignals], pr_world := run_deferred CloseBroker None None (pr_world p5)\<rparr>"
  define p7 where "p7 = p6\<lparr>pr_server := Panicking ?e, pr_world := log_at LevelError (err_Error ?e) [] (pr_world p6)\<rparr>"
  define p8 where "p8 = p7\<lparr>pr_server := ServerReturned, pr_crashed := Some ?e\<rparr>"
  note defs = p1_def p2_def p3_def p4_def p5_def p6_def p7_def p8_def alive_def p d base_defers_def
  have "pstep L p p1" unfolding p1_def by (rule p_listen) (simp_all add: defs)
  moreover have "pstep L p1 (p1\<lparr>pr_server := ServerFailed ?e\<rparr>)" by (rule p_server_failed) (simp_all add: defs ErrServerClosed_def)
  moreover have "pstep L (p1\<lparr>pr_server := ServerFailed ?e\<rparr>) p2" unfolding p2_def by (rule p_signal) (simp add: defs)
  moreover have "pstep L p2 p3" unfolding p3_def by (rule p_wake) (simp_all add: defs)
  moreover have "pstep L p3 p4" unfolding p4_def by (rule p_drained) (simp_all add: defs)
  moreover have "pstep L p4 p5" unfolding p5_def by (rule p_defer) (simp_all add: defs)
  moreover have "pstep L p5 p6" unfolding p6_def by (rule p_defer) (simp_all add: defs)
  moreover have "pstep L p6 p7" unfolding p7_def by (rule p_server_logs) (simp_all add: defs)
  moreover have "pstep L p7 p8" unfolding p8_def by (rule p_panic) (simp_all add: defs)
  ultimately have "reach launched (pstep L) p8" using reach_init[of launched p "pstep L", OF p(1)] by (meson reach_step)
  then show ?thesis by (intro exI[of _ p8]) (simp add: p8_def p7_def p6_def)
qed

lemma shutdown_order_witness:
  "\<exists>p. reach launched (pstep sample_lib) p \<and> pr_main p = Exited \<and> w_broker_closed (pr_world p) \<and> pr_defers p = []"
  using worker_not_awaited shutdown_order[of sample_lib] by blast

end
