(* ===== verification/Backends.thy ===== *)
theory Backends
  imports Service_Samples
begin

text \<open>
  The two back ends of the refresh-token repository compared. The SQLite tables have no tenant column; forgetting that
  column is the abstraction from PostgreSQL tables to SQLite tables. On the data of a single tenant it commutes with
  the operations on refresh tokens, the recorded instant of a bulk revocation apart: SQLite's \<^verbatim>\<open>CURRENT_TIMESTAMP\<close> has
  whole seconds and is the time of the statement, PostgreSQL's is the start of the transaction.
\<close>

definition forget_db :: "db \<Rightarrow> db" where
  "forget_db d = d\<lparr>refresh_tokens := map (\<lambda>r. r\<lparr>rr_tenant_id := None\<rparr>) (refresh_tokens d)\<rparr>"

definition forget :: "world \<Rightarrow> world" where
  "forget w = w\<lparr>w_db := forget_db (w_db w), w_tx := map_option (\<lambda>(t, d). (t, forget_db d)) (w_tx w)\<rparr>"

definition tenant_only :: "uuid \<Rightarrow> db \<Rightarrow> bool" where
  "tenant_only tn d \<longleftrightarrow> list_all (\<lambda>r. rr_tenant_id r = Some tn) (refresh_tokens d)"

definition single_tenant :: "uuid \<Rightarrow> world \<Rightarrow> bool" where
  "single_tenant tn w \<longleftrightarrow> tenant_only tn (w_db w) \<and> (case w_tx w of None \<Rightarrow> True | Some (t, d) \<Rightarrow> tenant_only tn d)"



section \<open>Forgetting and the calls of database/sql\<close>

lemma forget_simps [simp]:
  "w_now (forget w) = w_now w" "next_ok (forget w) = next_ok w" "next_err (forget w) = next_err w"
  "w_db (forget w) = forget_db (w_db w)" "w_tx (forget w) = map_option (\<lambda>(t, d). (t, forget_db d)) (w_tx w)"
  by (simp_all add: forget_def next_ok_def next_err_def)



lemma single_tenant_moves [simp]: "single_tenant tn (pop w) = single_tenant tn w" "single_tenant tn (tick w) = single_tenant tn w"
  by (simp_all add: single_tenant_def)




section \<open>Statements\<close>





section \<open>Operations\<close>



end
