(* ===== verification/Service_Liveness.thy ===== *)
theory Service_Liveness
  imports Reachable
begin

text \<open>
  What must succeed: on a working database, with fresh identifiers and random bytes at hand, a login with the
  right password succeeds, the token that it returns can be exchanged, and a new account can log in. The
  hypotheses name what the operations draw on; \<open>calm\<close> collects those about the environment.
\<close>

section \<open>A calm environment\<close>

text \<open>
  No statement fails, at least \<open>n\<close> identifiers and \<open>m\<close> random blocks are left, and the identifiers are new: no
  refresh token and no event of the tables has one of them, and no two are equal.
\<close>

definition calm :: "nat \<Rightarrow> nat \<Rightarrow> world \<Rightarrow> bool" where
  "calm n m w \<longleftrightarrow> w_faults w = [] \<and> n \<le> length (w_uuids w) \<and> m \<le> length (w_rand w) \<and> distinct (w_uuids w) \<and>
     list_all (\<lambda>i. i \<notin> rr_token_id ` set (refresh_tokens (w_db w)) \<and> i \<notin> oe_ID ` set (outbox_events (w_db w))) (w_uuids w)"

text \<open>The signing library accepts the service's key: \<^verbatim>\<open>SignedString\<close> returns a token for all claims.\<close>

definition can_sign :: "Service \<Rightarrow> bool" where
  "can_sign S \<longleftrightarrow> (\<forall>c. \<exists>a. jwt_Sign (sv_lib S) SigningMethodRSA c (sv_privateKey S) = Inr a)"

lemma sample_can_sign: "can_sign sample_S"
  by (simp add: can_sign_def)

lemma calm_quiet: "calm n m w \<Longrightarrow> next_ok w \<and> pop w = w"
  by (simp add: calm_def next_ok_def pop_def)

lemma long_list: "Suc n \<le> length xs \<Longrightarrow> \<exists>x ys. xs = x # ys \<and> n \<le> length ys"
  by (cases xs) auto

lemma calm_login:
  assumes "calm 4 1 w"
  obtains c f r e us raw rs where "w_uuids w = c # f # r # e # us" "w_rand w = raw # rs" "w_faults w = []"
    "r \<notin> rr_token_id ` set (refresh_tokens (w_db w))" "e \<notin> oe_ID ` set (outbox_events (w_db w))"
proof -
  from assms have l: "4 \<le> length (w_uuids w)" "1 \<le> length (w_rand w)" by (simp_all add: calm_def)
  then obtain c f r e us raw rs where "w_uuids w = c # f # r # e # us" "w_rand w = raw # rs"
    by (auto simp: numeral_eq_Suc dest!: long_list)
  with assms that show thesis by (auto simp: calm_def)
qed

lemma calm_refresh:
  assumes "calm 1 1 w"
  obtains r us raw rs where "w_uuids w = r # us" "w_rand w = raw # rs" "w_faults w = []"
    "r \<notin> rr_token_id ` set (refresh_tokens (w_db w))"
proof -
  from assms have l: "1 \<le> length (w_uuids w)" "1 \<le> length (w_rand w)" by (simp_all add: calm_def)
  then obtain r us raw rs where "w_uuids w = r # us" "w_rand w = raw # rs"
    by (auto dest!: long_list)
  with assms that show thesis by (auto simp: calm_def)
qed

section \<open>Tokens\<close>

lemma GenerateAccessToken_succeeds:
  assumes "can_sign S"
  shows "\<exists>a. GenerateAccessToken (sv_lib S) i em (sv_privateKey S) w = (Ok a, tick (tick w))"
proof -
  let ?c = "\<lparr>c_UserID = i, c_Email = em, c_Subject = uuid_String (sv_lib S) i,
    c_Issuer = ''auth-service'', c_IssuedAt = w_now w, c_ExpiresAt = w_now (tick w) + accessTokenTTL\<rparr>"
  from assms obtain a where "jwt_Sign (sv_lib S) SigningMethodRSA ?c (sv_privateKey S) = Inr a"
    unfolding can_sign_def by blast
  then show ?thesis by (simp add: GenerateAccessToken_def bindM_def attempt_def time_Now_eq ret_sum_def)
qed

lemma GenerateRefreshToken_succeeds:
  assumes "w_rand w = raw # rs" "w_uuids w = i # us"
  shows "\<exists>plain t w'. GenerateRefreshToken u f p tn c s w = (Ok (plain, t), w') \<and> rt_ID t = i \<and> rt_UserID t = u \<and>
    rt_TenantID t = tn \<and> rt_TokenHash t = HashToken plain s \<and> rt_ExpiresAt t = rt_CreatedAt t + refreshTTL \<and>
    rt_CreatedAt t = w_now w \<and> w_db w' = w_db w \<and> w_tx w' = w_tx w \<and> w_faults w' = w_faults w \<and> w_uuids w' = us \<and>
    w_now w \<le> w_now w'"
proof -
  have "w_now w = w_now (w\<lparr>w_rand := rs\<rparr>)" by simp
  also have "\<dots> \<le> w_now (tick (w\<lparr>w_rand := rs\<rparr>))" by (rule tick_mono)
  finally show ?thesis using assms
    by (simp add: GenerateRefreshToken_def bindM_def attempt_def rand_Read_def time_Now_eq uuid_NewV7_def Let_def)
qed

section \<open>Login\<close>

lemma login_prepare_succeeds:
  assumes "can_sign S" "w_uuids w = c # f # r # e # us" "w_rand w = raw # rs"
  shows "\<exists>access plain client t ev w'. login_prepare S user tenant ip w = (Ok ((access, plain, client), t, ev), w') \<and>
    w_db w' = w_db w \<and> w_faults w' = w_faults w \<and> rt_ID t = r \<and> oe_ID ev = e \<and> oe_Status ev = StatusPending \<and>
    rt_UserID t = u_ID user \<and> rt_TenantID t = u_Tenant_ID user \<and> rt_TokenHash t = HashToken plain (sv_tokenSecret S) \<and>
    w_now w + refreshTTL \<le> rt_ExpiresAt t"
proof -
  from GenerateAccessToken_succeeds[OF assms(1)] obtain a where
    a: "GenerateAccessToken (sv_lib S) (u_ID user) (u_Email user) (sv_privateKey S) w = (Ok a, tick (tick w))" by blast
  let ?w = "(tick (tick w))\<lparr>w_uuids := r # e # us\<rparr>"
  let ?c = "signClientID (sv_lib S) c (bytes_of (sv_tokenSecret S))"
  have now: "w_now w \<le> w_now ?w" using tick_mono[of w] tick_mono[of "tick w"] by simp
  obtain plain t w' where
    g: "GenerateRefreshToken (u_ID user) f uuid_Nil (u_Tenant_ID user) ?c (sv_tokenSecret S) ?w = (Ok (plain, t), w')"
    and t: "rt_ID t = r" "rt_UserID t = u_ID user" "rt_TenantID t = u_Tenant_ID user"
      "rt_TokenHash t = HashToken plain (sv_tokenSecret S)" "rt_ExpiresAt t = rt_CreatedAt t + refreshTTL" "rt_CreatedAt t = w_now ?w"
    and w': "w_db w' = w_db w" "w_faults w' = w_faults w" "w_uuids w' = e # us"
    using GenerateRefreshToken_succeeds[of ?w raw rs r "e # us" "u_ID user" f uuid_Nil "u_Tenant_ID user" ?c "sv_tokenSecret S"] assms(3) by auto
  have "w_now w + refreshTTL \<le> rt_ExpiresAt t" using t now by simp
  with a g t w' assms(2) show ?thesis
    by (simp add: login_prepare_def bindM_def attempt_def uuid_NewV7_def Let_def time_Now_eq new_event_def)
qed

lemma login_succeed_succeeds:
  assumes "can_sign S" "calm 4 1 w" "u_ID user \<in> user_ids (w_db w)"
  shows "\<exists>access plain client t ev w'. login_succeed S user tenant ip w = (Ok (access, plain, client), w') \<and>
    w_db w' = add_refresh (refresh_row_of (Some (u_Tenant_ID user)) t) (add_event ev (w_db w)) \<and>
    rt_UserID t = u_ID user \<and> rt_TokenHash t = HashToken plain (sv_tokenSecret S) \<and> w_now w + refreshTTL \<le> rt_ExpiresAt t"
proof -
  from calm_login[OF assms(2)] obtain c f r e us raw rs where
    w: "w_uuids w = c # f # r # e # us" "w_rand w = raw # rs" "w_faults w = []"
    and new: "r \<notin> rr_token_id ` set (refresh_tokens (w_db w))" "e \<notin> oe_ID ` set (outbox_events (w_db w))" .
  obtain access plain client t ev w1 where
    p: "login_prepare S user tenant ip w = (Ok ((access, plain, client), t, ev), w1)"
    and w1: "w_db w1 = w_db w" "w_faults w1 = []"
    and t: "rt_ID t = r" "oe_ID ev = e" "oe_Status ev = StatusPending" "rt_UserID t = u_ID user" "rt_TenantID t = u_Tenant_ID user"
      "rt_TokenHash t = HashToken plain (sv_tokenSecret S)" "w_now w + refreshTTL \<le> rt_ExpiresAt t"
    using login_prepare_succeeds[OF assms(1) w(1,2), of user tenant ip] w(3) by auto
  have q: "next_ok w1" "pop w1 = w1" using w1(2) by (simp_all add: next_ok_def pop_def)
  let ?row = "refresh_row_of (Some (u_Tenant_ID user)) t"
  have ins: "insert_outbox ev tm (w_db w) = Inr (add_event ev (w_db w))" for tm
    using new(2) t by (simp add: insert_outbox_def add_event_def outbox_statuses_def StatusPending_def)
  have ins2: "insert_refresh ?row tm (add_event ev (w_db w)) = Inr (add_refresh ?row (add_event ev (w_db w)))" for tm
    using new(1) t assms(3) by (simp add: insert_refresh_def add_refresh_def refresh_row_of_def user_ids_def)
  have "\<exists>w'. login_succeed S user tenant ip w = (Ok (access, plain, client), w') \<and>
      w_db w' = add_refresh ?row (add_event ev (w_db w))"
    by (simp add: login_succeed_def p bindM_def attempt_def withTx_eq q outbox_CreateTx_def refresh_CreateTx_def ExecContext_Tx
        exec_tx_def ins ins2 t(5) w1 next_ok_def pop_def Commit_eq Rollback_def inc_login_success_def)
  with t show ?thesis by blast
qed

lemma Login_succeeds:
  assumes "db_wf (w_db w)" "calm 4 1 w" "can_sign S" "TenantFromContext ctx = Some tenant"
    and "user \<in> set (users (w_db w))" "u_Tenant_ID user = t_ID tenant" "u_PasswordHash user = Some h"
    and "ComparePassword (sv_lib S) h pw = None" "u_LockedAt user = None"
  shows "\<exists>access plain client t ev w'. Login S ctx (u_Email user) pw ip w = (Ok (access, plain, client), w') \<and>
    w_db w' = add_refresh (refresh_row_of (Some (t_ID tenant)) t) (add_event ev (w_db w)) \<and>
    rt_UserID t = u_ID user \<and> rt_TokenHash t = HashToken plain (sv_tokenSecret S) \<and> w_now w + refreshTTL \<le> rt_ExpiresAt t"
proof -
  from calm_quiet[OF assms(2)] have q: "next_ok w" "pop w = w" by auto
  from users_FindByEmail_unique[OF assms(1,5) q(1)] q(2) assms(6)
  have "find_user (u_Email user) (t_ID tenant) w = (Ok (Some user), w)" by (simp add: find_user_def)
  moreover have "u_ID user \<in> user_ids (w_db w)" using assms(5) by (simp add: user_ids_def)
  ultimately show ?thesis
    using login_succeed_succeeds[OF assms(3,2), of user tenant ip] assms(4,6-9)
    by (simp add: Login_def bindM_def attempt_def login_found_def)
qed

section \<open>Refresh\<close>

lemma Refresh_succeeds:
  assumes "calm 1 1 w" "can_sign S" "TenantFromContext ctx = Some tenant"
    and "find_refresh (HashToken tok (sv_tokenSecret S)) (t_ID tenant) (w_db w) = Some r"
    and "rr_revoked_at r = None" "w_now w \<le> rr_expires_at r" "rr_user_id r \<in> user_ids (w_db w)"
  shows "\<exists>x w'. Refresh S ctx tok w = (Ok x, w')"
proof -
  from calm_refresh[OF assms(1)] obtain i us raw rs where
    w: "w_uuids w = i # us" "w_rand w = raw # rs" "w_faults w = []" and new: "i \<notin> rr_token_id ` set (refresh_tokens (w_db w))" .
  let ?d = "revoke_rows (\<lambda>x. rr_token_id x = rr_token_id r \<and> rr_tenant_id x = Some (t_ID tenant))"
  let ?w1 = "w\<lparr>w_tx := Some (w_now w, w_db w)\<rparr>"
  let ?w2 = "(tick (tick ?w1))\<lparr>w_tx := Some (w_now w, ?d (w_now (tick ?w1)) (w_db w))\<rparr>"
  obtain plain t w3 where
    g: "GenerateRefreshToken (rr_user_id r) (rr_family_id r) (rr_token_id r) (t_ID tenant) (rr_client_id r) (sv_tokenSecret S) ?w2 =
      (Ok (plain, t), w3)"
    and t: "rt_ID t = i" "rt_UserID t = rr_user_id r" "rt_TenantID t = t_ID tenant"
    and w3: "w_db w3 = w_db w" "w_tx w3 = w_tx ?w2" "w_faults w3 = []"
    using GenerateRefreshToken_succeeds[of ?w2 raw rs i us "rr_user_id r" "rr_family_id r" "rr_token_id r" "t_ID tenant" "rr_client_id r"
        "sv_tokenSecret S"] w by auto
  let ?row = "refresh_row_of (Some (t_ID tenant)) t"
  have ins: "insert_refresh ?row tm (?d at (w_db w)) = Inr (add_refresh ?row (?d at (w_db w)))" for tm at
    using new t assms(7) by (simp add: insert_refresh_def add_refresh_def refresh_row_of_def user_ids_def)
  have f: "refresh_FindbyHash Tx (HashToken tok (sv_tokenSecret S)) (t_ID tenant) ?w1 = (Ok (scan_refresh r), ?w1)"
    using assms(4) w(3) by (simp add: refresh_FindbyHash_def QueryRow_Tx next_ok_def quiet_pop find_refresh_def)
  have rev: "refresh_Revoke Tx (rr_token_id r) (t_ID tenant) (tick ?w1) = (Ok (), ?w2)"
    using w(3) by (simp add: refresh_Revoke_def bindM_def attempt_def time_Now_eq ExecContext_Tx next_ok_def exec_tx_def upd_refresh_def
        revoke_rows_def quiet_pop)
  obtain w4 where rot: "rotateHelper S ctx tok w = (Ok (plain, t), w4)" and w4: "users (w_db w4) = users (w_db w)" "w_faults w4 = []"
    using assms(3,5,6) w(3) w3 ins t(3)
    by (simp add: rotateHelper_def withTx_eq next_ok_def quiet_pop attempt_def f bindM_def time_Now_eq rotate_live_def rev g refresh_CreateTx_def
        ExecContext_Tx exec_tx_def Commit_eq Rollback_def)
  from assms(7) obtain u where "List.find (\<lambda>u. u_ID u = rr_user_id r) (users (w_db w)) = Some u"
    by (cases "List.find (\<lambda>u. u_ID u = rr_user_id r) (users (w_db w))") (auto simp: user_ids_def find_None_iff)
  then have u: "users_FindByID (rt_UserID t) w4 = (Ok u, w4)"
    using w4 t(2) by (simp add: users_FindByID_def QueryRow_Conn next_ok_def quiet_pop)
  from GenerateAccessToken_succeeds[OF assms(2)] obtain a where
    "GenerateAccessToken (sv_lib S) (u_ID u) (u_Email u) (sv_privateKey S) w4 = (Ok a, tick (tick w4))" by blast
  with rot u show ?thesis by (simp add: Refresh_def bindM_def attempt_def)
qed

section \<open>Properties\<close>

text \<open>
  C7: Sessions work. With the right password of an account of this tenant that is not locked, on a database that
  works and with enough fresh identifiers and random bytes, a login succeeds; and the refresh token it returns
  is accepted in every later calm state with the same tables for the next thirty days (unless its hash is that of a
  token stored before the login).
\<close>

theorem login_then_refresh:
  assumes "db_wf (w_db w)" "calm 4 1 w" "can_sign S" "TenantFromContext ctx = Some tenant"
    and "user \<in> set (users (w_db w))" "u_Tenant_ID user = t_ID tenant" "u_PasswordHash user = Some h"
    and "ComparePassword (sv_lib S) h pw = None" "u_LockedAt user = None"
  shows "\<exists>access refresh client w1. Login S ctx (u_Email user) pw ip w = (Ok (access, refresh, client), w1) \<and>
    (\<forall>w2. w_db w2 = w_db w1 \<and> calm 1 1 w2 \<and> w_now w2 \<le> w_now w + 30 * 24 * Hour \<and>
      (\<forall>x \<in> set (refresh_tokens (w_db w)). rr_token_hash x \<noteq> HashToken refresh (sv_tokenSecret S)) \<longrightarrow>
      (\<exists>access' refresh' expires w3. Refresh S ctx refresh w2 = (Ok (access', refresh', expires), w3)))"
proof -
  from Login_succeeds[OF assms, of ip] obtain access plain client t ev w1 where
    run: "Login S ctx (u_Email user) pw ip w = (Ok (access, plain, client), w1)"
    and db: "w_db w1 = add_refresh (refresh_row_of (Some (t_ID tenant)) t) (add_event ev (w_db w))"
    and t: "rt_UserID t = u_ID user" "rt_TokenHash t = HashToken plain (sv_tokenSecret S)" "w_now w + refreshTTL \<le> rt_ExpiresAt t"
    by blast
  have "\<exists>x w3. Refresh S ctx plain w2 = (Ok x, w3)"
    if w2: "w_db w2 = w_db w1" "calm 1 1 w2" "w_now w2 \<le> w_now w + 30 * 24 * Hour"
      "\<forall>x \<in> set (refresh_tokens (w_db w)). rr_token_hash x \<noteq> HashToken plain (sv_tokenSecret S)" for w2
  proof (rule Refresh_succeeds[OF w2(2) assms(3,4)])
    from w2(4) have "find_refresh (HashToken plain (sv_tokenSecret S)) (t_ID tenant) (add_event ev (w_db w)) = None"
      by (auto simp: find_refresh_def find_None_iff)
    then show "find_refresh (HashToken plain (sv_tokenSecret S)) (t_ID tenant) (w_db w2) = Some (refresh_row_of (Some (t_ID tenant)) t)"
      using t(2) by (simp add: w2(1) db find_refresh_add refresh_row_of_def)
  qed (use t w2(1,3) assms(5) in \<open>simp_all add: refresh_row_of_def refreshTTL_def db user_ids_def\<close>)
  with run show ?thesis by (intro exI[of _ access] exI[of _ plain] exI[of _ client] exI[of _ w1]) auto
qed

lemma sample_calm: "calm 4 1 sample_world" "calm 1 1 sample_world"
  by (simp_all add: calm_def sample_db_def empty_db_def)

lemma sample_bcrypt: "bcrypt_Compare sample_lib (hex_EncodeToString p) p = None"
  by (simp add: sample_lib_def)

lemma sample_login_hyps:
  "sample_user \<in> set (users (w_db sample_world))" "u_Tenant_ID sample_user = t_ID acme"
  "u_PasswordHash sample_user = Some (hex_EncodeToString (bytes_of ''password12''))" "u_LockedAt sample_user = None"
  by (simp_all add: sample_db_def sample_user_def)

lemma login_then_refresh_witness:
  "\<exists>access refresh client w1. Login sample_S acme_ctx ''a@b'' ''password12'' ''1.1.1.1'' sample_world = (Ok (access, refresh, client), w1) \<and>
     (\<exists>x w3. Refresh sample_S acme_ctx refresh (sample_world\<lparr>w_db := w_db w1, w_uuids := [40]\<rparr>) = (Ok x, w3))"
proof -
  let ?login = "Login sample_S acme_ctx ''a@b'' ''password12'' ''1.1.1.1'' sample_world"
  obtain access refresh client w1 where run: "?login = (Ok (access, refresh, client), w1)"
    and later: "\<And>w2. w_db w2 = w_db w1 \<and> calm 1 1 w2 \<and> w_now w2 \<le> w_now sample_world + 30 * 24 * Hour \<and>
      (\<forall>x \<in> set (refresh_tokens (w_db sample_world)). rr_token_hash x \<noteq> HashToken refresh (sv_tokenSecret sample_S)) \<longrightarrow>
      (\<exists>access' refresh' expires w3. Refresh sample_S acme_ctx refresh w2 = (Ok (access', refresh', expires), w3))"
    using login_then_refresh[of sample_world sample_S acme_ctx acme sample_user _ "''password12''" "''1.1.1.1''",
        OF _ sample_calm(1) sample_can_sign _ sample_login_hyps(1-3) _ sample_login_hyps(4)] sample_db_wf
    by (auto simp: sample_bcrypt sample_user_def ComparePassword_def)
  from run sample_login have ids: "map rr_token_id (refresh_tokens (w_db w1)) = [12]" "map oe_ID (outbox_events (w_db w1)) = [13]" by auto
  then have "40 \<notin> rr_token_id ` set (refresh_tokens (w_db w1))" "40 \<notin> oe_ID ` set (outbox_events (w_db w1))"
    by (simp_all flip: set_map)
  then have "calm 1 1 (sample_world\<lparr>w_db := w_db w1, w_uuids := [40]\<rparr>)" by (simp add: calm_def)
  with later[of "sample_world\<lparr>w_db := w_db w1, w_uuids := [40]\<rparr>"] run show ?thesis
    by (auto simp: sample_db_def empty_db_def Hour_def Minute_def Second_def)
qed

text \<open>
  C8: An account that was just signed up can log in: after a successful sign-up a login with the same address and
  password at the same tenant succeeds in every calm state with the same tables, although the address is not
  verified yet. The hypothesis on bcrypt is its documented contract: a hash made from a password matches it.
\<close>

theorem signup_then_login:
  assumes "SignupService S ctx email username pw (t_ID tenant) w = (Ok resp, w1)" "TenantFromContext ctx = Some tenant"
    and "db_wf (w_db w)" "w_tx w = None" "w_db w2 = w_db w1" "calm 4 1 w2" "can_sign S"
    and "\<And>salt p h. bcrypt_Generate (sv_lib S) salt p 12 = Inr h \<Longrightarrow> bcrypt_Compare (sv_lib S) h p = None"
  shows "\<exists>access refresh client w3. Login S ctx email pw ip w2 = (Ok (access, refresh, client), w3)"
proof -
  from assms(1) obtain u t where up: "signed_up S email pw (t_ID tenant) (w_db w) (w_db w1) u t"
    by (cases rule: SignupService_cases) (auto simp: is_Ok_iff)
  have wf: "db_wf (w_db w2)"
    using keepsD[OF keeps_wf_services(2) assms(1)] assms(3-5) by (simp add: db_inv_def)
  let ?u = "u\<lparr>u_LockedAt := None\<rparr>"
  from up obtain h where h: "u_PasswordHash u = Some h" "hash_of (sv_lib S) pw h" and em: "u_Email u = email" "u_Tenant_ID u = t_ID tenant"
    by (auto simp: signed_up_def signup_rows_def)
  from up have mem: "?u \<in> set (users (w_db w2))" by (auto simp: assms(5) signed_up_def add_user_def)
  from h(2) assms(8) have cmp: "ComparePassword (sv_lib S) h pw = None" by (auto simp: hash_of_def ComparePassword_def)
  from Login_succeeds[OF wf assms(6,7,2) mem _ _ cmp, of ip] h em show ?thesis by auto
qed

lemma signup_then_login_witness:
  "\<exists>resp w1. SignupService sample_S acme_ctx ''n@b'' ''nn'' ''password12'' 3 big_world = (Ok resp, w1) \<and>
     (\<exists>x w3. Login sample_S acme_ctx ''n@b'' ''password12'' ''1.1.1.1'' (sample_world\<lparr>w_db := w_db w1, w_uuids := [40, 41, 42, 43]\<rparr>) = (Ok x, w3))"
proof -
  obtain resp w1 where run: "SignupService sample_S acme_ctx ''n@b'' ''nn'' ''password12'' 3 big_world = (Ok resp, w1)"
    and ids: "map rr_token_id (refresh_tokens (w_db w1)) = [14]" "map oe_ID (outbox_events (w_db w1)) = [15, 16]"
    using sample_signup by auto
  let ?w2 = "sample_world\<lparr>w_db := w_db w1, w_uuids := [40, 41, 42, 43]\<rparr>"
  from ids have "rr_token_id ` set (refresh_tokens (w_db w1)) = {14}" "oe_ID ` set (outbox_events (w_db w1)) = {15, 16}"
    by (simp_all flip: set_map)
  then have "calm 4 1 ?w2" by (simp add: calm_def)
  with run signup_then_login[of sample_S acme_ctx "''n@b''" "''nn''" "''password12''" acme big_world resp w1 ?w2 "''1.1.1.1''"]
  have "\<exists>x w3. Login sample_S acme_ctx ''n@b'' ''password12'' ''1.1.1.1'' ?w2 = (Ok x, w3)"
    using sample_can_sign sample_db_wf sample_bcrypt by auto
  with run show ?thesis by blast
qed

end
