(* ===== verification/Concurrent_Sessions.thy ===== *)
theory Concurrent_Sessions
  imports Service_Liveness
begin

text \<open>
  Requests that overlap inside the database: \<^verbatim>\<open>rotateHelper\<close>, \<^verbatim>\<open>Logout\<close> and the statements that revoke
  many tokens (\<^verbatim>\<open>RevokeAllForFamily\<close>, \<^verbatim>\<open>RevokeAllForUser\<close>), each split into the statements it sends, for
  any number of clients and under every interleaving. PostgreSQL runs them at its default level (read committed):
  a statement sees the rows committed before it started; \<^verbatim>\<open>SELECT .. FOR UPDATE\<close> and \<^verbatim>\<open>UPDATE\<close> lock the rows
  they touch until the transaction ends, wait for a lock that another transaction holds, and then look at the
  row again. Anything may fail at any time (a deadlock that the server breaks included).
\<close>

section \<open>Clients, locks and rows\<close>

type_synonym client = nat

datatype reply =
    Exchanged refresh_row
  | Reused uuid
  | Refused
  | Failed
  | LoggedOut refresh_row
  | Swept

text \<open>
  Where a request is: after \<^verbatim>\<open>FindbyHash\<close>, after \<^verbatim>\<open>Revoke\<close>, after \<^verbatim>\<open>CreateTx\<close>; inside an
  \<^verbatim>\<open>UPDATE\<close> of many rows, with those it has still to visit and those it will revoke at its commit; in
  \<^verbatim>\<open>Logout\<close> after \<^verbatim>\<open>FindValidByHash\<close> (which locks nothing) and after \<^verbatim>\<open>Revoke\<close>; or answered.
\<close>

datatype pos =
    Idle
  | Found uuid refresh_row
  | Rotating uuid refresh_row time
  | Created uuid refresh_row time refresh_row
  | Sweeping "uuid list" "uuid list" time reply
  | LeaveFound uuid refresh_row
  | Leaving uuid refresh_row time
  | Replied reply

record sessions =
  ss_rows :: "refresh_row list"
  ss_lock :: "uuid \<rightharpoonup> client"
  ss_pos :: "client \<Rightarrow> pos"

definition goto :: "client \<Rightarrow> pos \<Rightarrow> sessions \<Rightarrow> sessions" where
  "goto c p s = s\<lparr>ss_pos := (ss_pos s)(c := p)\<rparr>"

definition lock_row :: "client \<Rightarrow> uuid \<Rightarrow> sessions \<Rightarrow> sessions" where
  "lock_row c i s = s\<lparr>ss_lock := (ss_lock s)(i \<mapsto> c)\<rparr>"

definition can_lock :: "client \<Rightarrow> uuid \<Rightarrow> sessions \<Rightarrow> bool" where
  "can_lock c i s \<longleftrightarrow> ss_lock s i = None \<or> ss_lock s i = Some c"

text \<open>The end of a transaction: its locks are released and the caller gets the answer.\<close>

definition finish :: "client \<Rightarrow> reply \<Rightarrow> sessions \<Rightarrow> sessions" where
  "finish c a s = goto c (Replied a) (s\<lparr>ss_lock := (\<lambda>i. if ss_lock s i = Some c then None else ss_lock s i)\<rparr>)"

definition set_revoked :: "(refresh_row \<Rightarrow> bool) \<Rightarrow> time \<Rightarrow> sessions \<Rightarrow> sessions" where
  "set_revoked p at s = s\<lparr>ss_rows := update_where p (\<lambda>r. r\<lparr>rr_revoked_at := Some at\<rparr>) (ss_rows s)\<rparr>"

definition append_row :: "refresh_row \<Rightarrow> sessions \<Rightarrow> sessions" where
  "append_row r s = s\<lparr>ss_rows := ss_rows s @ [r]\<rparr>"

definition row_ids :: "sessions \<Rightarrow> uuid set" where
  "row_ids s = rr_token_id ` set (ss_rows s)"

definition inserting :: "sessions \<Rightarrow> uuid \<Rightarrow> bool" where
  "inserting s i \<longleftrightarrow> (\<exists>c tn r at new. ss_pos s c = Created tn r at new \<and> rr_token_id new = i)"

definition by_hash :: "string \<Rightarrow> uuid \<Rightarrow> sessions \<Rightarrow> refresh_row option" where
  "by_hash h tn s = List.find (\<lambda>r. rr_token_hash r = h \<and> rr_tenant_id r = Some tn) (ss_rows s)"

definition valid_by_hash :: "string \<Rightarrow> uuid \<Rightarrow> time \<Rightarrow> sessions \<Rightarrow> refresh_row option" where
  "valid_by_hash h tn now s =
     List.find (\<lambda>r. rr_token_hash r = h \<and> rr_revoked_at r = None \<and> rr_expires_at r > now \<and> rr_tenant_id r = Some tn) (ss_rows s)"

text \<open>What \<^verbatim>\<open>GenerateRefreshToken\<close> makes of the old token, as a row.\<close>

definition successor :: "uuid \<Rightarrow> refresh_row \<Rightarrow> refresh_row \<Rightarrow> bool" where
  "successor tn r new \<longleftrightarrow> rr_user_id new = rr_user_id r \<and> rr_tenant_id new = Some tn \<and> rr_client_id new = rr_client_id r \<and>
     rr_family_id new = rr_family_id r \<and> rr_ptoken_id new = nullableUUID (rr_token_id r) \<and> rr_revoked_at new = None \<and>
     rr_expires_at new = rr_created_at new + refreshTTL"

section \<open>Steps\<close>

text \<open>The times that the steps use are arbitrary: the clock of a client may be read at any moment.\<close>

inductive sstep :: "sessions \<Rightarrow> sessions \<Rightarrow> bool" where
  find_row:
    "ss_pos s c = Idle \<Longrightarrow> by_hash h tn s = Some r \<Longrightarrow> can_lock c (rr_token_id r) s \<Longrightarrow>
     sstep s (goto c (Found tn r) (lock_row c (rr_token_id r) s))"
| find_nothing:
    "ss_pos s c = Idle \<Longrightarrow> by_hash h tn s = None \<Longrightarrow> sstep s (finish c Refused s)"
| expired:
    "ss_pos s c = Found tn r \<Longrightarrow> rr_expires_at r < now \<Longrightarrow> sstep s (finish c Refused s)"
| revoke:
    "ss_pos s c = Found tn r \<Longrightarrow> now \<le> rr_expires_at r \<Longrightarrow> rr_revoked_at r = None \<Longrightarrow>
     sstep s (goto c (Rotating tn r at) s)"
| create:
    "ss_pos s c = Rotating tn r at \<Longrightarrow> successor tn r new \<Longrightarrow> rr_token_id new \<notin> row_ids s \<Longrightarrow>
     \<not> inserting s (rr_token_id new) \<Longrightarrow> sstep s (goto c (Created tn r at new) s)"
| commit_rotation:
    "ss_pos s c = Created tn r at new \<Longrightarrow>
     sstep s (finish c (Exchanged new)
       (append_row new (set_revoked (\<lambda>x. rr_token_id x = rr_token_id r \<and> rr_tenant_id x = Some tn) at s)))"
| reuse:
    "ss_pos s c = Found tn r \<Longrightarrow> now \<le> rr_expires_at r \<Longrightarrow> rr_revoked_at r \<noteq> None \<Longrightarrow>
     sstep s (goto c (Sweeping (map rr_token_id (filter (in_family (rr_family_id r) tn) (ss_rows s))) [] at
       (Reused (rr_family_id r))) s)"
| revoke_user:
    "ss_pos s c = Idle \<Longrightarrow>
     sstep s (goto c (Sweeping (map rr_token_id (filter (of_user u tn) (ss_rows s))) [] at Swept) s)"
| sweep_row:
    "ss_pos s c = Sweeping (i # todo) taken at a \<Longrightarrow> can_lock c i s \<Longrightarrow> x \<in> set (ss_rows s) \<Longrightarrow> rr_token_id x = i \<Longrightarrow>
     rr_revoked_at x = None \<Longrightarrow> sstep s (goto c (Sweeping todo (i # taken) at a) (lock_row c i s))"
| sweep_skip:
    "ss_pos s c = Sweeping (i # todo) taken at a \<Longrightarrow> can_lock c i s \<Longrightarrow> x \<in> set (ss_rows s) \<Longrightarrow> rr_token_id x = i \<Longrightarrow>
     rr_revoked_at x \<noteq> None \<Longrightarrow> sstep s (goto c (Sweeping todo taken at a) s)"
| sweep_commit:
    "ss_pos s c = Sweeping [] taken at a \<Longrightarrow>
     sstep s (finish c a (set_revoked (\<lambda>x. rr_token_id x \<in> set taken) at s))"
| logout_find:
    "ss_pos s c = Idle \<Longrightarrow> valid_by_hash h tn now s = Some r \<Longrightarrow> sstep s (goto c (LeaveFound tn r) s)"
| logout_nothing:
    "ss_pos s c = Idle \<Longrightarrow> valid_by_hash h tn now s = None \<Longrightarrow> sstep s (finish c Refused s)"
| logout_revoke:
    "ss_pos s c = LeaveFound tn r \<Longrightarrow> can_lock c (rr_token_id r) s \<Longrightarrow>
     sstep s (goto c (Leaving tn r at) (lock_row c (rr_token_id r) s))"
| logout_commit:
    "ss_pos s c = Leaving tn r at \<Longrightarrow>
     sstep s (finish c (LoggedOut r) (set_revoked (\<lambda>x. rr_token_id x = rr_token_id r \<and> rr_tenant_id x = Some tn) at s))"
| failure:
    "\<forall>a. ss_pos s c \<noteq> Replied a \<Longrightarrow> sstep s (finish c Failed s)"
| next_request:
    "ss_pos s c = Replied a \<Longrightarrow> sstep s (goto c Idle s)"
| new_session:
    "rr_token_id x \<notin> row_ids s \<Longrightarrow> \<not> inserting s (rr_token_id x) \<Longrightarrow> rr_family_id x \<notin> rr_family_id ` set (ss_rows s) \<Longrightarrow>
     rr_ptoken_id x = None \<Longrightarrow> rr_revoked_at x = None \<Longrightarrow> sstep s (append_row x s)"

text \<open>The service starts with no client inside a request, on a table whose families are in order.\<close>

definition one_live :: "refresh_row list \<Rightarrow> bool" where
  "one_live rows \<longleftrightarrow> (\<forall>x \<in> set rows. \<forall>y \<in> set rows. rr_revoked_at x = None \<and> rr_revoked_at y = None \<and>
     rr_family_id x = rr_family_id y \<longrightarrow> x = y)"

definition parents_revoked :: "refresh_row list \<Rightarrow> bool" where
  "parents_revoked rows \<longleftrightarrow>
     (\<forall>x \<in> set rows. \<forall>p. rr_ptoken_id x = Some p \<longrightarrow> (\<exists>y \<in> set rows. rr_token_id y = p \<and> rr_revoked_at y \<noteq> None))"

definition one_child :: "refresh_row list \<Rightarrow> bool" where
  "one_child rows \<longleftrightarrow>
     (\<forall>x \<in> set rows. \<forall>y \<in> set rows. rr_ptoken_id x \<noteq> None \<and> rr_ptoken_id x = rr_ptoken_id y \<longrightarrow> x = y)"

definition one_tenant :: "refresh_row list \<Rightarrow> bool" where
  "one_tenant rows \<longleftrightarrow>
     (\<forall>x \<in> set rows. \<forall>y \<in> set rows. rr_family_id x = rr_family_id y \<longrightarrow> rr_tenant_id x = rr_tenant_id y)"

definition rows_ok :: "refresh_row list \<Rightarrow> bool" where
  "rows_ok rows \<longleftrightarrow> distinct (map rr_token_id rows) \<and> one_live rows \<and> parents_revoked rows \<and> one_child rows \<and>
     one_tenant rows"

definition sstart :: "sessions \<Rightarrow> bool" where
  "sstart s \<longleftrightarrow> rows_ok (ss_rows s) \<and> ss_lock s = Map.empty \<and> ss_pos s = (\<lambda>_. Idle)"

abbreviation interleaved :: "sessions \<Rightarrow> bool" where
  "interleaved \<equiv> reach sstart sstep"

section \<open>The invariant\<close>

lemmas sstep_defs = goto_def lock_row_def can_lock_def finish_def set_revoked_def append_row_def row_ids_def

text \<open>A row that a client has read under its lock is still the committed one.\<close>

definition holds :: "sessions \<Rightarrow> client \<Rightarrow> uuid \<Rightarrow> refresh_row \<Rightarrow> bool" where
  "holds s c tn r \<longleftrightarrow> r \<in> set (ss_rows s) \<and> rr_tenant_id r = Some tn \<and> ss_lock s (rr_token_id r) = Some c"

definition pos_ok :: "sessions \<Rightarrow> client \<Rightarrow> bool" where
  "pos_ok s c \<longleftrightarrow> (case ss_pos s c of
       Found tn r \<Rightarrow> holds s c tn r
     | Rotating tn r at \<Rightarrow> holds s c tn r \<and> rr_revoked_at r = None
     | Created tn r at new \<Rightarrow> holds s c tn r \<and> rr_revoked_at r = None \<and> successor tn r new \<and>
         rr_token_id new \<notin> row_ids s \<and> (\<forall>d tn' r' at' new'. ss_pos s d = Created tn' r' at' new' \<longrightarrow> rr_token_id new' = rr_token_id new \<longrightarrow> d = c)
     | Sweeping todo taken at a \<Rightarrow> (\<forall>i \<in> set taken. ss_lock s i = Some c)
     | Leaving tn r at \<Rightarrow> ss_lock s (rr_token_id r) = Some c
     | _ \<Rightarrow> True)"

lemma pos_ok_Created:
  "ss_pos s c = Created tn r at new \<Longrightarrow>
     pos_ok s c \<longleftrightarrow> holds s c tn r \<and> rr_revoked_at r = None \<and> successor tn r new \<and> rr_token_id new \<notin> row_ids s \<and>
       (\<forall>d tn' r' at' new'. ss_pos s d = Created tn' r' at' new' \<longrightarrow> rr_token_id new' = rr_token_id new \<longrightarrow> d = c)"
  by (simp add: pos_ok_def)

definition sessions_ok :: "sessions \<Rightarrow> bool" where
  "sessions_ok s \<longleftrightarrow> rows_ok (ss_rows s) \<and> (\<forall>c. pos_ok s c)"

lemma created_unique:
  assumes "sessions_ok s" "ss_pos s c = Created tn r at new" "ss_pos s d = Created tn' r' at' new'" "rr_token_id new' = rr_token_id new"
  shows "d = c"
proof -
  have "pos_ok s c" using assms(1) by (simp add: sessions_ok_def)
  with assms(3,4) show ?thesis unfolding pos_ok_Created[OF assms(2)] by blast
qed

subsection \<open>Clients that do not move\<close>

text \<open>A client that stays where it is stays in order as long as its locks and the rows under them are kept.\<close>

lemma pos_ok_kept:
  assumes "pos_ok s d" "ss_pos s' d = ss_pos s d" "\<And>i. ss_lock s i = Some d \<Longrightarrow> ss_lock s' i = Some d"
    and "\<And>r. r \<in> set (ss_rows s) \<Longrightarrow> ss_lock s (rr_token_id r) = Some d \<Longrightarrow> r \<in> set (ss_rows s')"
    and "\<And>tn r at new. ss_pos s d = Created tn r at new \<Longrightarrow> rr_token_id new \<notin> row_ids s \<Longrightarrow> rr_token_id new \<notin> row_ids s'"
    and "\<And>e tn r at new tn' r' at' new'. ss_pos s d = Created tn r at new \<Longrightarrow> ss_pos s' e = Created tn' r' at' new' \<Longrightarrow>
      rr_token_id new' = rr_token_id new \<Longrightarrow> e = d"
  shows "pos_ok s' d"
proof -
  have h: "holds s' d tn r" if "holds s d tn r" for tn r
    using that assms(3,4) by (simp add: holds_def)
  show ?thesis
  proof (cases "ss_pos s d")
    case (Created tn r at new)
    have old: "holds s d tn r" "rr_revoked_at r = None" "successor tn r new" "rr_token_id new \<notin> row_ids s'"
      using assms(1) assms(5)[OF Created] unfolding pos_ok_Created[OF Created] by simp_all
    have u: "\<forall>e tn' r' at' new'. ss_pos s' e = Created tn' r' at' new' \<longrightarrow> rr_token_id new' = rr_token_id new \<longrightarrow> e = d"
      using assms(6)[OF Created] by blast
    have p: "ss_pos s' d = Created tn r at new" using Created assms(2) by simp
    show ?thesis unfolding pos_ok_Created[OF p] using h[OF old(1)] old(2-4) u by (intro conjI)
  qed (use assms(1) in \<open>simp_all add: pos_ok_def assms(2,3) h\<close>)
qed

text \<open>
  A step of client \<open>c\<close>: the others keep their positions and locks and the rows under these; new identifiers are not
  those that others are inserting.
\<close>

lemma ok_step:
  assumes "sessions_ok s" "rows_ok (ss_rows s')" "pos_ok s' c"
    and "\<And>d. d \<noteq> c \<Longrightarrow> ss_pos s' d = ss_pos s d" "\<And>i d. d \<noteq> c \<Longrightarrow> ss_lock s i = Some d \<Longrightarrow> ss_lock s' i = Some d"
    and "\<And>r d. d \<noteq> c \<Longrightarrow> r \<in> set (ss_rows s) \<Longrightarrow> ss_lock s (rr_token_id r) = Some d \<Longrightarrow> r \<in> set (ss_rows s')"
    and "\<And>d tn r at new. d \<noteq> c \<Longrightarrow> ss_pos s d = Created tn r at new \<Longrightarrow> rr_token_id new \<notin> row_ids s \<Longrightarrow> rr_token_id new \<notin> row_ids s'"
    and "\<And>tn r at new. ss_pos s' c = Created tn r at new \<Longrightarrow> \<not> inserting s (rr_token_id new)"
  shows "sessions_ok s'"
proof -
  have "pos_ok s' d" for d
  proof (cases "d = c")
    case False
    have d: "pos_ok s d" using assms(1) by (simp add: sessions_ok_def)
    have uniq: "e = d" if "ss_pos s d = Created tn r at new" "ss_pos s' e = Created tn' r' at' new'"
      "rr_token_id new' = rr_token_id new" for e tn r at new tn' r' at' new'
    proof (cases "e = c")
      case True
      with that assms(8) have "\<not> inserting s (rr_token_id new)" by metis
      with that(1) show ?thesis unfolding inserting_def by blast
    next
      case e: False
      with that assms(4) have "ss_pos s e = Created tn' r' at' new'" by simp
      then show ?thesis using created_unique[OF assms(1) that(1) _ that(3)] by blast
    qed
    show ?thesis
      using d assms(4)[OF False] assms(5)[OF False] assms(6)[OF False] assms(7)[OF False] uniq by (rule pos_ok_kept)
  qed (use assms(3) in simp)
  with assms(2) show ?thesis by (simp add: sessions_ok_def)
qed

subsection \<open>Steps that change no row\<close>

lemma ok_goto:
  assumes "sessions_ok s" "\<And>tn r at new. p = Created tn r at new \<Longrightarrow> \<not> inserting s (rr_token_id new)" "pos_ok (goto c p s) c"
  shows "sessions_ok (goto c p s)"
  by (rule ok_step[OF assms(1), where c = c])
    (use assms in \<open>auto simp: goto_def row_ids_def sessions_ok_def\<close>)

lemma ok_goto_free:
  assumes "sessions_ok s"
  shows "sessions_ok (goto c (Sweeping todo [] at a) s)" "sessions_ok (goto c (LeaveFound tn r) s)" "sessions_ok (goto c Idle s)"
  by (rule ok_goto[OF assms]; simp add: pos_ok_def goto_def)+

lemma ok_lock:
  assumes "sessions_ok s" "can_lock c i s" "\<And>tn r at new. p \<noteq> Created tn r at new" "pos_ok (goto c p (lock_row c i s)) c"
  shows "sessions_ok (goto c p (lock_row c i s))"
  by (rule ok_step[OF assms(1), where c = c])
    (use assms in \<open>auto simp: goto_def lock_row_def can_lock_def row_ids_def sessions_ok_def\<close>)

subsection \<open>Steps that commit\<close>

lemma rows_ok_revoke:
  assumes "rows_ok rows"
  shows "rows_ok (update_where p (\<lambda>r. r\<lparr>rr_revoked_at := Some at\<rparr>) rows)"
proof -
  let ?new = "update_where p (\<lambda>r. r\<lparr>rr_revoked_at := Some at\<rparr>) rows"
  from assms have ok: "distinct (map rr_token_id rows)" "one_live rows" "parents_revoked rows" "one_child rows"
    "one_tenant rows"
    by (simp_all add: rows_ok_def)
  have ids: "map rr_token_id ?new = map rr_token_id rows" by (rule map_update_where) simp
  have origin: "\<exists>y \<in> set rows. rr_token_id y = rr_token_id x \<and> rr_ptoken_id y = rr_ptoken_id x" if "x \<in> set ?new" for x
    using that by (auto simp: in_update_where_iff split: if_splits)
  have "one_live ?new"
    using ok(2) by (auto simp: one_live_def in_update_where_iff split: if_splits)
  moreover have "parents_revoked ?new"
    unfolding parents_revoked_def
  proof (intro ballI allI impI)
    fix x q assume x: "x \<in> set ?new" "rr_ptoken_id x = Some q"
    from origin[OF x(1)] x(2) ok(3) obtain y where y: "y \<in> set rows" "rr_token_id y = q" "rr_revoked_at y \<noteq> None"
      unfolding parents_revoked_def by metis
    then show "\<exists>y \<in> set ?new. rr_token_id y = q \<and> rr_revoked_at y \<noteq> None"
      by (intro bexI[of _ "if p y then y\<lparr>rr_revoked_at := Some at\<rparr> else y"]) (auto simp: in_update_where_iff)
  qed
  moreover have "one_child ?new"
    unfolding one_child_def
  proof (intro ballI impI)
    fix x y assume xy: "x \<in> set ?new" "y \<in> set ?new" "rr_ptoken_id x \<noteq> None \<and> rr_ptoken_id x = rr_ptoken_id y"
    from origin[OF xy(1)] origin[OF xy(2)] xy(3) ok(4) have "rr_token_id x = rr_token_id y" unfolding one_child_def by metis
    with xy(1,2) ids ok(1) show "x = y" by (intro distinct_key_inj[of rr_token_id ?new]) auto
  qed
  moreover have "one_tenant ?new"
    unfolding one_tenant_def
  proof (intro ballI impI)
    fix x y assume xy: "x \<in> set ?new" "y \<in> set ?new" "rr_family_id x = rr_family_id y"
    have same: "\<exists>x' \<in> set rows. rr_family_id x' = rr_family_id x \<and> rr_tenant_id x' = rr_tenant_id x" if "x \<in> set ?new" for x
      using that by (auto simp: in_update_where_iff split: if_splits)
    from same[OF xy(1)] same[OF xy(2)] xy(3) ok(5) show "rr_tenant_id x = rr_tenant_id y" unfolding one_tenant_def by metis
  qed
  ultimately show ?thesis using ids ok(1) by (simp add: rows_ok_def)
qed

text \<open>A transaction that ends after it revoked rows under its locks (or none).\<close>

lemma ok_revoke_commit:
  assumes "sessions_ok s" "\<And>x. x \<in> set (ss_rows s) \<Longrightarrow> p x \<Longrightarrow> ss_lock s (rr_token_id x) = Some c"
  shows "sessions_ok (finish c a (set_revoked p at s))"
proof (rule ok_step[OF assms(1), where c = c])
  show "rows_ok (ss_rows (finish c a (set_revoked p at s)))"
    using assms(1) by (simp add: finish_def goto_def set_revoked_def rows_ok_revoke sessions_ok_def)
next
  fix r d assume "d \<noteq> c" "r \<in> set (ss_rows s)" "ss_lock s (rr_token_id r) = Some d"
  with assms(2)[of r] show "r \<in> set (ss_rows (finish c a (set_revoked p at s)))"
    by (auto simp: finish_def goto_def set_revoked_def set_update_where)
next
  have "row_ids (finish c a (set_revoked p at s)) = row_ids s"
    by (simp add: finish_def goto_def set_revoked_def row_ids_def map_update_where flip: set_map)
  then show "rr_token_id new \<notin> row_ids (finish c a (set_revoked p at s))" if "rr_token_id new \<notin> row_ids s" for new :: refresh_row
    using that by simp
qed (auto simp: finish_def goto_def set_revoked_def pos_ok_def)

lemma ok_finish:
  assumes "sessions_ok s"
  shows "sessions_ok (finish c a s)"
proof -
  have "set_revoked (\<lambda>_. False) 0 s = s" by (simp add: set_revoked_def update_where_id)
  with ok_revoke_commit[OF assms, of "\<lambda>_. False" c a 0] show ?thesis by simp
qed

lemma rows_ok_append:
  assumes "rows_ok rows" "rr_token_id new \<notin> rr_token_id ` set rows"
    and "\<And>x. x \<in> set rows \<Longrightarrow> rr_revoked_at x = None \<Longrightarrow> rr_family_id x \<noteq> rr_family_id new"
    and "\<And>q. rr_ptoken_id new = Some q \<Longrightarrow> \<exists>y \<in> set rows. rr_token_id y = q \<and> rr_revoked_at y \<noteq> None"
    and "\<And>x q. x \<in> set rows \<Longrightarrow> rr_ptoken_id new = Some q \<Longrightarrow> rr_ptoken_id x \<noteq> Some q"
    and "\<And>x. x \<in> set rows \<Longrightarrow> rr_family_id x = rr_family_id new \<Longrightarrow> rr_tenant_id x = rr_tenant_id new"
  shows "rows_ok (rows @ [new])"
proof -
  from assms(1) have ok: "distinct (map rr_token_id rows)" "one_live rows" "parents_revoked rows" "one_child rows"
    "one_tenant rows"
    by (simp_all add: rows_ok_def)
  have "one_live (rows @ [new])" using ok(2) assms(3) by (fastforce simp: one_live_def)
  moreover have "parents_revoked (rows @ [new])" using ok(3) assms(4) unfolding parents_revoked_def by fastforce
  moreover have "one_child (rows @ [new])" using ok(4) assms(5) by (fastforce simp: one_child_def)
  moreover have "one_tenant (rows @ [new])" 
    unfolding one_tenant_def
  proof (intro ballI impI)
    fix x y assume "x \<in> set (rows @ [new])" "y \<in> set (rows @ [new])" and f: "rr_family_id x = rr_family_id y"
    then consider "x \<in> set rows" "y \<in> set rows" | "x = new" "y \<in> set rows" | "x \<in> set rows" "y = new" | "x = new" "y = new"
      by auto
    then show "rr_tenant_id x = rr_tenant_id y"
    proof cases
      case 1
      with f ok(5) show ?thesis unfolding one_tenant_def by blast
    next
      case 2
      with f assms(6)[of y] show ?thesis by simp
    next
      case 3
      with f assms(6)[of x] show ?thesis by simp
    qed simp
  qed
  ultimately show ?thesis using ok(1) assms(2) by (simp add: rows_ok_def)
qed

lemma rotation_rows:
  assumes "rows_ok rows" "r \<in> set rows" "rr_revoked_at r = None" "rr_tenant_id r = Some tn" "successor tn r new"
    and "rr_token_id new \<notin> rr_token_id ` set rows"
  shows "rows_ok (update_where (\<lambda>x. rr_token_id x = rr_token_id r \<and> rr_tenant_id x = Some tn) (\<lambda>x. x\<lparr>rr_revoked_at := Some at\<rparr>) rows @ [new])"
proof (rule rows_ok_append[OF rows_ok_revoke[OF assms(1)]])
  let ?p = "\<lambda>x. rr_token_id x = rr_token_id r \<and> rr_tenant_id x = Some tn" and ?f = "\<lambda>x. x\<lparr>rr_revoked_at := Some at\<rparr>"
  from assms(1) have ok: "distinct (map rr_token_id rows)" "one_live rows" "parents_revoked rows" "one_tenant rows" by (simp_all add: rows_ok_def)
  have one: "x = r" if "x \<in> set rows" "rr_token_id x = rr_token_id r" for x
    using distinct_key_inj[OF ok(1) that(1) assms(2) that(2)] .
  have "map rr_token_id (update_where ?p ?f rows) = map rr_token_id rows" by (rule map_update_where) simp
  then show "rr_token_id new \<notin> rr_token_id ` set (update_where ?p ?f rows)" using assms(6) by (simp flip: set_map)
  show "rr_family_id x \<noteq> rr_family_id new" if "x \<in> set (update_where ?p ?f rows)" "rr_revoked_at x = None" for x
  proof
    assume "rr_family_id x = rr_family_id new"
    with assms(5) have fam: "rr_family_id x = rr_family_id r" by (simp add: successor_def)
    from that have "x \<in> set rows" "\<not> ?p x" by (auto simp: set_update_where)
    moreover from this fam that(2) ok(2) assms(2,3) have "x = r" unfolding one_live_def by blast
    ultimately show False using assms(4) by simp
  qed
  show "rr_tenant_id x = rr_tenant_id new" if "x \<in> set (update_where ?p ?f rows)" "rr_family_id x = rr_family_id new" for x
  proof -
    from that(1) obtain y where "y \<in> set rows" "rr_family_id y = rr_family_id x" "rr_tenant_id y = rr_tenant_id x"
      by (auto simp: in_update_where_iff split: if_splits)
    with that(2) ok(4) assms(2,4,5) show ?thesis unfolding one_tenant_def successor_def by metis
  qed
  fix q assume q: "rr_ptoken_id new = Some q"
  then have id: "q = rr_token_id r" using assms(5) by (auto simp: successor_def nullableUUID_def split: if_splits)
  with assms(2,4) show "\<exists>y \<in> set (update_where ?p ?f rows). rr_token_id y = q \<and> rr_revoked_at y \<noteq> None"
    by (intro bexI[of _ "?f r"]) (auto simp: set_update_where)
  show "rr_ptoken_id x \<noteq> Some q" if "x \<in> set (update_where ?p ?f rows)" for x
  proof
    assume "rr_ptoken_id x = Some q"
    with that obtain y where "y \<in> set rows" "rr_ptoken_id y = Some q" by (auto simp: in_update_where_iff split: if_splits)
    with ok(3) obtain z where "z \<in> set rows" "rr_token_id z = q" "rr_revoked_at z \<noteq> None" unfolding parents_revoked_def by blast
    with one[of z] id assms(3) show False by simp
  qed
qed

lemma ok_rotation_commit:
  assumes "sessions_ok s" "ss_pos s c = Created tn r at new"
  shows "sessions_ok (finish c a (append_row new
    (set_revoked (\<lambda>x. rr_token_id x = rr_token_id r \<and> rr_tenant_id x = Some tn) at s)))" (is "sessions_ok ?s'")
proof -
  let ?p = "\<lambda>x. rr_token_id x = rr_token_id r \<and> rr_tenant_id x = Some tn"
  from assms have "pos_ok s c" and rows: "rows_ok (ss_rows s)" by (simp_all add: sessions_ok_def)
  then have c: "r \<in> set (ss_rows s)" "rr_tenant_id r = Some tn" "ss_lock s (rr_token_id r) = Some c" "rr_revoked_at r = None"
    "successor tn r new" "rr_token_id new \<notin> row_ids s"
    unfolding pos_ok_Created[OF assms(2)] holds_def by simp_all
  have ids: "row_ids ?s' = insert (rr_token_id new) (row_ids s)"
    by (simp add: sstep_defs map_update_where flip: set_map)
  show ?thesis
  proof (rule ok_step[OF assms(1), where c = c])
    show "rows_ok (ss_rows ?s')"
      using rotation_rows[OF rows c(1,4,2,5)] c(6) by (simp add: sstep_defs)
  next
    fix x d assume "d \<noteq> c" "x \<in> set (ss_rows s)" "ss_lock s (rr_token_id x) = Some d"
    with c(3) show "x \<in> set (ss_rows ?s')" by (auto simp: sstep_defs set_update_where)
  next
    fix d tn' r' at' new' assume "d \<noteq> c" "ss_pos s d = Created tn' r' at' new'" "rr_token_id new' \<notin> row_ids s"
    with created_unique[OF assms] show "rr_token_id new' \<notin> row_ids ?s'" unfolding ids by blast
  qed (auto simp: sstep_defs pos_ok_def)
qed

lemma ok_new_session:
  assumes "sessions_ok s" "rr_token_id x \<notin> row_ids s" "\<not> inserting s (rr_token_id x)"
    and "rr_family_id x \<notin> rr_family_id ` set (ss_rows s)" "rr_ptoken_id x = None"
  shows "sessions_ok (append_row x s)"
proof -
  have "pos_ok (append_row x s) d" for d
    by (rule pos_ok_kept[of s])
      (use assms created_unique[OF assms(1)] in \<open>auto simp: append_row_def sessions_ok_def row_ids_def inserting_def\<close>)
  moreover have "rows_ok (ss_rows s @ [x])"
    by (rule rows_ok_append) (use assms in \<open>auto simp: sessions_ok_def row_ids_def image_iff\<close>)
  ultimately show ?thesis by (simp add: sessions_ok_def append_row_def)
qed

subsection \<open>Every step\<close>

lemma by_hash_Some: "by_hash h tn s = Some r \<Longrightarrow> r \<in> set (ss_rows s) \<and> rr_tenant_id r = Some tn"
  by (auto simp: by_hash_def dest: find_Some_in)

lemma locked_once:
  assumes "sessions_ok s" "x \<in> set (ss_rows s)" "y \<in> set (ss_rows s)" "rr_token_id x = rr_token_id y"
  shows "x = y"
  using assms by (auto simp: sessions_ok_def rows_ok_def intro: distinct_key_inj)

lemma sessions_ok_step:
  assumes "sstep s s'" "sessions_ok s"
  shows "sessions_ok s'"
  using assms
proof (induction rule: sstep.induct)
  case (find_row s c h tn r)
  show ?case
    by (rule ok_lock) (use find_row by_hash_Some[OF find_row(2)] in \<open>auto simp: pos_ok_def holds_def goto_def lock_row_def\<close>)
next
  case (revoke s c tn r now at)
  from revoke(4) have "pos_ok s c" by (simp add: sessions_ok_def)
  with revoke show ?case by (intro ok_goto) (auto simp: pos_ok_def holds_def goto_def)
next
  case (create s c tn r at new)
  from create(5) have "pos_ok s c" by (simp add: sessions_ok_def)
  with create(1) have old: "holds s c tn r" "rr_revoked_at r = None" by (simp_all add: pos_ok_def)
  have p: "ss_pos (goto c (Created tn r at new) s) c = Created tn r at new" by (simp add: goto_def)
  have uniq: "\<forall>d tn' r' at' new'. ss_pos (goto c (Created tn r at new) s) d = Created tn' r' at' new' \<longrightarrow>
      rr_token_id new' = rr_token_id new \<longrightarrow> d = c"
    using create(4) unfolding inserting_def goto_def by (auto split: if_splits)
  show ?case
  proof (rule ok_goto[OF create(5)])
    have "holds (goto c (Created tn r at new) s) c tn r" "rr_token_id new \<notin> row_ids (goto c (Created tn r at new) s)"
      using old(1) create(3) by (simp_all add: holds_def goto_def row_ids_def)
    then show "pos_ok (goto c (Created tn r at new) s) c"
      unfolding pos_ok_Created[OF p] using old(2) create(2) uniq by (intro conjI)
  qed (use create(4) in simp)
next
  case (commit_rotation s c tn r at new)
  then show ?case by (intro ok_rotation_commit)
next
  case (sweep_row s c i todo taken at a x)
  from sweep_row(6) have "pos_ok s c" by (simp add: sessions_ok_def)
  with sweep_row show ?case by (intro ok_lock) (auto simp: pos_ok_def goto_def lock_row_def)
next
  case (sweep_skip s c i todo taken at a x)
  from sweep_skip(6) have "pos_ok s c" by (simp add: sessions_ok_def)
  with sweep_skip show ?case by (intro ok_goto) (auto simp: pos_ok_def goto_def)
next
  case (sweep_commit s c taken at a)
  from sweep_commit(2) have "pos_ok s c" by (simp add: sessions_ok_def)
  with sweep_commit show ?case by (intro ok_revoke_commit) (auto simp: pos_ok_def)
next
  case (logout_revoke s c tn r at)
  then show ?case by (intro ok_lock) (auto simp: pos_ok_def goto_def lock_row_def)
next
  case (logout_commit s c tn r at)
  from logout_commit(2) have "pos_ok s c" by (simp add: sessions_ok_def)
  with logout_commit show ?case by (intro ok_revoke_commit) (auto simp: pos_ok_def)
next
  case (new_session x s)
  then show ?case by (intro ok_new_session)
qed (simp_all add: ok_finish ok_goto_free)

lemma sessions_ok_start: "sstart s \<Longrightarrow> sessions_ok s"
  by (simp add: sstart_def sessions_ok_def pos_ok_def)

interpretation overlap: inductive_invariant sstart sstep sessions_ok
  by unfold_locales (rule sessions_ok_start, assumption, rule sessions_ok_step)

section \<open>What overlapping requests cannot do\<close>

lemma at_most_one:
  assumes "distinct (map key rows)" "\<And>x y. x \<in> set rows \<Longrightarrow> y \<in> set rows \<Longrightarrow> P x \<Longrightarrow> P y \<Longrightarrow> x = y"
  shows "length (filter P rows) \<le> 1"
proof -
  have "distinct (filter P rows)" using assms(1) by (auto simp: distinct_map)
  have "x = y" if "x \<in> set (filter P rows)" "y \<in> set (filter P rows)" for x y using that assms(2) by simp
  then have "card (set (filter P rows)) \<le> 1" by (intro card_le_Suc0_iff_eq[THEN iffD2, folded One_nat_def]) auto
  with \<open>distinct (filter P rows)\<close> show ?thesis by (simp only: distinct_card)
qed

text \<open>
  C11: Under every interleaving of refreshes, log-outs and revocations by any number of clients, with failures
  anywhere, every family of refresh tokens has at most one token that is not revoked, and every token is exchanged for
  at most one successor: of several clients that present the same token at the same time at most one gets a new
  one. (The lock that \<^verbatim>\<open>FindbyHash\<close> takes with \<^verbatim>\<open>FOR UPDATE\<close> serialises them.)
\<close>

theorem overlapping_refresh_safe:
  assumes "interleaved s"
  shows "length (filter (\<lambda>t. rr_family_id t = f \<and> rr_revoked_at t = None) (ss_rows s)) \<le> 1 \<and>
    length (filter (\<lambda>t. rr_ptoken_id t = Some p) (ss_rows s)) \<le> 1"
proof -
  from overlap.reach_inv[OF assms] have ok: "distinct (map rr_token_id (ss_rows s))" "one_live (ss_rows s)" "one_child (ss_rows s)"
    by (simp_all add: sessions_ok_def rows_ok_def)
  have "length (filter (\<lambda>t. rr_family_id t = f \<and> rr_revoked_at t = None) (ss_rows s)) \<le> 1"
    by (rule at_most_one[OF ok(1)]) (use ok(2) in \<open>auto simp: one_live_def\<close>)
  moreover have "length (filter (\<lambda>t. rr_ptoken_id t = Some p) (ss_rows s)) \<le> 1"
    by (rule at_most_one[OF ok(1)]) (use ok(3) in \<open>auto simp: one_child_def\<close>)
  ultimately show ?thesis ..
qed

section \<open>What overlapping requests can do\<close>

text \<open>A family of tenant 3: the first token was exchanged for the second; the third is what the second is exchanged for.\<close>

definition race_row :: "uuid \<Rightarrow> string \<Rightarrow> uuid option \<Rightarrow> time option \<Rightarrow> refresh_row" where
  "race_row i h parent ro =
     \<lparr>rr_token_id = i, rr_user_id = 7, rr_tenant_id = Some 3, rr_token_hash = h, rr_client_id = ''c'', rr_family_id = 9,
      rr_ptoken_id = parent, rr_expires_at = refreshTTL, rr_revoked_at = ro, rr_created_at = 0\<rparr>"

definition race_start :: sessions where
  "race_start = \<lparr>ss_rows = [race_row 1 ''h1'' None (Some 5), race_row 2 ''h2'' (Some 1) None], ss_lock = Map.empty, ss_pos = (\<lambda>_. Idle)\<rparr>"

lemma race_start_reached: "interleaved race_start"
  by (rule reach_init)
    (auto simp: race_start_def sstart_def rows_ok_def one_live_def parents_revoked_def one_child_def one_tenant_def race_row_def)

lemmas race_simps = race_start_def race_row_def sstep_defs by_hash_def valid_by_hash_def successor_def nullableUUID_def uuid_Nil_def
  inserting_def in_family_def refreshTTL_def Hour_def Minute_def Second_def

text \<open>The client 1 exchanges the second token: up to the insertion of the third, and with the commit.\<close>

abbreviation "race_old \<equiv> race_row 2 ''h2'' (Some 1) None"
abbreviation "race_new \<equiv> race_row 3 ''h3'' (Some 2) None"

definition race_found :: "sessions \<Rightarrow> sessions" where
  "race_found s = goto 1 (Found 3 race_old) (lock_row 1 (rr_token_id race_old) s)"

definition race_created :: "sessions \<Rightarrow> sessions" where
  "race_created s = goto 1 (Created 3 race_old 6 race_new) (goto 1 (Rotating 3 race_old 6) (race_found s))"

definition race_committed :: "sessions \<Rightarrow> sessions" where
  "race_committed s = finish 1 (Exchanged race_new) (append_row race_new
     (set_revoked (\<lambda>x. rr_token_id x = rr_token_id race_old \<and> rr_tenant_id x = Some 3) 6 s))"

lemma race_find:
  assumes "interleaved s" "ss_pos s 1 = Idle" "by_hash ''h2'' 3 s = Some race_old" "ss_lock s 2 = None"
  shows "interleaved (race_found s)"
  unfolding race_found_def
  by (rule reach_step[OF assms(1)], rule find_row[where h = "''h2''"]) (use assms in \<open>simp_all add: can_lock_def race_row_def\<close>)

lemma race_create:
  assumes "interleaved (race_found s)" "row_ids s = {1, 2}" "\<not> inserting (goto 1 (Rotating 3 race_old 6) (race_found s)) 3"
  shows "interleaved (race_created s)"
proof -
  have "interleaved (goto 1 (Rotating 3 race_old 6) (race_found s))"
    by (rule reach_step[OF assms(1)], rule revoke[where now = 0])
      (simp_all add: race_found_def goto_def race_row_def refreshTTL_def Hour_def Minute_def Second_def)
  then show ?thesis unfolding race_created_def
    by (rule reach_step, intro create[where c = 1])
      (use assms(2,3) in \<open>simp_all add: race_found_def goto_def lock_row_def race_row_def successor_def nullableUUID_def uuid_Nil_def row_ids_def\<close>)
qed

lemma race_commit:
  assumes "ss_pos s 1 = Created 3 race_old 6 race_new"
  shows "sstep s (race_committed s)"
  unfolding race_committed_def by (rule commit_rotation[OF assms])

lemma race_not_inserting: "(\<And>c tn r at new. ss_pos s c \<noteq> Created tn r at new) \<Longrightarrow> \<not> inserting s i"
  by (auto simp: inserting_def)

lemmas race_defs = race_start_def race_found_def race_created_def race_committed_def sstep_defs by_hash_def

lemma overlapping_refresh_safe_witness:
  "\<exists>s. interleaved s \<and> ss_pos s 1 = Found 3 race_old \<and>
     length (filter (\<lambda>t. rr_family_id t = 9 \<and> rr_revoked_at t = None) (ss_rows s)) \<le> 1"
proof -
  have "interleaved (race_found race_start)"
    by (rule race_find[OF race_start_reached]) (simp_all add: race_defs race_row_def)
  from overlapping_refresh_safe[OF this, of 9 0] this show ?thesis
    by (intro exI[of _ "race_found race_start"]) (simp add: race_found_def goto_def)
qed

text \<open>
  Without overlap a detected reuse leaves no token of the family alive, and a log-out ends the session: while
  only client \<open>c\<close> moves, what it still has to visit or has taken covers every live token of the family.
\<close>

definition moves :: "client \<Rightarrow> sessions \<Rightarrow> sessions \<Rightarrow> bool" where
  "moves c s s' \<longleftrightarrow> sstep s s' \<and> ss_pos s' c \<noteq> ss_pos s c"

definition live_family :: "uuid \<Rightarrow> sessions \<Rightarrow> refresh_row set" where
  "live_family f s = {x \<in> set (ss_rows s). rr_family_id x = f \<and> rr_revoked_at x = None}"

definition covers :: "client \<Rightarrow> sessions \<Rightarrow> bool" where
  "covers c s \<longleftrightarrow> (case ss_pos s c of
       Sweeping todo taken at (Reused f) \<Rightarrow> rr_token_id ` live_family f s \<subseteq> set todo \<union> set taken
     | Sweeping todo taken at (LoggedOut r) \<Rightarrow> False
     | LeaveFound tn r \<Rightarrow> r \<in> set (ss_rows s) \<and> rr_tenant_id r = Some tn \<and> rr_revoked_at r = None
     | Leaving tn r at \<Rightarrow> r \<in> set (ss_rows s) \<and> rr_tenant_id r = Some tn \<and> rr_revoked_at r = None
     | Replied (Reused f) \<Rightarrow> live_family f s = {}
     | Replied (LoggedOut r) \<Rightarrow> live_family (rr_family_id r) s = {}
     | _ \<Rightarrow> True)"

lemma live_family_pos [simp]:
  "live_family f (goto c p s) = live_family f s" "live_family f (lock_row c i s) = live_family f s"
  "live_family f (finish c a s) = live_family f s"
  by (simp_all add: live_family_def goto_def lock_row_def finish_def)

lemma live_family_revoked [simp]: "live_family f (set_revoked p at s) = {x \<in> live_family f s. \<not> p x}"
  by (auto simp: live_family_def set_revoked_def set_update_where)

lemma moved_pos [simp]:
  "ss_pos (goto c p s) c = p" "ss_pos (finish c a s) c = Replied a" "ss_rows (goto c p s) = ss_rows s"
  "ss_rows (lock_row c i s) = ss_rows s" "ss_pos (append_row x s) = ss_pos s"
  by (simp_all add: goto_def finish_def lock_row_def append_row_def)

lemma covers_reuse:
  assumes "sessions_ok s" "ss_pos s c = Found tn r"
  shows "rr_token_id ` live_family (rr_family_id r) s \<subseteq> rr_token_id ` set (filter (in_family (rr_family_id r) tn) (ss_rows s))"
proof -
  have "pos_ok s c" "one_tenant (ss_rows s)" using assms(1) by (simp_all add: sessions_ok_def rows_ok_def)
  with assms(2) have r: "r \<in> set (ss_rows s)" "rr_tenant_id r = Some tn" by (simp_all add: pos_ok_def holds_def)
  have "in_family (rr_family_id r) tn x" if "x \<in> live_family (rr_family_id r) s" for x
  proof -
    from that have x: "x \<in> set (ss_rows s)" "rr_family_id x = rr_family_id r" "rr_revoked_at x = None" by (simp_all add: live_family_def)
    with r(1) \<open>one_tenant (ss_rows s)\<close> have "rr_tenant_id x = rr_tenant_id r" unfolding one_tenant_def by blast
    with x r(2) show ?thesis by (simp add: in_family_def)
  qed
  then show ?thesis by (auto simp: live_family_def)
qed

lemma covers_sweep:
  assumes "sessions_ok s" "x \<in> set (ss_rows s)" "rr_revoked_at x \<noteq> None" "rr_token_id ` live_family f s \<subseteq> insert (rr_token_id x) A"
  shows "rr_token_id ` live_family f s \<subseteq> A"
proof
  fix i assume i: "i \<in> rr_token_id ` live_family f s"
  then obtain y where y: "y \<in> set (ss_rows s)" "rr_revoked_at y = None" "rr_token_id y = i" by (auto simp: live_family_def)
  with locked_once[OF assms(1) y(1) assms(2)] assms(3) have "i \<noteq> rr_token_id x" by auto
  with i assms(4) show "i \<in> A" by blast
qed

lemma covers_logout:
  assumes "sessions_ok s" "r \<in> set (ss_rows s)" "rr_tenant_id r = Some tn" "rr_revoked_at r = None"
  shows "live_family (rr_family_id r) (set_revoked (\<lambda>x. rr_token_id x = rr_token_id r \<and> rr_tenant_id x = Some tn) at s) = {}"
proof -
  have "one_live (ss_rows s)" using assms(1) by (simp add: sessions_ok_def rows_ok_def)
  then have "x = r" if "x \<in> live_family (rr_family_id r) s" for x
    using that assms(2,4) unfolding one_live_def live_family_def by blast
  then show ?thesis using assms(3) by auto
qed

lemma valid_by_hash_Some:
  "valid_by_hash h tn now s = Some r \<Longrightarrow> r \<in> set (ss_rows s) \<and> rr_tenant_id r = Some tn \<and> rr_revoked_at r = None"
  by (auto simp: valid_by_hash_def dest: find_Some_in)

lemma covers_moves:
  assumes "moves c s s'" "sessions_ok s" "covers c s"
  shows "covers c s'"
proof -
  from assms(1) have step: "sstep s s'" and m: "ss_pos s' c \<noteq> ss_pos s c" by (auto simp: moves_def)
  have who: "d = c" if "ss_pos s' = (ss_pos s)(d := q)" for d q using that m by (auto split: if_splits)
  from step show ?thesis
  proof cases
    case (reuse d tn r now at)
    then have "d = c" by (intro who) (simp add: goto_def)
    with reuse covers_reuse[OF assms(2)] show ?thesis by (simp add: covers_def)
  next
    case (revoke_user d u tn at)
    then have "d = c" by (intro who) (simp add: goto_def)
    with revoke_user show ?thesis by (simp add: covers_def)
  next
    case (sweep_row d i todo taken at a x)
    then have "d = c" by (intro who) (simp add: goto_def lock_row_def)
    with sweep_row assms(3) show ?thesis by (simp add: covers_def split: reply.splits)
  next
    case (sweep_skip d i todo taken at a x)
    then have "d = c" by (intro who) (simp add: goto_def)
    with sweep_skip assms(3) covers_sweep[OF assms(2), of x] show ?thesis by (auto simp: covers_def split: reply.splits)
  next
    case (sweep_commit d taken at a)
    then have "d = c" by (intro who) (simp add: goto_def finish_def set_revoked_def)
    with sweep_commit assms(3) show ?thesis by (cases a) (auto simp: covers_def)
  next
    case (logout_find d h tn now r)
    then have "d = c" by (intro who) (simp add: goto_def)
    with logout_find valid_by_hash_Some[of h tn now s r] show ?thesis by (simp add: covers_def)
  next
    case (logout_revoke d tn r at)
    then have "d = c" by (intro who) (simp add: goto_def lock_row_def)
    with logout_revoke assms(3) show ?thesis by (simp add: covers_def)
  next
    case (logout_commit d tn r at)
    then have "d = c" by (intro who) (simp add: goto_def finish_def set_revoked_def)
    with logout_commit assms(3) covers_logout[OF assms(2), of r tn at] show ?thesis
      by (simp add: covers_def del: live_family_revoked)
  next
    case new_session
    with m show ?thesis by simp
  qed (use who m in \<open>auto simp: covers_def goto_def finish_def lock_row_def set_revoked_def append_row_def split: if_splits\<close>)
qed

lemma alone_revokes:
  assumes "(moves c)\<^sup>*\<^sup>* s s'" "interleaved s" "ss_pos s c = Idle"
  shows "ss_pos s' c = Replied (Reused f) \<Longrightarrow> live_family f s' = {}"
    "ss_pos s' c = Replied (LoggedOut r) \<Longrightarrow> live_family (rr_family_id r) s' = {}"
proof -
  have "interleaved s' \<and> covers c s'"
    using assms
  proof (induction rule: rtranclp_induct)
    case base
    then show ?case by (simp add: covers_def)
  next
    case (step y z)
    then have y: "interleaved y" "covers c y" by auto
    from step.hyps(2) have "sstep y z" by (simp add: moves_def)
    with y covers_moves[OF step.hyps(2)] overlap.reach_inv[OF y(1)] show ?case by (auto intro: reach_step)
  qed
  then show "ss_pos s' c = Replied (Reused f) \<Longrightarrow> live_family f s' = {}"
    "ss_pos s' c = Replied (LoggedOut r) \<Longrightarrow> live_family (rr_family_id r) s' = {}"
    by (simp_all add: covers_def)
qed

text \<open>
  C13: Overlap defeats revocation. Client \<open>c\<close> has presented a revoked token, and client \<open>d\<close> is exchanging the
  live token of the same family (it has inserted the successor and not committed yet). Then \<open>c\<close> can get the reuse
  error, and yet the successor is stored and alive afterwards: the statement that revokes the family does not see the
  row that the other transaction is inserting. In the same way a log-out that has looked up its token while
  \<open>d\<close> is exchanging that token can succeed and leave the session alive. (Without overlap neither can happen:
  \<open>alone_revokes\<close>.)
\<close>

theorem overlap_defeats_revocation:
  "(\<exists>s s' c d tn r old at new. interleaved s \<and> c \<noteq> d \<and> ss_pos s c = Found tn r \<and> rr_revoked_at r \<noteq> None \<and>
      ss_pos s d = Created tn old at new \<and> rr_family_id old = rr_family_id r \<and> sstep\<^sup>*\<^sup>* s s' \<and>
      ss_pos s' c = Replied (Reused (rr_family_id r)) \<and> new \<in> live_family (rr_family_id r) s') \<and>
   (\<exists>s s' c d tn r at new. interleaved s \<and> c \<noteq> d \<and> ss_pos s c = LeaveFound tn r \<and>
      ss_pos s d = Created tn r at new \<and> sstep\<^sup>*\<^sup>* s s' \<and>
      ss_pos s' c = Replied (LoggedOut r) \<and> new \<in> live_family (rr_family_id r) s')"
proof
  let ?old = "race_row 1 ''h1'' None (Some 5)"
  let ?s1 = "goto 0 (Found 3 ?old) (lock_row 0 (rr_token_id ?old) race_start)"
  let ?s2 = "race_created ?s1"
  have "interleaved ?s1"
    by (rule reach_step[OF race_start_reached], rule find_row[where h = "''h1''"]) (simp_all add: race_defs race_row_def)
  then have "interleaved (race_found ?s1)"
    by (rule race_find) (simp_all add: race_defs race_row_def)
  then have s2: "interleaved ?s2"
    by (rule race_create) (auto simp: race_defs race_row_def fun_upd_apply intro!: race_not_inserting split: if_splits)
  let ?s3 = "goto 0 (Sweeping (map rr_token_id (filter (in_family (rr_family_id ?old) 3) (ss_rows ?s2))) [] 7
    (Reused (rr_family_id ?old))) ?s2"
  have "sstep ?s2 ?s3"
    by (rule reuse[where now = 0]) (simp_all add: race_defs race_row_def refreshTTL_def Hour_def Minute_def Second_def)
  moreover have "sstep ?s3 (race_committed ?s3)"
    by (rule race_commit) (simp add: race_defs)
  moreover let ?s4 = "goto 0 (Sweeping [] [] 7 (Reused 9)) (race_committed ?s3)"
  have "sstep (race_committed ?s3) ?s4"
    by (rule sweep_skip[where i = 2 and x = "race_old\<lparr>rr_revoked_at := Some 6\<rparr>"])
      (simp_all add: race_defs race_row_def in_family_def)
  moreover let ?s5 = "finish 0 (Reused 9) (set_revoked (\<lambda>x. rr_token_id x \<in> set []) 7 ?s4)"
  have "sstep ?s4 ?s5" by (rule sweep_commit) (simp add: goto_def)
  ultimately have run: "sstep\<^sup>*\<^sup>* ?s2 ?s5" by (meson rtranclp.rtrancl_into_rtrancl rtranclp.rtrancl_refl)
  have "interleaved ?s2 \<and> (0 :: client) \<noteq> 1 \<and> ss_pos ?s2 0 = Found 3 ?old \<and> rr_revoked_at ?old \<noteq> None \<and>
      ss_pos ?s2 1 = Created 3 race_old 6 race_new \<and> rr_family_id race_old = rr_family_id ?old \<and> sstep\<^sup>*\<^sup>* ?s2 ?s5 \<and>
      ss_pos ?s5 0 = Replied (Reused (rr_family_id ?old)) \<and> race_new \<in> live_family (rr_family_id ?old) ?s5"
    using s2 run by (simp add: race_defs race_row_def live_family_def)
  then show "\<exists>s s' c d tn r old at new. interleaved s \<and> c \<noteq> d \<and> ss_pos s c = Found tn r \<and> rr_revoked_at r \<noteq> None \<and>
      ss_pos s d = Created tn old at new \<and> rr_family_id old = rr_family_id r \<and> sstep\<^sup>*\<^sup>* s s' \<and>
      ss_pos s' c = Replied (Reused (rr_family_id r)) \<and> new \<in> live_family (rr_family_id r) s'" by blast
next
  let ?s1 = "goto 0 (LeaveFound 3 race_old) race_start"
  let ?s2 = "race_created ?s1"
  have "interleaved ?s1"
    by (rule reach_step[OF race_start_reached], rule logout_find[where h = "''h2''" and now = 0])
      (simp_all add: race_defs valid_by_hash_def race_row_def refreshTTL_def Hour_def Minute_def Second_def)
  then have "interleaved (race_found ?s1)"
    by (rule race_find) (simp_all add: race_defs race_row_def)
  then have s2: "interleaved ?s2"
    by (rule race_create) (auto simp: race_defs race_row_def fun_upd_apply intro!: race_not_inserting split: if_splits)
  have "sstep ?s2 (race_committed ?s2)"
    by (rule race_commit) (simp add: race_defs)
  moreover let ?s3 = "goto 0 (Leaving 3 race_old 8) (lock_row 0 (rr_token_id race_old) (race_committed ?s2))"
  have "sstep (race_committed ?s2) ?s3" by (rule logout_revoke) (simp_all add: race_defs race_row_def)
  moreover let ?s4 = "finish 0 (LoggedOut race_old) (set_revoked (\<lambda>x. rr_token_id x = rr_token_id race_old \<and> rr_tenant_id x = Some 3) 8 ?s3)"
  have "sstep ?s3 ?s4" by (rule logout_commit) (simp add: goto_def)
  ultimately have run: "sstep\<^sup>*\<^sup>* ?s2 ?s4" by (meson rtranclp.rtrancl_into_rtrancl rtranclp.rtrancl_refl)
  have "interleaved ?s2 \<and> (0 :: client) \<noteq> 1 \<and> ss_pos ?s2 0 = LeaveFound 3 race_old \<and>
      ss_pos ?s2 1 = Created 3 race_old 6 race_new \<and> sstep\<^sup>*\<^sup>* ?s2 ?s4 \<and>
      ss_pos ?s4 0 = Replied (LoggedOut race_old) \<and> race_new \<in> live_family (rr_family_id race_old) ?s4"
    using s2 run by (simp add: race_defs race_row_def live_family_def)
  then show "\<exists>s s' c d tn r at new. interleaved s \<and> c \<noteq> d \<and> ss_pos s c = LeaveFound tn r \<and>
      ss_pos s d = Created tn r at new \<and> sstep\<^sup>*\<^sup>* s s' \<and>
      ss_pos s' c = Replied (LoggedOut r) \<and> new \<in> live_family (rr_family_id r) s'" by blast
qed

section \<open>Requests one after the other are among the interleavings\<close>

lemma sweep_all:
  assumes "ss_pos s c = Sweeping ids taken at a" "\<And>i. can_lock c i s"
    and "\<And>i. i \<in> set ids \<Longrightarrow> \<exists>x \<in> set (ss_rows s). rr_token_id x = i \<and> rr_revoked_at x = None"
  shows "\<exists>s'. sstep\<^sup>*\<^sup>* s s' \<and> ss_rows s' = ss_rows s \<and> ss_pos s' c = Sweeping [] (rev ids @ taken) at a"
  using assms
proof (induction ids arbitrary: s taken)
  case Nil
  then show ?case by (intro exI[of _ s]) simp
next
  case (Cons i ids)
  let ?s = "goto c (Sweeping ids (i # taken) at a) (lock_row c i s)"
  from Cons.prems(3)[of i] obtain x where "x \<in> set (ss_rows s)" "rr_token_id x = i" "rr_revoked_at x = None" by auto
  with Cons.prems(1,2) have step: "sstep s ?s" by (intro sweep_row)
  have "\<exists>s'. sstep\<^sup>*\<^sup>* ?s s' \<and> ss_rows s' = ss_rows ?s \<and> ss_pos s' c = Sweeping [] (rev ids @ i # taken) at a"
    using Cons.prems(2,3) by (intro Cons.IH) (auto simp: goto_def lock_row_def can_lock_def)
  with step show ?case by (auto simp: goto_def lock_row_def intro: converse_rtranclp_into_rtranclp)
qed

lemma exchange_run:
  assumes "ss_pos s c = Idle" "\<And>i. can_lock c i s" "\<And>i. \<not> inserting s i" "by_hash h tn s = Some r"
    and "rr_revoked_at r = None" "now \<le> rr_expires_at r" "successor tn r new" "rr_token_id new \<notin> row_ids s"
  shows "\<exists>s'. sstep\<^sup>*\<^sup>* s s' \<and> ss_pos s' c = Replied (Exchanged new) \<and>
    ss_rows s' = update_where (\<lambda>x. rr_token_id x = rr_token_id r \<and> rr_tenant_id x = Some tn) (\<lambda>x. x\<lparr>rr_revoked_at := Some at\<rparr>) (ss_rows s) @ [new]"
proof -
  let ?s1 = "goto c (Found tn r) (lock_row c (rr_token_id r) s)"
  let ?s2 = "goto c (Rotating tn r at) ?s1"
  let ?s3 = "goto c (Created tn r at new) ?s2"
  let ?s4 = "finish c (Exchanged new) (append_row new (set_revoked (\<lambda>x. rr_token_id x = rr_token_id r \<and> rr_tenant_id x = Some tn) at ?s3))"
  have "sstep s ?s1" using assms(1,4,2) by (rule find_row)
  moreover have "sstep ?s1 ?s2" by (rule revoke[OF _ assms(6,5)]) (simp add: goto_def)
  moreover have "sstep ?s2 ?s3"
  proof (rule create)
    show "\<not> inserting ?s2 (rr_token_id new)"
      using assms(3)[of "rr_token_id new"] by (auto simp: inserting_def goto_def lock_row_def split: if_splits)
  qed (use assms(7,8) in \<open>simp_all add: goto_def lock_row_def row_ids_def\<close>)
  moreover have "sstep ?s3 ?s4" by (rule commit_rotation) (simp add: goto_def)
  ultimately have "sstep\<^sup>*\<^sup>* s ?s4" by (meson rtranclp.rtrancl_into_rtrancl rtranclp.rtrancl_refl)
  then show ?thesis by (intro exI[of _ ?s4]) (simp add: sstep_defs)
qed

lemma reuse_run:
  assumes "ss_pos s c = Idle" "\<And>i. can_lock c i s" "by_hash h tn s = Some r" "rr_revoked_at r \<noteq> None" "now \<le> rr_expires_at r"
    and "distinct (map rr_token_id (ss_rows s))"
  shows "\<exists>s'. sstep\<^sup>*\<^sup>* s s' \<and> ss_pos s' c = Replied (Reused (rr_family_id r)) \<and>
    ss_rows s' = update_where (in_family (rr_family_id r) tn) (\<lambda>x. x\<lparr>rr_revoked_at := Some at\<rparr>) (ss_rows s)"
proof -
  let ?fam = "in_family (rr_family_id r) tn"
  let ?ids = "map rr_token_id (filter ?fam (ss_rows s))"
  let ?s1 = "goto c (Found tn r) (lock_row c (rr_token_id r) s)"
  let ?s2 = "goto c (Sweeping ?ids [] at (Reused (rr_family_id r))) ?s1"
  have s1: "sstep s ?s1" using assms(1,3,2) by (rule find_row)
  have "ss_rows ?s1 = ss_rows s" by (simp add: goto_def lock_row_def)
  then have s2: "sstep ?s1 ?s2" using reuse[of ?s1 c tn r now at, OF _ assms(5,4)] by (simp add: goto_def)
  have "\<exists>s3. sstep\<^sup>*\<^sup>* ?s2 s3 \<and> ss_rows s3 = ss_rows ?s2 \<and> ss_pos s3 c = Sweeping [] (rev ?ids @ []) at (Reused (rr_family_id r))"
    by (rule sweep_all) (use assms(2) in \<open>auto simp: goto_def lock_row_def can_lock_def in_family_def\<close>)
  then obtain s3 where s3: "sstep\<^sup>*\<^sup>* ?s2 s3" "ss_rows s3 = ss_rows s" "ss_pos s3 c = Sweeping [] (rev ?ids @ []) at (Reused (rr_family_id r))"
    by (auto simp: goto_def lock_row_def)
  let ?s4 = "finish c (Reused (rr_family_id r)) (set_revoked (\<lambda>x. rr_token_id x \<in> set (rev ?ids @ [])) at s3)"
  have s4: "sstep s3 ?s4" using s3(3) by (rule sweep_commit)
  have "update_where (\<lambda>x. rr_token_id x \<in> set (rev ?ids @ [])) f (ss_rows s) = update_where ?fam f (ss_rows s)" for f
    by (rule update_where_cong) (use distinct_key_inj[OF assms(6)] in auto)
  with s3(2) have "ss_rows ?s4 = update_where ?fam (\<lambda>x. x\<lparr>rr_revoked_at := Some at\<rparr>) (ss_rows s)"
    by (simp add: finish_def goto_def set_revoked_def)
  moreover from s1 s2 s3(1) s4 have "sstep\<^sup>*\<^sup>* s ?s4" by (meson converse_rtranclp_into_rtranclp rtranclp.rtrancl_into_rtrancl)
  ultimately show ?thesis by (intro exI[of _ ?s4]) (simp add: finish_def goto_def)
qed

text \<open>
  C12: The model of overlapping requests extends the one of single requests: whatever \<^verbatim>\<open>rotateHelper\<close> does to the
  table of refresh tokens when it runs alone, whatever fails, some sequence of statements of a client does too, from every
  state in which the client is idle and nobody holds a lock or has an insertion pending; and the client gets the
  corresponding answer.
\<close>

theorem refresh_is_interleaving:
  assumes "rotateHelper S ctx tok w = (res, w')" "db_wf (w_db w)" "ss_rows s = refresh_tokens (w_db w)"
    and "ss_pos s c = Idle" "\<And>i. can_lock c i s" "\<And>i. \<not> inserting s i"
  shows "\<exists>s'. sstep\<^sup>*\<^sup>* s s' \<and> ss_rows s' = refresh_tokens (w_db w') \<and>
    (case res of
       Ok (plain, model) \<Rightarrow> \<exists>tenant. TenantFromContext ctx = Some tenant \<and>
         ss_pos s' c = Replied (Exchanged (refresh_row_of (Some (t_ID tenant)) model))
     | Err e \<Rightarrow> if e = ErrRefreshReuse then \<exists>f. ss_pos s' c = Replied (Reused f) else ss_pos s' c = Replied Failed
     | Panic p \<Rightarrow> False)"
proof -
  have fail: "\<exists>s'. sstep\<^sup>*\<^sup>* s s' \<and> ss_rows s' = ss_rows s \<and> ss_pos s' c = Replied Failed"
    using failure[of s c] assms(4) by (intro exI[of _ "finish c Failed s"]) (auto simp: finish_def goto_def)
  from assms(1) show ?thesis
  proof (cases rule: rotateHelper_cases)
    case (Rotated tenant plain model)
    then obtain r at where r: "find_refresh (HashToken tok (sv_tokenSecret S)) (t_ID tenant) (w_db w) = Some r"
      "rr_revoked_at r = None" "w_now w \<le> rr_expires_at r" "rt_ID model \<notin> rr_token_id ` set (refresh_tokens (w_db w))"
      and suc: "successor (t_ID tenant) r (refresh_row_of (Some (t_ID tenant)) model)"
      and db: "w_db w' = add_refresh (refresh_row_of (Some (t_ID tenant)) model)
        (revoke_rows (\<lambda>x. rr_token_id x = rr_token_id r \<and> rr_tenant_id x = Some (t_ID tenant)) at (w_db w))"
      unfolding rotated_def successor_def refresh_row_of_def by auto
    have "\<exists>s'. sstep\<^sup>*\<^sup>* s s' \<and> ss_pos s' c = Replied (Exchanged (refresh_row_of (Some (t_ID tenant)) model)) \<and>
        ss_rows s' = update_where (\<lambda>x. rr_token_id x = rr_token_id r \<and> rr_tenant_id x = Some (t_ID tenant))
          (\<lambda>x. x\<lparr>rr_revoked_at := Some at\<rparr>) (ss_rows s) @ [refresh_row_of (Some (t_ID tenant)) model]"
      using r assms(3-6) suc
      by (intro exchange_run[where h = "HashToken tok (sv_tokenSecret S)" and now = "w_now w"])
        (simp_all add: by_hash_def find_refresh_def row_ids_def refresh_row_of_def)
    with Rotated(1,2) db assms(3) show ?thesis by auto
  next
    case (Reuse tenant x)
    have "\<exists>s'. sstep\<^sup>*\<^sup>* s s' \<and> ss_pos s' c = Replied (Reused (rr_family_id x)) \<and>
        ss_rows s' = update_where (in_family (rr_family_id x) (t_ID tenant)) (\<lambda>x. x\<lparr>rr_revoked_at := Some (w_now w)\<rparr>) (ss_rows s)"
      using Reuse(3-5) assms(2-5)
      by (intro reuse_run[where h = "HashToken tok (sv_tokenSecret S)" and now = "w_now w"])
        (simp_all add: by_hash_def find_refresh_def db_wf_def)
    with Reuse(2,6) assms(3) show ?thesis by auto
  qed (use fail assms(3) in auto)
qed

lemma refresh_is_interleaving_witness:
  "\<exists>plain model w' s'. rotateHelper sample_S acme_ctx ''tok'' (session_world None) = (Ok (plain, model), w') \<and>
     sstep\<^sup>*\<^sup>* \<lparr>ss_rows = [session_row None], ss_lock = Map.empty, ss_pos = (\<lambda>_. Idle)\<rparr> s' \<and> ss_rows s' = refresh_tokens (w_db w') \<and>
     ss_pos s' 0 = Replied (Exchanged (refresh_row_of (Some 3) model))"
proof -
  obtain plain model w' where run: "rotateHelper sample_S acme_ctx ''tok'' (session_world None) = (Ok (plain, model), w')"
    using session_rotates by blast
  from refresh_is_interleaving[OF run session_world_wf, of "\<lparr>ss_rows = [session_row None], ss_lock = Map.empty, ss_pos = (\<lambda>_. Idle)\<rparr>" 0] run
  show ?thesis by (auto simp: can_lock_def inserting_def)
qed

end
