(* ===== verification/Concurrent_Resets.thy ===== *)
theory Concurrent_Resets
  imports Concurrent_Sessions
begin

text \<open>
  Password resets that overlap: the statements of \<^verbatim>\<open>ResetPassword\<close> on the tables of users and of reset tokens, for
  any number of clients and under every interleaving, at the default isolation level (see
  \<^verbatim>\<open>Concurrent_Sessions\<close>). \<^verbatim>\<open>FindValidResetTokenTx\<close> reads without a lock; \<^verbatim>\<open>ChangePassword\<close> locks the row of the
  user and \<^verbatim>\<open>MarkResetTokenUsedTx\<close> that of the token, by identifier alone, until the commit. The revocation of the
  sessions and the event, which go to other tables, are left out.
\<close>

section \<open>Clients and steps\<close>

datatype reset_pos =
    ResetIdle
  | ResetFound reset_row
  | PasswordSet reset_row string time
  | TokenMarked reset_row string time time
  | ResetDone reset_row string
  | ResetFailed

record resets =
  re_users :: "User list"
  re_tokens :: "reset_row list"
  re_ulock :: "uuid \<rightharpoonup> client"
  re_tlock :: "uuid \<rightharpoonup> client"
  re_pos :: "client \<Rightarrow> reset_pos"

definition reset_goto :: "client \<Rightarrow> reset_pos \<Rightarrow> resets \<Rightarrow> resets" where
  "reset_goto c p s = s\<lparr>re_pos := (re_pos s)(c := p)\<rparr>"

definition unlocked :: "client \<Rightarrow> uuid \<Rightarrow> (uuid \<rightharpoonup> client) \<Rightarrow> bool" where
  "unlocked c i l \<longleftrightarrow> l i = None \<or> l i = Some c"

definition unlock_all :: "client \<Rightarrow> (uuid \<rightharpoonup> client) \<Rightarrow> (uuid \<rightharpoonup> client)" where
  "unlock_all c l = (\<lambda>i. if l i = Some c then None else l i)"

definition reset_end :: "client \<Rightarrow> reset_pos \<Rightarrow> resets \<Rightarrow> resets" where
  "reset_end c p s = reset_goto c p (s\<lparr>re_ulock := unlock_all c (re_ulock s), re_tlock := unlock_all c (re_tlock s)\<rparr>)"

definition reset_commit :: "reset_row \<Rightarrow> string \<Rightarrow> time \<Rightarrow> time \<Rightarrow> resets \<Rightarrow> resets" where
  "reset_commit row h t used s =
     s\<lparr>re_users := update_where (\<lambda>u. u_ID u = pw_user_id row) (\<lambda>u. u\<lparr>u_PasswordHash := Some h, u_UpdatedAt := t\<rparr>) (re_users s),
       re_tokens := update_where (\<lambda>r. pw_token_id r = pw_token_id row) (\<lambda>r. r\<lparr>pw_used_at := Some used\<rparr>) (re_tokens s)\<rparr>"

inductive rstep_reset :: "resets \<Rightarrow> resets \<Rightarrow> bool" where
  reset_find:
    "re_pos s c = ResetIdle \<Longrightarrow> List.find (reset_valid hash tn now) (re_tokens s) = Some row \<Longrightarrow>
     rstep_reset s (reset_goto c (ResetFound row) s)"
| reset_change:
    "re_pos s c = ResetFound row \<Longrightarrow> unlocked c (pw_user_id row) (re_ulock s) \<Longrightarrow>
     rstep_reset s (reset_goto c (PasswordSet row h t) (s\<lparr>re_ulock := (re_ulock s)(pw_user_id row \<mapsto> c)\<rparr>))"
| reset_mark:
    "re_pos s c = PasswordSet row h t \<Longrightarrow> unlocked c (pw_token_id row) (re_tlock s) \<Longrightarrow>
     rstep_reset s (reset_goto c (TokenMarked row h t used) (s\<lparr>re_tlock := (re_tlock s)(pw_token_id row \<mapsto> c)\<rparr>))"
| reset_commit_step:
    "re_pos s c = TokenMarked row h t used \<Longrightarrow> rstep_reset s (reset_end c (ResetDone row h) (reset_commit row h t used s))"
| reset_fail:
    "\<forall>row h. re_pos s c \<noteq> ResetDone row h \<Longrightarrow> rstep_reset s (reset_end c ResetFailed s)"

definition reset_start :: "resets \<Rightarrow> bool" where
  "reset_start s \<longleftrightarrow> re_ulock s = Map.empty \<and> re_tlock s = Map.empty \<and> re_pos s = (\<lambda>_. ResetIdle)"

abbreviation resets_overlapping :: "resets \<Rightarrow> bool" where
  "resets_overlapping \<equiv> reach reset_start rstep_reset"

lemmas reset_step_defs = reset_goto_def unlocked_def unlock_all_def reset_end_def reset_commit_def

section \<open>What holds\<close>

text \<open>A token of a finished reset is used and stays so, and the password is one that a finished reset set.\<close>

definition resets_consumed :: "resets \<Rightarrow> bool" where
  "resets_consumed s \<longleftrightarrow> (\<forall>c row h. re_pos s c = ResetDone row h \<longrightarrow>
     (\<forall>x \<in> set (re_tokens s). pw_token_id x = pw_token_id row \<longrightarrow> pw_used_at x \<noteq> None) \<and>
     (\<forall>u \<in> set (re_users s). u_ID u = pw_user_id row \<longrightarrow>
        (\<exists>d row' h'. re_pos s d = ResetDone row' h' \<and> pw_user_id row' = u_ID u \<and> u_PasswordHash u = Some h')))"

lemma resets_consumed_step:
  assumes "rstep_reset s s'" "resets_consumed s"
  shows "resets_consumed s'"
  using assms
proof (induction rule: rstep_reset.induct)
  case (reset_commit_step s c row h t used)
  let ?s = "reset_end c (ResetDone row h) (reset_commit row h t used s)"
  have pos: "re_pos ?s = (re_pos s)(c := ResetDone row h)" by (simp add: reset_step_defs)
  have used: "pw_used_at x \<noteq> None" if "x \<in> set (re_tokens ?s)" "pw_token_id x = pw_token_id row' " "re_pos ?s d = ResetDone row' h'" for x d row' h'
  proof (cases "pw_token_id x = pw_token_id row")
    case True
    with that(1) show ?thesis by (auto simp: reset_step_defs elim!: update_where_hit)
  next
    case False
    with that have "x \<in> set (re_tokens s)" "re_pos s d = ResetDone row' h'"
      by (auto simp: pos reset_step_defs in_update_where_iff split: if_splits)
    with that(2) reset_commit_step(2) show ?thesis unfolding resets_consumed_def by blast
  qed
  moreover have "\<exists>d row2 h2. re_pos ?s d = ResetDone row2 h2 \<and> pw_user_id row2 = u_ID u \<and> u_PasswordHash u = Some h2"
    if u: "u \<in> set (re_users ?s)" "u_ID u = pw_user_id row'" "re_pos ?s d = ResetDone row' h'" for u d row' h'
  proof (cases "u_ID u = pw_user_id row")
    case True
    then have "u_PasswordHash u = Some h" using u(1) by (auto simp: reset_step_defs elim!: update_where_hit)
    with True show ?thesis by (intro exI[of _ c] exI[of _ row] exI[of _ h]) (simp add: pos)
  next
    case False
    with u have old: "u \<in> set (re_users s)" "re_pos s d = ResetDone row' h'"
      by (auto simp: pos reset_step_defs in_update_where_iff split: if_splits)
    then obtain e row2 h2 where "re_pos s e = ResetDone row2 h2" "pw_user_id row2 = u_ID u" "u_PasswordHash u = Some h2"
      using reset_commit_step(2) u(2) unfolding resets_consumed_def by blast
    with reset_commit_step(1) show ?thesis by (intro exI[of _ e] exI[of _ row2] exI[of _ h2]) (auto simp: pos)
  qed
  ultimately show ?case unfolding resets_consumed_def by blast
qed (auto simp: resets_consumed_def reset_step_defs; metis reset_pos.distinct)+

lemma resets_consumed_start: "reset_start s \<Longrightarrow> resets_consumed s"
  by (simp add: reset_start_def resets_consumed_def)

interpretation consumed: inductive_invariant reset_start rstep_reset resets_consumed
  by unfold_locales (rule resets_consumed_start, assumption, rule resets_consumed_step)

text \<open>A reset that starts after another one with the same token was answered finds nothing.\<close>

lemma reset_after_done:
  assumes "resets_overlapping s" "re_pos s c = ResetDone row h" "List.find (reset_valid hash tn now) (re_tokens s) = Some x"
  shows "pw_token_id x \<noteq> pw_token_id row"
  using consumed.reach_inv[OF assms(1)] assms(2) find_Some_in[OF assms(3)]
  unfolding resets_consumed_def reset_valid_def by blast

section \<open>A token that works twice\<close>

definition twice_row :: reset_row where
  "twice_row = \<lparr>pw_token_id = 30, pw_user_id = 7, pw_tenant_id = Some 3, pw_token_hash = ''h'', pw_expires_at = 5000,
     pw_used_at = None, pw_created_at = 0, pw_revoked_at = None\<rparr>"

definition twice_start :: resets where
  "twice_start = \<lparr>re_users = [sample_user], re_tokens = [twice_row], re_ulock = Map.empty, re_tlock = Map.empty, re_pos = (\<lambda>_. ResetIdle)\<rparr>"

text \<open>From the position after the look-up on, one client finishes, whoever else has read the token meanwhile.\<close>

lemma reset_finishes:
  assumes "resets_overlapping s" "re_pos s c = ResetFound row" "re_ulock s = Map.empty" "re_tlock s = Map.empty"
  shows "\<exists>s'. resets_overlapping s' \<and> re_pos s' = (re_pos s)(c := ResetDone row h) \<and> re_ulock s' = Map.empty \<and> re_tlock s' = Map.empty"
proof -
  let ?s1 = "reset_goto c (PasswordSet row h 0) (s\<lparr>re_ulock := (re_ulock s)(pw_user_id row \<mapsto> c)\<rparr>)"
  let ?s2 = "reset_goto c (TokenMarked row h 0 0) (?s1\<lparr>re_tlock := (re_tlock ?s1)(pw_token_id row \<mapsto> c)\<rparr>)"
  let ?s3 = "reset_end c (ResetDone row h) (reset_commit row h 0 0 ?s2)"
  have "resets_overlapping ?s1"
    by (rule reach_step[OF assms(1)], rule reset_change) (use assms in \<open>simp_all add: unlocked_def\<close>)
  then have "resets_overlapping ?s2"
    by (rule reach_step) (rule reset_mark, use assms in \<open>simp_all add: reset_goto_def unlocked_def\<close>)
  then have "resets_overlapping ?s3"
    by (rule reach_step) (rule reset_commit_step, simp add: reset_goto_def)
  moreover have "re_ulock ?s3 = Map.empty" "re_tlock ?s3 = Map.empty" "re_pos ?s3 = (re_pos s)(c := ResetDone row h)"
    using assms(3,4) by (auto simp: reset_step_defs fun_eq_iff)
  ultimately show ?thesis by blast
qed

text \<open>
  C18: A reset token works twice when two requests overlap: both look the token up before either has marked it used,
  nothing looks at it again, and both are answered with success, for different passwords.
  (\<^verbatim>\<open>FindValidResetTokenTx\<close> takes no lock, unlike \<^verbatim>\<open>FindbyHash\<close>; one after the other the second is refused.)
\<close>

theorem reset_token_works_twice:
  "\<exists>s row. resets_overlapping s \<and> re_pos s 0 = ResetDone row ''first'' \<and> re_pos s 1 = ResetDone row ''second''"
proof -
  have "resets_overlapping twice_start" by (rule reach_init) (simp add: reset_start_def twice_start_def)
  then have "resets_overlapping (reset_goto 0 (ResetFound twice_row) twice_start)"
    by (rule reach_step) (rule reset_find[where hash = "''h''" and tn = 3 and now = 0],
        simp_all add: twice_start_def reset_valid_def twice_row_def)
  then have "resets_overlapping (reset_goto 1 (ResetFound twice_row) (reset_goto 0 (ResetFound twice_row) twice_start))"
    by (rule reach_step) (rule reset_find[where hash = "''h''" and tn = 3 and now = 0],
        simp_all add: twice_start_def reset_valid_def twice_row_def reset_goto_def)
  from reset_finishes[OF this, of 0 twice_row "''first''"] obtain s where
    s: "resets_overlapping s" "re_pos s 0 = ResetDone twice_row ''first''" "re_pos s 1 = ResetFound twice_row"
      "re_ulock s = Map.empty" "re_tlock s = Map.empty"
    by (auto simp: reset_goto_def twice_start_def)
  from reset_finishes[OF s(1,3-5), of "''second''"] s(2) show ?thesis by auto
qed

end
