(* ===== verification/Spec2Isabelle.thy ===== *)
theory Spec2Isabelle
  imports Http_Answers Mailer Shutdown Backends Concurrent_Resets
begin

text \<open>
  \<^bold>\<open>GoAuthAPI\<close>, verified. The program is a multi-tenant authentication service in Go: an HTTP server (chi) in
  front of a service layer over PostgreSQL or SQLite, with Redis for rate limits, RabbitMQ for events and SMTP
  for mail. This theory imports the whole development and says what is modelled and what is shown.

  \<^bold>\<open>The parts and how they interact.\<close> A request passes the middlewares (body limit, CORS, request identifier, metrics,
  access log, recovery from panics), the router, and for tenant routes the tenant gate and, on three of them, the
  rate limiter; its handler decodes JSON and makes at most one call of the service. The service reads and writes
  through the repositories, in a transaction where the code opens one; events for other systems are rows of the
  outbox table. A worker claims such rows in batches, publishes them to the broker and marks them. At start-up
  \<^verbatim>\<open>main\<close> loads the configuration, the keys and the scripts, connects, wires these parts and serves.

  \<^bold>\<open>Shape of the model.\<close> An operation of the code is a function \<open>world \<Rightarrow> result \<times> world\<close> (type \<open>M\<close> of
  \<^theory_text>\<open>World\<close>); the result is a value, a returned error or a panic, and \<open>bindM\<close>, \<open>attempt\<close> and \<open>deferM\<close> are
  the sequencing, the \<^verbatim>\<open>if err != nil\<close> and the \<^verbatim>\<open>defer\<close> of Go. The world holds the committed tables, the open
  transaction, the clock, the Redis keys, the supplies of identifiers and random bytes, the sent mails, the delivered
  messages, the metrics and the log. What can go wrong is part of the world too: \<open>w_faults\<close> says which statements
  of the database fail, \<open>w_redis_faults\<close>, \<open>w_mail_faults\<close> and \<open>w_pub\<close> likewise, and \<open>w_ticks\<close> how much time passes
  between two readings of the clock. A theorem about all worlds is therefore one about all failures. SQL
  statements are functions on tables with the constraints of the schema as their errors. Third-party code is a
  parameter: bcrypt, JWT, UUID texts and address parsing (\<open>lib\<close>), chi, CORS, Prometheus and Swagger (\<open>web\<close>), PEM and
  X.509 (\<open>keylib\<close>), the database drivers (\<open>db_driver\<close>), and \<^verbatim>\<open>net/smtp\<close>. What a theorem needs of them is among its
  hypotheses, and \<^theory_text>\<open>Samples\<close> and \<^theory_text>\<open>Http_Access\<close> give instances.

  \<^bold>\<open>Theories and sources\<close> (paths under \<^verbatim>\<open>src/internal\<close>):
  \<^item> \<^theory_text>\<open>Prelude\<close>: outcomes, combinators, lemmas on tables, the collections the proofs use.
  \<^item> \<^theory_text>\<open>Go_Std\<close>, \<^theory_text>\<open>Json\<close>, \<^theory_text>\<open>Net\<close>: what the code uses of \<^verbatim>\<open>strings\<close>, \<^verbatim>\<open>strconv\<close>, \<^verbatim>\<open>time\<close>, \<^verbatim>\<open>crypto\<close>,
    \<^verbatim>\<open>encoding\<close> and \<^verbatim>\<open>net\<close>, executable (SHA-256 and HMAC on 32-bit words included).
  \<^item> \<^theory_text>\<open>Errors\<close> (\<^verbatim>\<open>auth/errors.go\<close>), \<^theory_text>\<open>Models\<close> (\<^verbatim>\<open>models\<close>), \<^theory_text>\<open>World\<close> (\<^verbatim>\<open>database/sql\<close>, the schema).
  \<^item> \<^theory_text>\<open>Users_Repo\<close>, \<^theory_text>\<open>Refresh_Repo\<close>, \<^theory_text>\<open>Email_Repo\<close>, \<^theory_text>\<open>Tenants_Repo\<close> (\<^verbatim>\<open>users\<close>, \<^verbatim>\<open>auth/refresh\<close>,
    \<^verbatim>\<open>auth/mail\<close>, \<^verbatim>\<open>auth/tenants\<close>): both back ends of each, one locale per repository interface, interpreted on
    PostgreSQL and on SQLite. \<^theory_text>\<open>Outbox_Repo\<close> (\<^verbatim>\<open>outbox\<close>) likewise, on PostgreSQL, its only back end.
  \<^item> \<^theory_text>\<open>Broker\<close> (\<^verbatim>\<open>broker/rabbitmq.go\<close>): the calls, and the protocol of publisher confirmations as a step relation over
    all interleavings of publishers, the confirmation loop and \<^verbatim>\<open>Close\<close>.
  \<^item> \<^theory_text>\<open>Outbox_Processor\<close> (\<^verbatim>\<open>outbox/processor.go\<close>, \<^verbatim>\<open>worker.go\<close>), \<^theory_text>\<open>Tokens\<close> (\<^verbatim>\<open>auth/jwt.go\<close>, \<^verbatim>\<open>crypto\<close>),
    \<^theory_text>\<open>Rate_Limiter\<close> (\<^verbatim>\<open>auth/ratelimiter\<close> and the Lua scripts).
  \<^item> \<^theory_text>\<open>Service\<close> (\<^verbatim>\<open>auth/service.go\<close>, \<^verbatim>\<open>context.go\<close>): every operation. Its theorems are in
    \<^theory_text>\<open>Service_Session\<close>, \<^theory_text>\<open>Service_Accounts\<close>, \<^theory_text>\<open>Service_Passwords\<close> and \<^theory_text>\<open>Service_Liveness\<close>.
  \<^item> \<^theory_text>\<open>Reachable\<close>: histories of requests and worker runs as an inductive step relation, invariants by the locale
    \<open>inductive_invariant\<close>.
  \<^item> \<^theory_text>\<open>Http\<close>, \<^theory_text>\<open>Handlers\<close>, \<^theory_text>\<open>Middleware\<close>, \<^theory_text>\<open>Router\<close> (\<^verbatim>\<open>auth/handlers.go\<close>, \<^verbatim>\<open>validations.go\<close>,
    \<^verbatim>\<open>middleware.go\<close>, \<^verbatim>\<open>metrics\<close>, \<^verbatim>\<open>config/router.go\<close>): the HTTP layer down to the JSON texts;
    \<^theory_text>\<open>Http_Refinement\<close>, \<^theory_text>\<open>Http_Access\<close> and \<^theory_text>\<open>Http_Answers\<close> have its theorems.
  \<^item> \<^theory_text>\<open>Config\<close> (\<^verbatim>\<open>config\<close>), \<^theory_text>\<open>Db_Open\<close> (\<^verbatim>\<open>db\<close>), \<^theory_text>\<open>Mailer\<close> (\<^verbatim>\<open>auth/mail/smtp.go\<close>), \<^theory_text>\<open>Logger\<close>
    (\<^verbatim>\<open>auth/logger\<close>), \<^theory_text>\<open>Startup\<close> (\<^verbatim>\<open>cmd/server/main.go\<close> up to serving, \<^verbatim>\<open>auth/luascripts\<close>),
    \<^theory_text>\<open>Shutdown\<close> (the rest of \<^verbatim>\<open>main.go\<close>: server, worker and main goroutine as a step relation).
  \<^item> \<^theory_text>\<open>Backends\<close>: the two repositories of refresh tokens compared with each other.
  \<^item> \<^theory_text>\<open>Concurrent_Sessions\<close> and \<^theory_text>\<open>Concurrent_Resets\<close>: refresh, log-out, revocation of a user's sessions and reset of a
    password once more, statement by statement, as step relations in which requests overlap in the database.
  \<^item> \<^theory_text>\<open>Samples\<close> and \<^theory_text>\<open>Service_Samples\<close>: concrete inputs for the witnesses.

  \<^bold>\<open>What is shown.\<close>
  \<^item> Sessions: a refresh replaces the presented token by exactly one successor; a revoked token is never
    exchanged and its reuse revokes its family; a stolen token cannot outlive its first rotation; a failed refresh changes
    nothing; a login that succeeds had the right password, and with the right password it succeeds and its token can be
    refreshed.
  \<^item> Accounts and passwords: sign-up is all or nothing, verification and reset tokens work once (when requests do not overlap), reset ends all sessions, a
    change of password touches one account; and where the code falls short (revocation of reset links has no effect).
  \<^item> All histories: the tables satisfy the schema, a family has at most one live token, every successor descends from a
    revoked token of its family; no operation but a failed login returns with its transaction open.
  \<^item> Outbox: what is marked published was delivered; a claim hands out every eligible row up to its
    limit, and none that an earlier claim still holds; a calm batch publishes all due rows; failures are rescheduled by a back-off
    within bounds. Broker: a caller is answered once, and success means that the server confirmed the caller's own message;
    a refused publish may drop the entry of the next caller.
  \<^item> Overlapping requests: at most one of the refreshes of a token wins and a family keeps at most one live token, whatever
    the interleaving; without interference the steps are those of the service. Two weaknesses are exhibited: a revocation
    misses the successor that a refresh is inserting, and two overlapping resets both spend one reset token.
  \<^item> Back ends: on the data of one tenant the SQLite repository of refresh tokens does what the PostgreSQL one does, the
    recorded instants of bulk revocations apart.
  \<^item> Limits: a burst of failed logins is refused after the sixth, for the time of the penalty.
  \<^item> HTTP: every request gets the answer of its handler, or a fixed 500 when the handler panics; whatever a request holds, the server takes steps of the abstract service only (a
    simulation), so the invariants of histories carry over; the tenant and the token gate; error texts do not leak, a failed
    login does not tell whether the account exists; and the routes that do not do what they promise.
  \<^item> Start-up: serving implies a complete PostgreSQL configuration; connecting ends within five attempts. Shutdown: in every
    interleaving the broker is closed after the server, a crash before any signal closes nothing, published still means
    delivered, and the process can always end after a signal; it does not wait for the worker, whose batch may stay claimed.

  \<^bold>\<open>Loops and bounds.\<close> No definition uses fuel without a theorem that it is enough: the connection loop and the JSON reader are
  total with a measure; the polling loop of the worker runs over the list of its wake-ups, so that a
  theorem about all lists is one about every finite run; the Lua scripts and the batches are folds. Identifiers are
  128-bit words, bytes 8-bit and hash words 32-bit; durations and times are integers in nanoseconds without the
  wrap-around of \<^verbatim>\<open>int64\<close>, which the code's constants do not reach; the Redis database and protocol numbers wrap at eight
  bits as in the code.

  \<^bold>\<open>Assumed of the libraries.\<close> A \<^verbatim>\<open>Commit\<close> that returns an error has not taken effect (a server that commits and then
  loses the connection is not modelled). A transaction still open when a request ends is rolled back, because
  \<^verbatim>\<open>net/http\<close> cancels the request's context and \<^verbatim>\<open>database/sql\<close> rolls back transactions begun with it (\<open>ServeHTTP\<close> of
  \<^theory_text>\<open>Router\<close>, which stands for \<^verbatim>\<open>net/http\<close> and not for code of the program). A claim lists its rows by age, though
  \<^verbatim>\<open>UPDATE .. RETURNING\<close> promises no order; no theorem is about that order. An AMQP channel numbers the messages it sends one
  after the other and a refused message uses no number up; \<open>2\<^sup>6\<^sup>4\<close> messages are not reached.

  \<^bold>\<open>Not modelled.\<close> Overlap inside the database of requests other than the four named above (in \<^theory_text>\<open>Reachable\<close> each call
  of the service is one step of a history; \<^verbatim>\<open>SKIP LOCKED\<close> is modelled by the set of rows that are locked elsewhere). The sockets
  behind \<^verbatim>\<open>ListenAndServe\<close> and \<^verbatim>\<open>Shutdown\<close>, of which only the outcome is used. The size and the duration in a line of the
  access log, the buckets of the latency histogram, and log lines outside the HTTP layer and \<^verbatim>\<open>main\<close>. \<^verbatim>\<open>docs/docs.go\<close> is generated text; \<^verbatim>\<open>models/tenant_policies.go\<close>, \<^verbatim>\<open>oauth_identity.go\<close> and
  \<^verbatim>\<open>user_role.go\<close> declare types that nothing uses; \<^verbatim>\<open>internal/tests\<close> sets up
  containers for the tests. Strings are lists of bytes; functions on letters (\<^verbatim>\<open>ToLower\<close>, \<^verbatim>\<open>TrimSpace\<close>) are those for ASCII.
\<close>

end
